(* ===== verification/Prelude.thy ===== *)
theory Prelude
  imports Main "HOL-Library.Word" "HOL-Library.Signed_Division" "HOL-Library.Multiset"
begin

text \<open>
  The shared vocabulary of the development: Go's fixed-width integers as words, the result
  type of fallible operations, and the generic lemmas on lists, maps and words that the
  component theories share.  The collection \<open>go_defs\<close> gathers the unfolding rules of small
  total helpers of the source, \<open>go_intros\<close> the preservation lemmas of component invariants.
\<close>

named_theorems go_defs \<open>unfolding rules of the small helpers of the source\<close>
named_theorems go_intros \<open>preservation lemmas of component invariants\<close>

section \<open>Machine integers\<close>

text \<open>
  Go's \<open>uint64\<close> and \<open>int64\<close> (and \<open>int\<close> on 64-bit targets) are both 64-bit words; the signed
  reading is \<open>sint\<close>, the unsigned one \<open>unat\<close>, and a conversion between the two types is the
  identity on the word.  Signed division truncates towards zero.
\<close>

type_synonym byte = "8 word"
type_synonym u64 = "64 word"
type_synonym i64 = "64 word"

definition i64_div :: "i64 \<Rightarrow> i64 \<Rightarrow> i64" where
  "i64_div a b = word_of_int (sint a sdiv sint b)"

definition i64_mod :: "i64 \<Rightarrow> i64 \<Rightarrow> i64" where
  "i64_mod a b = word_of_int (sint a - sint a sdiv sint b * sint b)"

definition i64_less :: "i64 \<Rightarrow> i64 \<Rightarrow> bool" where
  "i64_less a b \<longleftrightarrow> sint a < sint b"

lemma sint_range64: "- (2 ^ 63) \<le> sint (x :: i64)" "sint (x :: i64) < 2 ^ 63"
  using sint_ge [of x] sint_lt [of x] by simp_all

lemma sint_inject: "sint (x :: i64) = sint y \<longleftrightarrow> x = y"
proof
  assume "sint x = sint y"
  then have "(word_of_int (sint x) :: i64) = word_of_int (sint y)" by (rule arg_cong)
  then show "x = y" by simp
qed simp

lemma sint_word_of_int_small:
  "- (2 ^ 63) \<le> k \<Longrightarrow> k < 2 ^ 63 \<Longrightarrow> sint (word_of_int k :: i64) = k"
  by (simp add: sint_sbintrunc' signed_take_bit_int_eq_self)

lemma sint_eq_uint_small: "uint (x :: i64) < 2 ^ 63 \<Longrightarrow> sint x = uint x"
  using sint_word_of_int_small [of "uint x"] uint_ge_0 [of x] by simp

lemma sint_nonneg_uint:
  assumes "0 \<le> sint (x :: i64)"
  shows "uint x = sint x"
proof -
  have "take_bit 64 (sint x) = sint x"
    using assms sint_range64 [of x] by (simp add: take_bit_int_eq_self)
  then show ?thesis using uint_sint [of x] by simp
qed

lemma sint_i64_add:
  assumes "- (2 ^ 63) \<le> sint a + sint b" and "sint a + sint b < 2 ^ 63"
  shows "sint (a + b :: i64) = sint a + sint b"
proof -
  have "a + b = word_of_int (sint a + sint b)" by simp
  then show ?thesis using assms sint_word_of_int_small by presburger
qed

lemma sint_i64_sub:
  assumes "- (2 ^ 63) \<le> sint a - sint b" and "sint a - sint b < 2 ^ 63"
  shows "sint (a - b :: i64) = sint a - sint b"
proof -
  have "a - b = word_of_int (sint a - sint b)" by simp
  then show ?thesis using assms sint_word_of_int_small by presburger
qed

lemma sint_i64_mult:
  assumes "- (2 ^ 63) \<le> sint a * sint b" and "sint a * sint b < 2 ^ 63"
  shows "sint (a * b :: i64) = sint a * sint b"
proof -
  have "a * b = word_of_int (sint a * sint b)" by simp
  then show ?thesis using assms sint_word_of_int_small by presburger
qed

lemma sdiv_pos: "0 < b \<Longrightarrow> (a :: int) sdiv b = (if 0 \<le> a then a div b else - (- a div b))"
  by (auto simp: signed_divide_int_def sgn_if)

lemma sint_i64_div:
  assumes "0 < sint b"
  shows "sint (i64_div a b) = sint a sdiv sint b"
proof -
  have "0 \<le> \<bar>sint a\<bar> div sint b" "\<bar>sint a\<bar> div sint b \<le> \<bar>sint a\<bar>"
    using assms zdiv_mono2 [of "\<bar>sint a\<bar>" 1 "sint b"]
    by (simp_all add: pos_imp_zdiv_nonneg_iff)
  moreover have "\<bar>sint a\<bar> \<le> 2 ^ 63" using sint_range64 [of a] by linarith
  moreover have "0 \<le> sint a \<Longrightarrow> \<bar>sint a\<bar> < 2 ^ 63" using sint_range64 [of a] by linarith
  ultimately show ?thesis
    unfolding i64_div_def sdiv_pos [OF assms]
    by (intro sint_word_of_int_small) (auto split: if_splits)
qed

lemma inj_word_add: "inj (\<lambda>x. x + (c :: 'a::len word))"
  by (simp add: inj_on_def)


text \<open>A sum and the members do not depend on the order of a list.\<close>

lemma sum_list_map_perm:
  fixes f :: "'a \<Rightarrow> 'b::comm_monoid_add"
  assumes "mset xs = mset ys"
  shows "sum_list (map f xs) = sum_list (map f ys)"
  by (metis assms mset_map sum_mset_sum_list)

section \<open>First occurrences and running maxima\<close>

text \<open>
  Several components keep a store that lets only the first element of each key through (the
  bid cache, the unique index of a table), or only an element that beats the best one so far
  (the top-bid cache).  The interfaces below state what such a store promises; the elements it
  lets through are then \<open>firsts_by\<close> and \<open>maxima_by\<close>, whatever the representation.
\<close>

fun firsts_by :: "('a \<Rightarrow> 'k) \<Rightarrow> ('k \<Rightarrow> bool) \<Rightarrow> 'a list \<Rightarrow> 'a list" where
  "firsts_by key seen [] = []"
| "firsts_by key seen (a # as) =
     (if seen (key a) then firsts_by key seen as
      else a # firsts_by key (\<lambda>k. seen k \<or> k = key a) as)"

definition beats :: "'v::linorder option \<Rightarrow> 'v \<Rightarrow> bool" where
  "beats best v \<longleftrightarrow> (case best of None \<Rightarrow> True | Some w \<Rightarrow> w < v)"

fun maxima_by :: "('a \<Rightarrow> 'k) \<Rightarrow> ('a \<Rightarrow> 'v::linorder) \<Rightarrow> ('k \<Rightarrow> 'v option) \<Rightarrow> 'a list \<Rightarrow> 'a list" where
  "maxima_by key val best [] = []"
| "maxima_by key val best (a # as) =
     (if beats (best (key a)) (val a) then a # maxima_by key val (best(key a \<mapsto> val a)) as
      else maxima_by key val best as)"

lemma key_firsts_by: "key ` set (firsts_by key seen as) = {k \<in> key ` set as. \<not> seen k}"
  by (induction as arbitrary: seen) auto

lemma set_firsts_by: "set (firsts_by key seen as) \<subseteq> set as"
  by (induction as arbitrary: seen) auto

lemma distinct_firsts_by: "distinct (map key (firsts_by key seen as))"
proof (induction as arbitrary: seen)
  case (Cons a as)
  have "key a \<notin> key ` set (firsts_by key (\<lambda>k. seen k \<or> k = key a) as)"
    by (simp add: key_firsts_by)
  with Cons show ?case by simp
qed simp

lemma set_maxima_by: "set (maxima_by key val best as) \<subseteq> set as"
  by (induction as arbitrary: best) auto

lemma maxima_by_above: "b \<in> set (maxima_by key val best as) \<Longrightarrow> beats (best (key b)) (val b)"
proof (induction as arbitrary: best)
  case (Cons a as)
  show ?case
  proof (cases "b = a")
    case False
    with Cons.prems consider "b \<in> set (maxima_by key val best as)"
      | "beats (best (key a)) (val a)" "b \<in> set (maxima_by key val (best(key a \<mapsto> val a)) as)"
      by (auto split: if_splits)
    then show ?thesis
    proof cases
      case 2
      with Cons.IH [OF 2(2)] show ?thesis by (auto simp: beats_def split: option.splits if_splits)
    qed (rule Cons.IH)
  next
    case True
    show ?thesis
    proof (rule ccontr)
      assume "\<not> beats (best (key b)) (val b)"
      with True Cons.prems have "b \<in> set (maxima_by key val best as)" by simp
      then show False using Cons.IH \<open>\<not> beats (best (key b)) (val b)\<close> by blast
    qed
  qed
qed simp

lemma sorted_maxima_by:
  "sorted_wrt (<) (map val (filter (\<lambda>a. key a = k) (maxima_by key val best as)))"
proof (induction as arbitrary: best)
  case (Cons a as)
  have "val a < val b" if "b \<in> set (maxima_by key val (best(key a \<mapsto> val a)) as)" "key b = key a" for b
    using maxima_by_above [OF that(1)] that(2) by (simp add: beats_def)
  with Cons show ?case by auto
qed simp

locale first_store =
  fixes seen :: "'s \<Rightarrow> 'k \<Rightarrow> bool" and store :: "'a \<Rightarrow> 's \<Rightarrow> 's" and key :: "'a \<Rightarrow> 'k"
  assumes seen_store: "seen (store a s) k \<longleftrightarrow> seen s k \<or> k = key a"
begin

lemma firsts_step:
  "firsts_by key (seen s) (a # as) =
     (if seen s (key a) then [] else [a]) @ firsts_by key (seen (store a s)) as"
proof -
  have "seen (store a s) = (\<lambda>k. seen s k \<or> k = key a)" by (rule ext) (rule seen_store)
  moreover have "seen s (key a) \<Longrightarrow> (\<lambda>k. seen s k \<or> k = key a) = seen s" by auto
  ultimately show ?thesis by simp
qed

lemma stored_keys: "seen (fold store as s) k \<longleftrightarrow> seen s k \<or> k \<in> key ` set as"
  by (induction as arbitrary: s) (auto simp: seen_store)

end

locale best_store =
  fixes best :: "'s \<Rightarrow> 'k \<Rightarrow> 'v::linorder option" and offer :: "'a \<Rightarrow> 's \<Rightarrow> 's"
    and key :: "'a \<Rightarrow> 'k" and val :: "'a \<Rightarrow> 'v"
  assumes best_offer: "best (offer a s) =
    (if beats (best s (key a)) (val a) then (best s)(key a \<mapsto> val a) else best s)"
begin

lemma maxima_step:
  "maxima_by key val (best s) (a # as) =
     (if beats (best s (key a)) (val a) then [a] else []) @ maxima_by key val (best (offer a s)) as"
  by (simp add: best_offer)

lemma best_bound_step: "\<exists>v. best (offer a s) (key a) = Some v \<and> val a \<le> v"
  by (auto simp: best_offer beats_def split: option.splits)

lemma best_mono_step: "best s k = Some v \<Longrightarrow> \<exists>w. best (offer a s) k = Some w \<and> v \<le> w"
  by (auto simp: best_offer beats_def split: option.splits)

lemma best_mono: "best s k = Some v \<Longrightarrow> \<exists>w. best (fold offer as s) k = Some w \<and> v \<le> w"
proof (induction as arbitrary: s v)
  case (Cons a as)
  from best_mono_step [OF Cons.prems] obtain w where "best (offer a s) k = Some w" "v \<le> w" by blast
  with Cons.IH show ?case by (fastforce intro: order_trans)
qed simp

lemma best_bound: "a \<in> set as \<Longrightarrow> \<exists>v. best (fold offer as s) (key a) = Some v \<and> val a \<le> v"
proof (induction as arbitrary: s)
  case (Cons b as)
  show ?case
  proof (cases "a \<in> set as")
    case False
    with Cons.prems have "a = b" by simp
    from best_bound_step [of b s] obtain v where "best (offer b s) (key b) = Some v" "val b \<le> v" by blast
    with best_mono [of "offer b s" "key b" v as] \<open>a = b\<close> show ?thesis by (fastforce intro: order_trans)
  qed (use Cons.IH in simp)
qed simp

end

end
