(* ===== verification/GoStrings.thy ===== *)
theory GoStrings
  imports Prelude "HOL-Library.Sublist"
begin

text \<open>
  The parts of Go's \<open>strings\<close>, \<open>strconv\<close>, \<open>fmt\<close> (the verbs \<open>%d\<close> and \<open>%s\<close>) and
  \<open>math/big\<close> (decimal parsing and printing of \<open>Int\<close>) that the source uses, as
  functions on byte strings.  Case conversion and white space are those of ASCII, which is
  the range of every hex string, header and host name they are applied to.
\<close>

section \<open>Decimal printing\<close>

definition digit_char :: "nat \<Rightarrow> char" where
  "digit_char d = char_of (48 + d)"

definition is_digit :: "char \<Rightarrow> bool" where
  "is_digit c \<longleftrightarrow> 48 \<le> (of_char c :: nat) \<and> (of_char c :: nat) \<le> 57"

definition digit_val :: "char \<Rightarrow> nat" where
  "digit_val c = of_char c - 48"

fun nat_str :: "nat \<Rightarrow> string" where
  "nat_str n = (if n < 10 then [digit_char n] else nat_str (n div 10) @ [digit_char (n mod 10)])"

declare nat_str.simps [simp del]

definition int_str :: "int \<Rightarrow> string" where
  "int_str i = (if i < 0 then CHR ''-'' # nat_str (nat (- i)) else nat_str (nat i))"

definition u64_str :: "u64 \<Rightarrow> string" where
  "u64_str x = nat_str (unat x)"

definition i64_str :: "i64 \<Rightarrow> string" where
  "i64_str x = int_str (sint x)"

definition boolToString :: "bool \<Rightarrow> string" where
  "boolToString b = (if b then ''true'' else ''false'')"

definition digits_val :: "string \<Rightarrow> nat" where
  "digits_val s = foldl (\<lambda>a c. 10 * a + digit_val c) 0 s"

lemma is_digit_digit_char [simp]: "d < 10 \<Longrightarrow> is_digit (digit_char d)"
  by (simp add: is_digit_def digit_char_def)

lemma digit_val_digit_char [simp]: "d < 10 \<Longrightarrow> digit_val (digit_char d) = d"
  by (simp add: digit_val_def digit_char_def)

lemma digit_char_simps:
  "digit_char 0 = CHR ''0''" "digit_char (Suc 0) = CHR ''1''" "digit_char 2 = CHR ''2''" "digit_char 3 = CHR ''3''" "digit_char 4 = CHR ''4''" "digit_char 5 = CHR ''5''" "digit_char 6 = CHR ''6''" "digit_char 7 = CHR ''7''" "digit_char 8 = CHR ''8''" "digit_char 9 = CHR ''9''"
  by (code_simp+)

lemmas nat_str_eval = nat_str.simps digit_char_simps

lemma nat_str_digits: "c \<in> set (nat_str n) \<Longrightarrow> is_digit c"
proof (induction n rule: nat_str.induct)
  case (1 n)
  then show ?case by (subst (asm) (2) nat_str.simps) (auto split: if_splits)
qed

lemma nat_str_nonempty [simp]: "nat_str n \<noteq> []"
  by (subst nat_str.simps) simp

lemma digits_val_append: "digits_val (xs @ [c]) = 10 * digits_val xs + digit_val c"
  by (simp add: digits_val_def)

lemma digits_val_nat_str [simp]: "digits_val (nat_str n) = n"
proof (induction n rule: nat_str.induct)
  case (1 n)
  show ?case
  proof (cases "n < 10")
    case True
    then show ?thesis by (simp add: nat_str.simps [of n] digits_val_def)
  next
    case False
    with "1.IH" show ?thesis by (simp add: nat_str.simps [of n] digits_val_append)
  qed
qed

lemma nat_str_inject [simp]: "nat_str m = nat_str n \<longleftrightarrow> m = n"
  by (metis digits_val_nat_str)

lemma is_digit_not_sign [simp]: "\<not> is_digit (CHR ''-'')" "\<not> is_digit (CHR ''+'')"
    "\<not> is_digit (CHR '','')" "\<not> is_digit (CHR ''.'')" "\<not> is_digit (CHR ''_'')" "\<not> is_digit (CHR ''/'')"
    "\<not> is_digit (CHR '' '')" "\<not> is_digit (CHR 0x09)" "\<not> is_digit (CHR 0x0A)"
  by (simp_all add: is_digit_def)

lemma nat_str_no_char: "\<not> is_digit c \<Longrightarrow> c \<notin> set (nat_str n)"
  using nat_str_digits by blast

lemma hd_nat_str_digit: "is_digit (hd (nat_str n))"
  by (rule nat_str_digits [OF hd_in_set]) simp

lemma int_str_inject [simp]: "int_str i = int_str j \<longleftrightarrow> i = j"
proof
  assume eq: "int_str i = int_str j"
  have "CHR ''-'' \<notin> set (nat_str n)" for n by (simp add: nat_str_no_char)
  then have *: "CHR ''-'' # xs \<noteq> nat_str n" for xs n
    by (metis list.set_intros(1))
  from eq show "i = j"
    by (auto simp: int_str_def * * [symmetric] split: if_splits)
qed simp

lemma int_str_no_char: "\<not> is_digit c \<Longrightarrow> c \<noteq> CHR ''-'' \<Longrightarrow> c \<notin> set (int_str i)"
  by (auto simp: int_str_def nat_str_no_char)

section \<open>Decimal parsing: \<open>big.Int.SetString(s, 10)\<close>\<close>

text \<open>
  \<open>SetString\<close> reads an optional sign and the longest run of digits; it reports success
  only when there is a digit and nothing is left.  The first component is the value the
  receiver ends up with in Go's implementation (callers of the source ignore the success
  flag in several places), the second the \<open>ok\<close> flag.
\<close>

definition nat_scan :: "string \<Rightarrow> nat \<times> string \<times> bool" where
  "nat_scan s = (let ds = takeWhile is_digit s in (digits_val ds, dropWhile is_digit s, ds \<noteq> []))"

definition scan_sign :: "string \<Rightarrow> bool \<times> string" where
  "scan_sign s = (case s of [] \<Rightarrow> (False, [])
     | c # cs \<Rightarrow> if c = CHR ''-'' then (True, cs) else if c = CHR ''+'' then (False, cs) else (False, s))"

definition big_SetString :: "string \<Rightarrow> int \<times> bool" where
  "big_SetString s =
     (let (neg, r) = scan_sign s; (m, rest, found) = nat_scan r
      in ((if neg then - int m else int m), found \<and> rest = []))"

lemma takeWhile_nat_str [simp]: "takeWhile is_digit (nat_str n) = nat_str n"
  by (simp add: takeWhile_eq_all_conv nat_str_digits)

lemma nat_scan_nat_str [simp]: "nat_scan (nat_str n) = (n, [], True)"
  by (simp add: nat_scan_def dropWhile_eq_Nil_conv nat_str_digits)

lemma scan_sign_digits: "s \<noteq> [] \<Longrightarrow> is_digit (hd s) \<Longrightarrow> scan_sign s = (False, s)"
  by (cases s) (auto simp: scan_sign_def)

lemma big_SetString_int_str [simp]: "big_SetString (int_str i) = (i, True)"
  by (auto simp: big_SetString_def int_str_def scan_sign_digits hd_nat_str_digit
      scan_sign_def [of "CHR ''-'' # _"] Let_def)

section \<open>The \<open>strings\<close> package\<close>

fun strings_Join :: "string list \<Rightarrow> string \<Rightarrow> string" where
  "strings_Join [] sep = []"
| "strings_Join [x] sep = x"
| "strings_Join (x # y # zs) sep = x @ sep @ strings_Join (y # zs) sep"

fun strings_Split :: "string \<Rightarrow> char \<Rightarrow> string list" where
  "strings_Split [] sep = [[]]"
| "strings_Split (c # cs) sep =
     (if c = sep then [] # strings_Split cs sep
      else case strings_Split cs sep of [] \<Rightarrow> [[c]] | x # xs \<Rightarrow> (c # x) # xs)"

definition strings_HasPrefix :: "string \<Rightarrow> string \<Rightarrow> bool" where
  "strings_HasPrefix s p \<longleftrightarrow> take (length p) s = p"

definition strings_HasSuffix :: "string \<Rightarrow> string \<Rightarrow> bool" where
  "strings_HasSuffix s p \<longleftrightarrow> length p \<le> length s \<and> drop (length s - length p) s = p"

definition strings_TrimSuffix :: "string \<Rightarrow> string \<Rightarrow> string" where
  "strings_TrimSuffix s p = (if strings_HasSuffix s p then take (length s - length p) s else s)"

fun strings_Contains :: "string \<Rightarrow> string \<Rightarrow> bool" where
  "strings_Contains s sub = (strings_HasPrefix s sub \<or> (case s of [] \<Rightarrow> False | _ # t \<Rightarrow> strings_Contains t sub))"

declare strings_Contains.simps [simp del]

definition lower_char :: "char \<Rightarrow> char" where
  "lower_char c = (if 65 \<le> (of_char c :: nat) \<and> (of_char c :: nat) \<le> 90 then char_of ((of_char c :: nat) + 32) else c)"

definition strings_ToLower :: "string \<Rightarrow> string" where
  "strings_ToLower s = map lower_char s"

definition strings_EqualFold :: "string \<Rightarrow> string \<Rightarrow> bool" where
  "strings_EqualFold s t \<longleftrightarrow> strings_ToLower s = strings_ToLower t"

lemma strings_HasPrefix_iff: "strings_HasPrefix s p \<longleftrightarrow> (\<exists>t. s = p @ t)"
  unfolding strings_HasPrefix_def by (metis append_eq_conv_conj append_take_drop_id)

lemma strings_HasSuffix_iff: "strings_HasSuffix s p \<longleftrightarrow> (\<exists>t. s = t @ p)"
  unfolding strings_HasSuffix_def by (auto intro: exI [of _ "take (length s - length p) s"])
    (metis append_take_drop_id)

lemma strings_Contains_iff: "strings_Contains s sub \<longleftrightarrow> (\<exists>a b. s = a @ sub @ b)"
proof (induction s)
  case Nil
  then show ?case by (simp add: strings_Contains.simps strings_HasPrefix_iff)
next
  case (Cons c s)
  show ?case
    by (subst strings_Contains.simps) (auto simp: Cons strings_HasPrefix_iff Cons_eq_append_conv)
qed

lemma strings_Split_nonempty [simp]: "strings_Split s sep \<noteq> []"
  by (induction s) (auto split: list.splits)

lemma strings_Split_no_sep: "sep \<notin> set s \<Longrightarrow> strings_Split s sep = [s]"
  by (induction s) auto

lemma strings_Split_append: "sep \<notin> set x \<Longrightarrow> strings_Split (x @ sep # s) sep = x # strings_Split s sep"
  by (induction x) auto

lemma strings_Split_Join:
  "xs \<noteq> [] \<Longrightarrow> (\<And>x. x \<in> set xs \<Longrightarrow> sep \<notin> set x) \<Longrightarrow> strings_Split (strings_Join xs [sep]) sep = xs"
proof (induction xs "[sep]" rule: strings_Join.induct)
  case (2 x)
  then show ?case by (simp add: strings_Split_no_sep)
next
  case (3 x y zs)
  then show ?case by (simp add: strings_Split_append)
qed simp

lemma strings_Join_Split: "strings_Join (strings_Split s sep) [sep] = s"
proof (induction s)
  case (Cons c s)
  show ?case
    using Cons by (cases "strings_Split s sep") (auto, (cases "tl (strings_Split s sep)", auto)+)
qed simp

lemma lower_char_idem [simp]: "lower_char (lower_char c) = lower_char c"
  by (auto simp: lower_char_def)

lemma strings_ToLower_idem [simp]: "strings_ToLower (strings_ToLower s) = strings_ToLower s"
  by (simp add: strings_ToLower_def)

lemma append_sep_inject:
  "c \<notin> set a \<Longrightarrow> c \<notin> set b \<Longrightarrow> a @ c # x = b @ c # y \<longleftrightarrow> a = b \<and> x = y"
proof (induction a arbitrary: b)
  case Nil
  then show ?case by (cases b) auto
next
  case (Cons d a)
  then show ?case by (cases b) auto
qed

end
