(* ===== verification/GoTime.thy ===== *)
theory GoTime
  imports GoStrings
begin

text \<open>
  The parts of Go's \<open>time\<close> package that the source uses.  A \<open>time.Time\<close> in UTC is a 64-bit
  count of Unix seconds and the nanoseconds within the second; \<open>Before\<close>, \<open>After\<close> and \<open>Equal\<close>
  compare the internal count (seconds since the year 1) and then the nanoseconds, which is
  the order of the \<open>linorder\<close> instance below.  A \<open>time.Duration\<close> is a signed 64-bit count
  of nanoseconds.  The civil calendar is the proleptic Gregorian one; its inverse
  \<open>days_of_civil\<close> gives the injectivity of the formatted dates.
\<close>

section \<open>Instants\<close>

datatype gotime = GoTime (unixSec: i64) (nanos: nat)

definition unixToInternal :: i64 where
  "unixToInternal = 62135596800"

definition time_key :: "gotime \<Rightarrow> int \<times> nat" where
  "time_key t = (sint (unixSec t + unixToInternal), nanos t)"

instantiation gotime :: linorder
begin

definition less_eq_gotime :: "gotime \<Rightarrow> gotime \<Rightarrow> bool" where
  "t \<le> u \<longleftrightarrow> fst (time_key t) < fst (time_key u) \<or> fst (time_key t) = fst (time_key u) \<and> nanos t \<le> nanos u"

definition less_gotime :: "gotime \<Rightarrow> gotime \<Rightarrow> bool" where
  "t < u \<longleftrightarrow> fst (time_key t) < fst (time_key u) \<or> fst (time_key t) = fst (time_key u) \<and> nanos t < nanos u"

instance
proof
  fix t u :: gotime
  assume "t \<le> u" "u \<le> t"
  then have "sint (unixSec t + unixToInternal) = sint (unixSec u + unixToInternal)" "nanos t = nanos u"
    by (auto simp: less_eq_gotime_def time_key_def)
  then show "t = u" by (cases t; cases u) (simp add: sint_inject)
qed (auto simp: less_eq_gotime_def less_gotime_def)

end

definition time_Unix :: "i64 \<Rightarrow> nat \<Rightarrow> gotime" where
  "time_Unix sec nsec = GoTime sec nsec"

definition time_Before :: "gotime \<Rightarrow> gotime \<Rightarrow> bool" where
  "time_Before t u \<longleftrightarrow> t < u"

definition time_After :: "gotime \<Rightarrow> gotime \<Rightarrow> bool" where
  "time_After t u \<longleftrightarrow> u < t"

definition time_UnixMilli :: "gotime \<Rightarrow> i64" where
  "time_UnixMilli t = unixSec t * 1000 + of_nat (nanos t div 1000000)"

text \<open>\<open>t.Add(d)\<close>: the seconds and the nanoseconds of the duration, with one carry.\<close>

type_synonym duration = i64

abbreviation dur_Second :: duration where
  "dur_Second \<equiv> 1000000000"

abbreviation dur_Millisecond :: duration where
  "dur_Millisecond \<equiv> 1000000"

definition time_Add :: "gotime \<Rightarrow> duration \<Rightarrow> gotime" where
  "time_Add t d =
     (let ds = i64_div d dur_Second;
          ns = int (nanos t) + sint (i64_mod d dur_Second)
      in if ns \<ge> 1000000000 then GoTime (unixSec t + ds + 1) (nat (ns - 1000000000))
         else if ns < 0 then GoTime (unixSec t + ds - 1) (nat (ns + 1000000000))
         else GoTime (unixSec t + ds) (nat ns))"

definition minDuration :: duration where
  "minDuration = word_of_int (- (2 ^ 63))"

definition maxDuration :: duration where
  "maxDuration = word_of_int (2 ^ 63 - 1)"

text \<open>\<open>t.Sub(u)\<close> saturates when the difference does not fit a duration.\<close>

definition time_Sub :: "gotime \<Rightarrow> gotime \<Rightarrow> duration" where
  "time_Sub t u =
     (let d = (unixSec t - unixSec u) * dur_Second + (of_nat (nanos t) - of_nat (nanos u))
      in if time_Add u d = t then d else if t < u then minDuration else maxDuration)"

text \<open>Instants whose internal second count does not wrap compare like their Unix seconds.\<close>

definition time_in_range :: "gotime \<Rightarrow> bool" where
  "time_in_range t \<longleftrightarrow> sint (unixSec t) < 2 ^ 63 - 62135596800"

lemma time_key_in_range:
  assumes "time_in_range t"
  shows "fst (time_key t) = sint (unixSec t) + 62135596800"
proof -
  have "sint unixToInternal = 62135596800" by (simp add: unixToInternal_def)
  with assms show ?thesis
    using sint_range64 [of "unixSec t"]
    by (simp add: time_key_def time_in_range_def sint_i64_add)
qed

lemma time_le_in_range:
  "time_in_range t \<Longrightarrow> time_in_range u \<Longrightarrow>
     t \<le> u \<longleftrightarrow> sint (unixSec t) < sint (unixSec u) \<or> sint (unixSec t) = sint (unixSec u) \<and> nanos t \<le> nanos u"
  by (auto simp: less_eq_gotime_def time_key_in_range)

section \<open>The civil calendar\<close>

text \<open>Days since 1970-01-01 to (year, month, day), and back; eras are the 400-year cycles.\<close>

definition civil_of_days :: "int \<Rightarrow> int \<times> int \<times> int" where
  "civil_of_days z =
     (let z = z + 719468; era = z div 146097; doe = z mod 146097;
          c = min 3 (doe div 36524); doc = doe - c * 36524;
          q = doc div 1461; doq = doc - q * 1461;
          y = min 3 (doq div 365); doy = doq - y * 365;
          mp = (5 * doy + 2) div 153;
          d = doy - (153 * mp + 2) div 5 + 1;
          m = (if mp < 10 then mp + 3 else mp - 9)
      in (era * 400 + c * 100 + q * 4 + y + (if m \<le> 2 then 1 else 0), m, d))"

definition days_of_civil :: "int \<Rightarrow> int \<Rightarrow> int \<Rightarrow> int" where
  "days_of_civil y m d =
     (let y = y - (if m \<le> 2 then 1 else 0); era = y div 400; yoe = y mod 400;
          mp = (if m > 2 then m - 3 else m + 9);
          doy = (153 * mp + 2) div 5 + d - 1;
          doe = yoe * 365 + yoe div 4 - yoe div 100 + doy
      in era * 146097 + doe - 719468)"

lemma year_split:
  fixes doe :: int
  assumes "0 \<le> doe" "doe < 146097"
  defines "c \<equiv> min 3 (doe div 36524)"
  defines "doc \<equiv> doe - c * 36524"
  defines "q \<equiv> doc div 1461"
  defines "doq \<equiv> doc - q * 1461"
  defines "y \<equiv> min 3 (doq div 365)"
  defines "doy \<equiv> doq - y * 365"
  shows "0 \<le> c \<and> c \<le> 3 \<and> 0 \<le> q \<and> q \<le> 24 \<and> 0 \<le> y \<and> y \<le> 3 \<and> 0 \<le> doy \<and> doy \<le> 365"
proof -
  have c: "0 \<le> c" "c \<le> 3" "0 \<le> doc" "doc \<le> 36524"
    unfolding c_def doc_def using assms(1,2) by linarith+
  then have q: "0 \<le> q" "q \<le> 24" "0 \<le> doq" "doq \<le> 1460"
    unfolding q_def doq_def by linarith+
  then have "0 \<le> y" "y \<le> 3" "0 \<le> doy" "doy \<le> 365"
    unfolding y_def doy_def by linarith+
  with c q show ?thesis by simp
qed

lemma month_split:
  fixes doy :: int
  assumes "0 \<le> doy" "doy \<le> 365"
  defines "mp \<equiv> (5 * doy + 2) div 153"
  defines "d \<equiv> doy - (153 * mp + 2) div 5 + 1"
  shows "0 \<le> mp \<and> mp \<le> 11 \<and> 1 \<le> d \<and> d \<le> 31"
proof -
  define k where "k = (153 * mp + 2) div 5"
  have mp: "153 * mp \<le> 5 * doy + 2" "5 * doy + 2 \<le> 153 * mp + 152"
    unfolding mp_def by linarith+
  have k: "5 * k \<le> 153 * mp + 2" "153 * mp + 2 \<le> 5 * k + 4"
    unfolding k_def by linarith+
  have "d = doy - k + 1" by (simp add: d_def k_def)
  with mp k assms(1,2) show ?thesis by linarith
qed

lemma yoe_rebuild:
  fixes c q y :: int
  assumes "0 \<le> c \<and> c \<le> 3 \<and> 0 \<le> q \<and> q \<le> 24 \<and> 0 \<le> y \<and> y \<le> 3"
  shows "(era * 400 + c * 100 + q * 4 + y) div 400 = era"
    and "(era * 400 + c * 100 + q * 4 + y) mod 400 = c * 100 + q * 4 + y"
    and "(c * 100 + q * 4 + y) div 4 = c * 25 + q"
    and "(c * 100 + q * 4 + y) div 100 = c"
proof -
  have r: "0 \<le> c * 100 + q * 4 + y" "c * 100 + q * 4 + y < 400" using assms by linarith+
  have "era * 400 + c * 100 + q * 4 + y = 400 * era + (c * 100 + q * 4 + y)" by simp
  with r show "(era * 400 + c * 100 + q * 4 + y) div 400 = era"
    and "(era * 400 + c * 100 + q * 4 + y) mod 400 = c * 100 + q * 4 + y"
    by (metis int_div_pos_eq, metis int_mod_pos_eq)
  show "(c * 100 + q * 4 + y) div 4 = c * 25 + q"
    by (rule int_div_pos_eq [of _ _ _ y]) (use assms in auto)
  show "(c * 100 + q * 4 + y) div 100 = c"
    by (rule int_div_pos_eq [of _ _ _ "q * 4 + y"]) (use assms in auto)
qed

lemma days_of_civil_of_days:
  "civil_of_days z = (y, m, d) \<Longrightarrow> days_of_civil y m d = z \<and> 1 \<le> m \<and> m \<le> 12 \<and> 1 \<le> d \<and> d \<le> 31"
proof -
  assume civ: "civil_of_days z = (y, m, d)"
  define era where "era = (z + 719468) div 146097"
  define doe where "doe = (z + 719468) mod 146097"
  define c where "c = min 3 (doe div 36524)"
  define q where "q = (doe - c * 36524) div 1461"
  define yr where "yr = min 3 ((doe - c * 36524 - q * 1461) div 365)"
  define doy where "doy = doe - c * 36524 - q * 1461 - yr * 365"
  define mp where "mp = (5 * doy + 2) div 153"
  have doe: "0 \<le> doe" "doe < 146097" by (simp_all add: doe_def)
  note split = year_split [OF doe, folded c_def, folded q_def, folded yr_def, folded doy_def]
  then have ys: "0 \<le> c \<and> c \<le> 3 \<and> 0 \<le> q \<and> q \<le> 24 \<and> 0 \<le> yr \<and> yr \<le> 3" by blast
  from split have dy: "0 \<le> doy" "doy \<le> 365" by blast+
  have ms: "0 \<le> mp" "mp \<le> 11" "1 \<le> doy - (153 * mp + 2) div 5 + 1" "doy - (153 * mp + 2) div 5 + 1 \<le> 31"
    using month_split [OF dy, folded mp_def] by blast+
  have z: "z = era * 146097 + doe - 719468" by (simp add: era_def doe_def)
  have civ_val: "civil_of_days z =
      (era * 400 + c * 100 + q * 4 + yr + (if (if mp < 10 then mp + 3 else mp - 9) \<le> 2 then 1 else 0),
       if mp < 10 then mp + 3 else mp - 9, doy - (153 * mp + 2) div 5 + 1)"
    by (simp only: civil_of_days_def Let_def era_def doe_def c_def q_def yr_def doy_def mp_def)
  have eqs: "(era * 400 + c * 100 + q * 4 + yr + (if (if mp < 10 then mp + 3 else mp - 9) \<le> 2 then 1 else 0),
       if mp < 10 then mp + 3 else mp - 9, doy - (153 * mp + 2) div 5 + 1) = (y, m, d)"
    by (rule trans [OF sym [OF civ_val] civ])
  then have m: "m = (if mp < 10 then mp + 3 else mp - 9)"
    and d: "d = doy - (153 * mp + 2) div 5 + 1" by (blast dest: sym)+
  from eqs have y: "y = era * 400 + c * 100 + q * 4 + yr + (if m \<le> 2 then 1 else 0)"
    unfolding m by blast
  have mp: "(if m > 2 then m - 3 else m + 9) = mp" using ms(1,2) m by auto
  define k where "k = (153 * mp + 2) div 5"
  have "days_of_civil y m d = era * 146097
      + ((c * 100 + q * 4 + yr) * 365 + (c * 25 + q) - c + (k + (doy - k + 1) - 1)) - 719468"
    unfolding days_of_civil_def Let_def y d mp k_def
    by (simp only: add_diff_cancel_right' yoe_rebuild [OF ys])
  also have "\<dots> = z" by (simp add: z doy_def)
  finally have "days_of_civil y m d = z" .
  moreover have "1 \<le> m" "m \<le> 12" using ms(1,2) unfolding m by auto
  ultimately show ?thesis using ms(3,4) unfolding d by simp
qed

lemma civil_of_days_inject: "civil_of_days a = civil_of_days b \<longleftrightarrow> a = b"
  by (metis days_of_civil_of_days prod_cases3)

section \<open>Formatting and parsing dates\<close>

text \<open>
  \<open>time.Format\<close> prints a number padded with zeros to a minimal width (the year to four
  digits, the other fields to two).  The layouts of the source are \<open>2006-01-02\<close>,
  \<open>2006-01-02 15\<close>, \<open>2006-01-02 15:04\<close>, \<open>2006-01-02 15:04:05\<close> and \<open>2006-01-02_15-04\<close>.
\<close>

definition day_secs :: int where
  "day_secs = 86400"

definition time_day :: "gotime \<Rightarrow> int" where
  "time_day t = sint (unixSec t) div day_secs"

definition time_day_sec :: "gotime \<Rightarrow> int" where
  "time_day_sec t = sint (unixSec t) mod day_secs"

definition append_int :: "int \<Rightarrow> nat \<Rightarrow> string" where
  "append_int x w = (let u = nat_str (nat \<bar>x\<bar>)
     in (if x < 0 then ''-'' else []) @ replicate (w - length u) (CHR ''0'') @ u)"

definition fmt_civil :: "int \<times> int \<times> int \<Rightarrow> string" where
  "fmt_civil = (\<lambda>(y, m, d). append_int y 4 @ ''-'' @ append_int m 2 @ ''-'' @ append_int d 2)"

definition fmt_DateOnly :: "gotime \<Rightarrow> string" where
  "fmt_DateOnly t = fmt_civil (civil_of_days (time_day t))"

definition fmt_hour :: "gotime \<Rightarrow> string" where
  "fmt_hour t = append_int (time_day_sec t div 3600) 2"

definition fmt_minute :: "gotime \<Rightarrow> string" where
  "fmt_minute t = append_int (time_day_sec t mod 3600 div 60) 2"

definition fmt_second :: "gotime \<Rightarrow> string" where
  "fmt_second t = append_int (time_day_sec t mod 60) 2"

definition fmt_DateHour :: "gotime \<Rightarrow> string" where
  "fmt_DateHour t = fmt_DateOnly t @ '' '' @ fmt_hour t"

definition fmt_DateHourMin :: "gotime \<Rightarrow> string" where
  "fmt_DateHourMin t = fmt_DateOnly t @ '' '' @ fmt_hour t @ '':'' @ fmt_minute t"

definition fmt_DateTime :: "gotime \<Rightarrow> string" where
  "fmt_DateTime t = fmt_DateHourMin t @ '':'' @ fmt_second t"

definition fmt_file_stamp :: "gotime \<Rightarrow> string" where
  "fmt_file_stamp t = fmt_DateOnly t @ ''_'' @ fmt_hour t @ ''-'' @ fmt_minute t"

text \<open>
  \<open>time.Parse("2006-01-02", s)\<close>: four digits, two digits and two digits at fixed places; a day
  that the calendar does not contain (month 13, February 30) is an error.
\<close>

definition all_digits :: "string \<Rightarrow> bool" where
  "all_digits s \<longleftrightarrow> (\<forall>c \<in> set s. is_digit c)"

definition valid_civil :: "int \<times> int \<times> int \<Rightarrow> bool" where
  "valid_civil = (\<lambda>(y, m, d). 1 \<le> m \<and> m \<le> 12 \<and> civil_of_days (days_of_civil y m d) = (y, m, d))"

definition midnight :: "int \<Rightarrow> gotime" where
  "midnight z = GoTime (word_of_int (z * day_secs)) 0"

definition parse_DateOnly :: "string \<Rightarrow> gotime option" where
  "parse_DateOnly s =
     (let y = take 4 s; m = take 2 (drop 5 s); d = take 2 (drop 8 s);
          civ = (int (digits_val y), int (digits_val m), int (digits_val d))
      in if length s = 10 \<and> all_digits (y @ m @ d) \<and> s ! 4 = CHR ''-'' \<and> s ! 7 = CHR ''-'' \<and> valid_civil civ
         then Some (midnight (case civ of (y, m, d) \<Rightarrow> days_of_civil y m d)) else None)"

lemma digits_val_zeros: "digits_val (replicate n (CHR ''0'') @ s) = digits_val s"
  by (induction n) (simp_all add: digits_val_def digit_val_def)

lemma length_nat_str_le: "n < 10 ^ w \<Longrightarrow> 0 < w \<Longrightarrow> length (nat_str n) \<le> w"
proof (induction w arbitrary: n)
  case (Suc w)
  show ?case
  proof (cases "n < 10")
    case True
    then show ?thesis by (simp add: nat_str.simps [of n])
  next
    case False
    with Suc.prems have "n div 10 < 10 ^ w" "0 < w"
      by (auto simp: less_mult_imp_div_less mult.commute intro: Nat.gr0I)
    with Suc.IH False show ?thesis by (simp add: nat_str.simps [of n])
  qed
qed simp

lemma append_int_nonneg:
  "0 \<le> x \<Longrightarrow> append_int x w = replicate (w - length (nat_str (nat x))) (CHR ''0'') @ nat_str (nat x)"
  by (simp add: append_int_def Let_def)

lemma append_int_digits: "0 \<le> x \<Longrightarrow> c \<in> set (append_int x w) \<Longrightarrow> is_digit c"
  by (auto simp: append_int_nonneg is_digit_def [of "CHR ''0''"] dest: nat_str_digits)

lemma digits_val_append_int: "0 \<le> x \<Longrightarrow> digits_val (append_int x w) = nat x"
  by (simp add: append_int_nonneg digits_val_zeros)

lemma length_append_int: "0 \<le> x \<Longrightarrow> x < 10 ^ w \<Longrightarrow> 0 < w \<Longrightarrow> length (append_int x w) = w"
  using length_nat_str_le [of "nat x" w] by (simp add: append_int_nonneg nat_less_iff)

lemma append_int_inject: "append_int x w = append_int y w \<longleftrightarrow> x = y"
proof
  assume eq: "append_int x w = append_int y w"
  have neg: "append_int z w = CHR ''-'' # append_int (- z) w" if "z < 0" for z
    using that by (simp add: append_int_def Let_def)
  have "CHR ''-'' \<notin> set (append_int z w)" if "0 \<le> z" for z
    using append_int_digits [OF that] is_digit_not_sign(1) by blast
  then have *: "CHR ''-'' # s \<noteq> append_int z w" if "0 \<le> z" for z s
    using that by (metis list.set_intros(1))
  consider "0 \<le> x" "0 \<le> y" | "x < 0" "y < 0" | "0 \<le> x" "y < 0" | "x < 0" "0 \<le> y" by linarith
  then show "x = y"
  proof cases
    case 1
    with eq have "nat x = nat y" by (metis digits_val_append_int)
    with 1 show ?thesis by simp
  next
    case 2
    with eq have "append_int (- x) w = append_int (- y) w" by (simp add: neg)
    with 2 have "nat (- x) = nat (- y)" by (metis digits_val_append_int neg_0_le_iff_le less_imp_le)
    with 2 show ?thesis by simp
  qed (use eq * neg in metis)+
qed simp

lemma fmt_civil_inject:
  assumes "civil_of_days a = (y, m, d)" "civil_of_days b = (y', m', d')"
    and "fmt_civil (y, m, d) = fmt_civil (y', m', d')"
  shows "a = b"
proof -
  have r: "0 \<le> m" "m < 10 ^ 2" "0 \<le> d" "d < 10 ^ 2" "0 \<le> m'" "m' < 10 ^ 2" "0 \<le> d'" "d' < 10 ^ 2"
    using days_of_civil_of_days [OF assms(1)] days_of_civil_of_days [OF assms(2)] by simp_all
  have len: "length (append_int m 2) = 2" "length (append_int d 2) = 2"
    "length (append_int m' 2) = 2" "length (append_int d' 2) = 2"
    using r by (simp_all add: length_append_int)
  from assms(3) len have "append_int y 4 = append_int y' 4"
    "append_int m 2 = append_int m' 2" "append_int d 2 = append_int d' 2"
    by (simp_all add: fmt_civil_def)
  then have "(y, m, d) = (y', m', d')" by (simp add: append_int_inject)
  with assms(1,2) show ?thesis by (metis civil_of_days_inject)
qed

lemma fmt_DateOnly_inject: "fmt_DateOnly t = fmt_DateOnly u \<longleftrightarrow> time_day t = time_day u"
  unfolding fmt_DateOnly_def by (metis fmt_civil_inject prod_cases3)


lemma append_int_chars: "c \<in> set (append_int x w) \<Longrightarrow> is_digit c \<or> c = CHR ''-''"
proof (cases "0 \<le> x")
  case False
  assume "c \<in> set (append_int x w)"
  moreover have "append_int x w = CHR ''-'' # append_int (- x) w"
    using False by (simp add: append_int_def Let_def)
  ultimately show ?thesis using append_int_digits [of "- x"] False by auto
qed (auto dest: append_int_digits)

lemma fmt_DateOnly_chars: "c \<in> set (fmt_DateOnly t) \<Longrightarrow> is_digit c \<or> c = CHR ''-''"
  by (cases "civil_of_days (time_day t)") (auto simp: fmt_DateOnly_def fmt_civil_def dest: append_int_chars)

lemma time_day_sec_range: "0 \<le> time_day_sec t" "time_day_sec t < 86400"
  by (simp_all add: time_day_sec_def day_secs_def)

lemma div_split:
  assumes "0 < (b :: int)"
  shows "x div b = a * (x div (a * b)) + x mod (a * b) div b"
proof -
  have "x = b * (a * (x div (a * b))) + x mod (a * b)" by (simp add: ac_simps flip: mult.assoc)
  then have "x div b = (b * (a * (x div (a * b))) + x mod (a * b)) div b" by (rule arg_cong)
  also have "\<dots> = a * (x div (a * b)) + x mod (a * b) div b" using assms by simp
  finally show ?thesis .
qed

text \<open>A date, an hour and a minute set off by a character that is no digit and no dash.\<close>

lemma fmt_hour_minute_inject:
  assumes "fmt_hour t @ sep # fmt_minute t = fmt_hour u @ sep # fmt_minute u" "\<not> is_digit sep"
  shows "time_day_sec t div 60 = time_day_sec u div 60"
proof -
  have hour: "c \<in> set (fmt_hour v) \<Longrightarrow> is_digit c" for v c
    using time_day_sec_range [of v] append_int_digits [of "time_day_sec v div 3600" c 2]
    by (simp add: fmt_hour_def)
  then have "sep \<notin> set (fmt_hour t)" "sep \<notin> set (fmt_hour u)" using assms(2) by blast+
  with assms(1) have "fmt_hour t = fmt_hour u" "fmt_minute t = fmt_minute u"
    by (simp_all add: append_sep_inject)
  then have "time_day_sec t div 3600 = time_day_sec u div 3600"
    "time_day_sec t mod 3600 div 60 = time_day_sec u mod 3600 div 60"
    by (simp_all add: fmt_hour_def fmt_minute_def append_int_inject)
  then show ?thesis
    using div_split [of 60 "time_day_sec t" 60] div_split [of 60 "time_day_sec u" 60] by simp
qed

lemma fmt_file_stamp_inject:
  assumes "fmt_file_stamp t = fmt_file_stamp u"
  shows "sint (unixSec t) div 60 = sint (unixSec u) div 60"
proof -
  have "CHR ''_'' \<notin> set (fmt_DateOnly v)" for v
    using fmt_DateOnly_chars [of "CHR ''_''" v] by (auto simp: is_digit_def)
  with assms have "fmt_DateOnly t = fmt_DateOnly u"
    "fmt_hour t @ CHR ''-'' # fmt_minute t = fmt_hour u @ CHR ''-'' # fmt_minute u"
    by (simp_all add: fmt_file_stamp_def append_sep_inject)
  then have "time_day t = time_day u" "time_day_sec t div 60 = time_day_sec u div 60"
    using fmt_hour_minute_inject [of t "CHR ''-''" u] by (simp_all add: fmt_DateOnly_inject)
  then show ?thesis
    using div_split [of 60 "sint (unixSec t)" 1440] div_split [of 60 "sint (unixSec u)" 1440]
    by (simp add: time_day_def time_day_sec_def day_secs_def)
qed

lemma fmt_file_stamp_chars: "c \<in> set (fmt_file_stamp t) \<Longrightarrow> is_digit c \<or> c = CHR ''-'' \<or> c = CHR ''_''"
  unfolding fmt_file_stamp_def fmt_hour_def fmt_minute_def
  by (auto dest: append_int_chars fmt_DateOnly_chars)

text \<open>A printed date parses back to the start of its day, as long as the year has four digits.\<close>

definition four_digit_year :: "gotime \<Rightarrow> bool" where
  "four_digit_year t \<longleftrightarrow> (case civil_of_days (time_day t) of (y, m, d) \<Rightarrow> 0 \<le> y \<and> y \<le> 9999)"

lemma parse_fmt_DateOnly:
  assumes "four_digit_year t"
  shows "parse_DateOnly (fmt_DateOnly t) = Some (midnight (time_day t))"
proof -
  obtain y m d where civ: "civil_of_days (time_day t) = (y, m, d)" by (metis prod_cases3)
  with assms have y: "0 \<le> y" "y \<le> 9999" by (simp_all add: four_digit_year_def)
  have days: "days_of_civil y m d = time_day t" and md: "1 \<le> m" "m \<le> 12" "1 \<le> d" "d \<le> 31"
    using days_of_civil_of_days [OF civ] by simp_all
  have mpos: "0 \<le> m" and dpos: "0 \<le> d" using md by simp_all
  define Y M D where "Y = append_int y 4" and "M = append_int m 2" and "D = append_int d 2"
  have len: "length Y = 4" "length M = 2" "length D = 2"
    using y md by (simp_all add: Y_def M_def D_def length_append_int)
  have val: "digits_val Y = nat y" "digits_val M = nat m" "digits_val D = nat d"
    using y md by (simp_all add: Y_def M_def D_def digits_val_append_int)
  have digits: "all_digits (Y @ M @ D)"
    using y(1) mpos dpos append_int_digits by (auto simp: Y_def M_def D_def all_digits_def)
  have fmt: "fmt_DateOnly t = Y @ ''-'' @ M @ ''-'' @ D"
    by (simp add: fmt_DateOnly_def fmt_civil_def civ Y_def M_def D_def)
  have parts: "take 4 (fmt_DateOnly t) = Y" "take 2 (drop 5 (fmt_DateOnly t)) = M" "take 2 (drop 8 (fmt_DateOnly t)) = D"
      "length (fmt_DateOnly t) = 10" "fmt_DateOnly t ! 4 = CHR ''-''" "fmt_DateOnly t ! 7 = CHR ''-''"
    using len by (simp_all add: fmt nth_append)
  have "valid_civil (y, m, d)" using civ days md by (simp add: valid_civil_def)
  then show ?thesis
    unfolding parse_DateOnly_def Let_def parts val using digits y md by (simp add: days)
qed

section \<open>Durations between instants\<close>

text \<open>Nanoseconds since the epoch, and the instants whose arithmetic does not wrap.\<close>

definition time_ns :: "gotime \<Rightarrow> int" where
  "time_ns t = sint (unixSec t) * 1000000000 + int (nanos t)"

definition time_sane :: "gotime \<Rightarrow> bool" where
  "time_sane t \<longleftrightarrow> nanos t < 1000000000 \<and> - (2 ^ 62) < sint (unixSec t) \<and> sint (unixSec t) < 2 ^ 62"

lemma time_ns_inject:
  assumes "nanos t < 1000000000" "nanos u < 1000000000"
  shows "time_ns t = time_ns u \<longleftrightarrow> t = u"
proof
  assume eq: "time_ns t = time_ns u"
  with assms have "sint (unixSec t) = sint (unixSec u)" unfolding time_ns_def by linarith
  moreover from this eq have "nanos t = nanos u" by (simp add: time_ns_def)
  ultimately have "sint (unixSec t) = sint (unixSec u)" "nanos t = nanos u" .
  then show "t = u" by (cases t; cases u) (simp add: sint_inject)
qed simp

lemma sdiv_rem_bounds:
  assumes "0 < (b :: int)"
  shows "\<bar>a - a sdiv b * b\<bar> < b"
proof (cases "0 \<le> a")
  case True
  then show ?thesis
    using assms pos_mod_sign [of b a] pos_mod_bound [of b a] by (simp add: sdiv_pos flip: minus_div_mult_eq_mod)
next
  case False
  have "a - a sdiv b * b = - (- a - - a div b * b)" using assms False by (simp add: sdiv_pos)
  also have "- a - - a div b * b = - a mod b" by (rule minus_div_mult_eq_mod)
  finally show ?thesis using pos_mod_sign [OF assms, of "- a"] pos_mod_bound [OF assms, of "- a"] by simp
qed

lemma time_Add_ns:
  assumes "time_sane t"
  shows "time_ns (time_Add t d) = time_ns t + sint d" and "nanos (time_Add t d) < 1000000000"
proof -
  let ?q = "i64_div d dur_Second" and ?r = "i64_mod d dur_Second"
  have q: "sint ?q = sint d sdiv 1000000000" by (simp add: sint_i64_div)
  have b: "\<bar>sint d - sint d sdiv 1000000000 * 1000000000\<bar> < 1000000000" by (rule sdiv_rem_bounds) simp
  then have r: "sint ?r = sint d - sint d sdiv 1000000000 * 1000000000"
    unfolding i64_mod_def by (subst sint_word_of_int_small) simp_all
  have n: "nanos t < 1000000000" and s: "\<bar>sint (unixSec t)\<bar> < 2 ^ 62" using assms by (auto simp: time_sane_def)
  have "\<bar>sint d\<bar> \<le> 2 ^ 63" using sint_range64 [of d] by simp
  with b have qb: "\<bar>sint ?q\<bar> < 2 ^ 40" unfolding q by simp
  have a: "sint (unixSec t + ?q) = sint (unixSec t) + sint ?q" using s qb by (intro sint_i64_add) simp_all
  have a1: "sint (unixSec t + ?q + 1) = sint (unixSec t) + sint ?q + 1"
    using s qb by (subst sint_i64_add) (simp_all add: a)
  have a2: "sint (unixSec t + ?q - 1) = sint (unixSec t) + sint ?q - 1"
    using s qb by (subst sint_i64_sub) (simp_all add: a)
  show "time_ns (time_Add t d) = time_ns t + sint d" "nanos (time_Add t d) < 1000000000"
    using b n r by (auto simp: time_Add_def Let_def time_ns_def a a1 a2 q nat_less_iff)
qed

lemma time_Sub_ns:
  assumes "time_sane t" "time_sane u" "\<bar>time_ns t - time_ns u\<bar> < 2 ^ 63"
  shows "sint (time_Sub t u) = time_ns t - time_ns u"
proof -
  let ?d = "(unixSec t - unixSec u) * dur_Second + (of_nat (nanos t) - of_nat (nanos u)) :: i64"
  have "?d = word_of_int (time_ns t - time_ns u)"
    by (simp add: time_ns_def algebra_simps)
  then have d: "sint ?d = time_ns t - time_ns u"
    using assms(3) by (simp only:) (rule sint_word_of_int_small; linarith)
  have "time_ns (time_Add u ?d) = time_ns t" using time_Add_ns(1) [OF assms(2)] d by simp
  then have "time_Add u ?d = t"
    using time_ns_inject time_Add_ns(2) [OF assms(2)] assms(1) by (auto simp: time_sane_def)
  with d show ?thesis by (simp add: time_Sub_def Let_def)
qed

end
