(* ===== verification/CommonUtils.thy ===== *)
theory CommonUtils
  imports GoTime
begin

text \<open>
  \<open>common/utils.go\<close>: the slot clock, byte reversal, date helpers and small string helpers.
  The beacon chain's genesis time is an environment variable of the program (\<open>vars.Genesis\<close>,
  default \<open>GenesisDefault\<close>) and is an argument of the clock functions.

  The contract of a slot clock is the locale \<open>slot_clock\<close>: on the instants and slots in
  range, \<open>to_time\<close> and \<open>to_slot\<close> are a Galois connection.  It has two providers, the clock of
  \<open>common/utils.go\<close> (here) and the one of \<open>database/util.go\<close> (theory \<open>DbUtil\<close>).
\<close>

section \<open>Slots and time\<close>

definition GenesisDefault :: i64 where
  "GenesisDefault = 1606824023"

definition TimeToSlot :: "i64 \<Rightarrow> gotime \<Rightarrow> u64" where
  "TimeToSlot genesis t = i64_div (unixSec t - genesis) 12"

definition SlotToTime :: "i64 \<Rightarrow> u64 \<Rightarrow> gotime" where
  "SlotToTime genesis slot = (let timestamp = slot * 12 + genesis in time_Unix timestamp 0)"

locale slot_clock =
  fixes to_slot :: "gotime \<Rightarrow> u64" and to_time :: "u64 \<Rightarrow> gotime"
    and ok_slot :: "u64 \<Rightarrow> bool" and ok_time :: "gotime \<Rightarrow> bool"
  assumes galois: "ok_slot s \<Longrightarrow> ok_time t \<Longrightarrow> to_time s \<le> t \<longleftrightarrow> s \<le> to_slot t"
    and ok_time_of_slot: "ok_slot s \<Longrightarrow> ok_time (to_time s)"
    and ok_slot_of_time: "ok_time t \<Longrightarrow> ok_slot (to_slot t)"
    and to_time_strict: "ok_slot s \<Longrightarrow> ok_slot s' \<Longrightarrow> s < s' \<Longrightarrow> to_time s < to_time s'"
begin

lemma slot_floor: "ok_time t \<Longrightarrow> to_time (to_slot t) \<le> t"
  using galois [OF ok_slot_of_time] by blast

lemma slot_of_slot_time: "ok_slot s \<Longrightarrow> to_slot (to_time s) = s"
proof -
  assume s: "ok_slot s"
  then have t: "ok_time (to_time s)" by (rule ok_time_of_slot)
  have "s \<le> to_slot (to_time s)" using galois [OF s t] by simp
  moreover have "\<not> s < to_slot (to_time s)"
    using to_time_strict [OF s ok_slot_of_time [OF t]] slot_floor [OF t] by auto
  ultimately show ?thesis by simp
qed

lemma to_slot_mono: "ok_time t \<Longrightarrow> ok_time u \<Longrightarrow> t \<le> u \<Longrightarrow> to_slot t \<le> to_slot u"
  using galois [OF ok_slot_of_time] slot_floor order_trans by blast

lemma slot_ceiling: "ok_time t \<Longrightarrow> ok_slot s \<Longrightarrow> to_slot t < s \<Longrightarrow> t < to_time s"
  using galois by (metis not_le)

text \<open>The slots that start in a closed interval of time are an interval of slots.\<close>

lemma slots_in_interval:
  assumes "ok_slot s" "ok_time t" "ok_time u"
  shows "t \<le> to_time s \<and> to_time s \<le> u \<longleftrightarrow>
    (if to_time (to_slot t) < t then to_slot t < s else to_slot t \<le> s) \<and> s \<le> to_slot u"
proof -
  have "t \<le> to_time s \<longleftrightarrow> (if to_time (to_slot t) < t then to_slot t < s else to_slot t \<le> s)"
  proof (cases "to_time (to_slot t) < t")
    case True
    have "to_slot t < s" if "t \<le> to_time s"
    proof -
      have "to_slot t \<le> s"
        using to_slot_mono [OF assms(2) ok_time_of_slot [OF assms(1)] that] slot_of_slot_time [OF assms(1)] by simp
      moreover have "to_slot t \<noteq> s" using True that by auto
      ultimately show ?thesis by simp
    qed
    with True slot_ceiling [OF assms(2,1)] show ?thesis by auto
  next
    case False
    with slot_floor [OF assms(2)] have eq: "to_time (to_slot t) = t" by simp
    have "to_time (to_slot t) \<le> to_time s \<longleftrightarrow> to_slot t \<le> s"
      using galois [OF ok_slot_of_time [OF assms(2)] ok_time_of_slot [OF assms(1)]]
        slot_of_slot_time [OF assms(1)] by simp
    with eq False show ?thesis by simp
  qed
  with galois [OF assms(1,3)] show ?thesis by blast
qed

end

text \<open>The range in which the arithmetic of both clocks neither wraps nor goes before genesis.\<close>

definition slot_in_range :: "i64 \<Rightarrow> u64 \<Rightarrow> bool" where
  "slot_in_range g s \<longleftrightarrow> 0 \<le> sint g \<and> uint s * 12 + sint g < 2 ^ 62"

definition time_after_genesis :: "i64 \<Rightarrow> gotime \<Rightarrow> bool" where
  "time_after_genesis g t \<longleftrightarrow> 0 \<le> sint g \<and> sint g \<le> sint (unixSec t) \<and> sint (unixSec t) < 2 ^ 62"

lemma sint_SlotToTime:
  assumes "slot_in_range g s"
  shows "sint (unixSec (SlotToTime g s)) = uint s * 12 + sint g" and "nanos (SlotToTime g s) = 0"
proof -
  have r: "uint s * 12 + sint g < 2 ^ 62" "0 \<le> sint g" using assms by (auto simp: slot_in_range_def)
  moreover note uint_ge_0 [of s]
  ultimately have s: "sint s = uint s" by (intro sint_eq_uint_small) simp
  have "- (2 ^ 63) \<le> uint s * 12" by (rule order_trans [of _ 0]) simp_all
  with r have "sint (s * 12) = sint s * 12" by (subst sint_i64_mult) (simp_all add: s)
  moreover from r this have "sint (s * 12 + g) = sint (s * 12) + sint g"
    by (intro sint_i64_add) (simp_all add: s order_trans [of _ 0])
  ultimately show "sint (unixSec (SlotToTime g s)) = uint s * 12 + sint g"
    by (simp add: SlotToTime_def time_Unix_def s)
  show "nanos (SlotToTime g s) = 0" by (simp add: SlotToTime_def time_Unix_def)
qed

lemma uint_TimeToSlot:
  assumes "time_after_genesis g t"
  shows "uint (TimeToSlot g t) = (sint (unixSec t) - sint g) div 12"
proof -
  have r: "0 \<le> sint g" "sint g \<le> sint (unixSec t)" "sint (unixSec t) < 2 ^ 62"
    using assms by (auto simp: time_after_genesis_def)
  then have d: "sint (unixSec t - g) = sint (unixSec t) - sint g" by (simp add: sint_i64_sub)
  have "sint (TimeToSlot g t) = (sint (unixSec t) - sint g) div 12"
    using r by (simp add: TimeToSlot_def sint_i64_div d sdiv_pos)
  moreover have "0 \<le> (sint (unixSec t) - sint g) div 12" using r by simp
  ultimately show ?thesis by (metis sint_nonneg_uint)
qed

lemma clock_galois:
  assumes "slot_in_range g s" "time_after_genesis g t" and "uint n = (sint (unixSec t) - sint g) div 12"
  shows "SlotToTime g s \<le> t \<longleftrightarrow> s \<le> n"
proof -
  have "time_in_range (SlotToTime g s)" "time_in_range t"
    using assms(1,2) sint_SlotToTime [OF assms(1)]
    by (auto simp: time_in_range_def slot_in_range_def time_after_genesis_def)
  then have "SlotToTime g s \<le> t \<longleftrightarrow> uint s * 12 + sint g \<le> sint (unixSec t)"
    using sint_SlotToTime [OF assms(1)] by (auto simp: time_le_in_range)
  also have "\<dots> \<longleftrightarrow> uint s \<le> uint n" unfolding assms(3) by linarith
  finally show ?thesis by (simp add: word_le_def)
qed

lemma SlotToTime_strict:
  assumes "slot_in_range g s" "slot_in_range g s'" "s < s'"
  shows "SlotToTime g s < SlotToTime g s'"
proof -
  have "time_in_range (SlotToTime g s)" "time_in_range (SlotToTime g s')"
    using assms(1,2) sint_SlotToTime by (auto simp: time_in_range_def slot_in_range_def)
  moreover have "uint s < uint s'" using assms(3) by (simp add: word_less_def)
  ultimately show ?thesis
    using sint_SlotToTime assms(1,2) by (simp add: not_le [symmetric] time_le_in_range)
qed

interpretation common_clock: slot_clock "TimeToSlot g" "SlotToTime g" "slot_in_range g" "time_after_genesis g" for g
proof unfold_locales
  fix s t assume "slot_in_range g s" "time_after_genesis g t"
  then show "SlotToTime g s \<le> t \<longleftrightarrow> s \<le> TimeToSlot g t"
    using clock_galois uint_TimeToSlot by blast
next
  fix s assume "slot_in_range g s"
  then show "time_after_genesis g (SlotToTime g s)"
    using sint_SlotToTime by (auto simp: time_after_genesis_def slot_in_range_def)
next
  fix t assume t: "time_after_genesis g t"
  then show "slot_in_range g (TimeToSlot g t)"
    unfolding slot_in_range_def uint_TimeToSlot [OF t] by (auto simp: time_after_genesis_def)
qed (rule SlotToTime_strict)

text \<open>\<open>TimeToSlot\<close> inverts \<open>SlotToTime\<close> on every slot whose start fits the range, for every
  genesis time; this is the round trip that \<open>TestTimeToSlot\<close> checks at one slot.\<close>

theorem TimeToSlot_SlotToTime:
  "slot_in_range g s \<Longrightarrow> TimeToSlot g (SlotToTime g s) = s"
  by (rule common_clock.slot_of_slot_time)

theorem TimeToSlot_SlotToTime_witness:
  "TimeToSlot GenesisDefault (SlotToTime GenesisDefault 6591598) = 6591598"
  by (rule TimeToSlot_SlotToTime) (simp add: slot_in_range_def GenesisDefault_def)

text \<open>\<open>TimeToSlot t\<close> is the slot in progress at \<open>t\<close>: it has started and the next one has not.\<close>

theorem TimeToSlot_in_progress:
  assumes "time_after_genesis g t" and "slot_in_range g (TimeToSlot g t + 1)"
  shows "SlotToTime g (TimeToSlot g t) \<le> t \<and> t < SlotToTime g (TimeToSlot g t + 1)"
proof -
  have "slot_in_range g (TimeToSlot g t)" by (rule common_clock.ok_slot_of_time [OF assms(1)])
  then have "uint (TimeToSlot g t) + uint (1 :: u64) < 2 ^ LENGTH(64)"
    by (simp add: slot_in_range_def)
  then have "uint (TimeToSlot g t + 1) = uint (TimeToSlot g t) + 1" by (subst (asm) uint_add_lem) simp
  then have "TimeToSlot g t < TimeToSlot g t + 1" by (simp add: word_less_def)
  with common_clock.slot_floor [OF assms(1)] common_clock.slot_ceiling [OF assms] show ?thesis by blast
qed

theorem TimeToSlot_in_progress_witness:
  "GoTime 1685923205 7 < SlotToTime GenesisDefault (TimeToSlot GenesisDefault (GoTime 1685923205 7) + 1)"
proof -
  have "TimeToSlot GenesisDefault (GoTime 1685923205 7) = 6591598" by code_simp
  then show ?thesis
    using TimeToSlot_in_progress [of GenesisDefault "GoTime 1685923205 7"]
    by (simp add: time_after_genesis_def slot_in_range_def GenesisDefault_def)
qed

section \<open>Dates\<close>

definition BeginningOfDay :: "gotime \<Rightarrow> gotime" where
  "BeginningOfDay t = midnight (time_day t)"

text \<open>
  The layout \<open>2006-01-02 15:04\<close>: a date, a blank, one or two digits of an hour below 24, a
  colon and two digits of a minute below 60.
\<close>

definition parse_DateHourMin :: "string \<Rightarrow> gotime option" where
  "parse_DateHourMin s =
     (case parse_DateOnly (take 10 s) of None \<Rightarrow> None
      | Some day \<Rightarrow>
          let r = drop 11 s; h = takeWhile is_digit (take 2 r); rest = drop (length h) r;
              m = drop 1 rest
          in if take 1 (drop 10 s) = '' '' \<and> h \<noteq> [] \<and> digits_val h < 24 \<and> take 1 rest = '':''
                \<and> length m = 2 \<and> all_digits m \<and> digits_val m < 60
             then Some (GoTime (unixSec day + of_nat (digits_val h * 3600 + digits_val m * 60)) 0) else None)"

text \<open>\<open>None\<close> is the panic of \<open>Check\<close> when neither layout parses.\<close>

definition MustParseDateTimeStr :: "string \<Rightarrow> gotime option" where
  "MustParseDateTimeStr s =
     (case parse_DateOnly s of Some t \<Rightarrow> Some t | None \<Rightarrow> parse_DateHourMin s)"

section \<open>Bytes and strings\<close>

definition swap_bytes :: "nat \<Rightarrow> nat \<Rightarrow> 'a list \<Rightarrow> 'a list" where
  "swap_bytes i opp dst = dst[i := dst ! opp, opp := dst ! i]"

text \<open>The loop runs \<open>i\<close> from \<open>len(dst)/2 - 1\<close> down to 0; the counter of the model is \<open>i + 1\<close>.\<close>

fun reverse_loop :: "nat \<Rightarrow> 'a list \<Rightarrow> 'a list" where
  "reverse_loop 0 dst = dst"
| "reverse_loop (Suc i) dst = reverse_loop i (swap_bytes i (length dst - 1 - i) dst)"

definition ReverseBytes :: "'a list \<Rightarrow> 'a list" where
  "ReverseBytes src = reverse_loop (length src div 2) src"

fun StringSliceContains :: "string list \<Rightarrow> string \<Rightarrow> bool" where
  "StringSliceContains [] needle = False"
| "StringSliceContains (entry # rest) needle = (if entry = needle then True else StringSliceContains rest needle)"

definition StrToBigInt :: "string \<Rightarrow> int" where
  "StrToBigInt s = fst (big_SetString s)"

text \<open>\<open>strings.Replace(s, old, new, 1)\<close> for a non-empty \<open>old\<close>, and \<open>HumanBytes\<close> over the library's
  \<open>humanize.IBytes\<close>, a parameter.\<close>

fun replace_first :: "string \<Rightarrow> string \<Rightarrow> string \<Rightarrow> string" where
  "replace_first s old new =
     (if strings_HasPrefix s old then new @ drop (length old) s
      else case s of [] \<Rightarrow> [] | c # cs \<Rightarrow> c # replace_first cs old new)"

declare replace_first.simps [simp del]

definition HumanBytes :: "(u64 \<Rightarrow> string) \<Rightarrow> u64 \<Rightarrow> string" where
  "HumanBytes IBytes n =
     (let s = IBytes n; s = replace_first s ''KiB'' ''KB''; s = replace_first s ''MiB'' ''MB'';
          s = replace_first s ''GiB'' ''GB'' in s)"

lemma length_reverse_loop [simp]: "length (reverse_loop n xs) = length xs"
  by (induction n arbitrary: xs) (simp_all add: swap_bytes_def)

lemma swap_bytes_ends:
  "length a = i \<Longrightarrow> opp = i + Suc (length m) \<Longrightarrow> swap_bytes i opp (a @ x # m @ y # b) = a @ y # m @ x # b"
  by (simp add: swap_bytes_def list_update_append nth_append)

lemma reverse_loop_ends:
  "length a = n \<Longrightarrow> length b = n \<Longrightarrow> reverse_loop n (a @ m @ b) = rev b @ m @ rev a"
proof (induction n arbitrary: a m b)
  case (Suc n)
  then obtain a' x y b' where ab: "a = a' @ [x]" "b = y # b'" and len: "length a' = n" "length b' = n"
    by (metis length_Suc_conv length_Suc_conv_rev)
  have "reverse_loop (Suc n) (a @ m @ b) = reverse_loop n (a' @ (y # m @ [x]) @ b')"
    using len by (simp add: ab swap_bytes_ends)
  also have "\<dots> = rev b' @ (y # m @ [x]) @ rev a'" using len by (rule Suc.IH)
  finally show ?case by (simp add: ab)
qed simp

lemma split_halves: "\<exists>a m b. xs = a @ m @ b \<and> length a = length xs div 2 \<and> length b = length xs div 2"
proof -
  let ?n = "length xs div 2"
  have "xs = take ?n xs @ take (length xs - 2 * ?n) (drop ?n xs) @ drop (length xs - 2 * ?n) (drop ?n xs)"
    by (simp only: append_take_drop_id)
  moreover have "length (take ?n xs) = ?n" "length (drop (length xs - 2 * ?n) (drop ?n xs)) = ?n" by simp_all
  ultimately show ?thesis by blast
qed

text \<open>The in-place swapping loop of \<open>ReverseBytes\<close> reverses its argument.\<close>

theorem ReverseBytes_rev: "ReverseBytes xs = rev xs"
proof -
  obtain a m b where xs: "xs = a @ m @ b" and len: "length a = length xs div 2" "length b = length xs div 2"
    using split_halves by blast
  have "length xs = length a + length m + length b" by (subst xs) simp
  with len have "length m \<le> 1" by linarith
  then have "rev m = m" by (cases m) simp_all
  moreover have "ReverseBytes xs = rev b @ m @ rev a"
    using reverse_loop_ends [OF len, of m] unfolding ReverseBytes_def xs [symmetric] .
  moreover have "rev xs = rev b @ rev m @ rev a" by (subst xs) simp
  ultimately show ?thesis by simp
qed

lemma StringSliceContains_iff: "StringSliceContains xs s \<longleftrightarrow> s \<in> set xs"
  by (induction xs) auto

end
