(* ===== verification/BidTypes.thy ===== *)
theory BidTypes
  imports CommonUtils
begin

text \<open>
  \<open>services/bidcollect/types\<close>: the common bid that every source of bids is converted to, its
  deduplication key and its CSV line.  The genesis time (an environment variable) is an
  argument of the CSV functions, which print the offset of the bid into its slot.
\<close>

section \<open>Constants\<close>

definition SourceTypeGetHeader :: int where "SourceTypeGetHeader = 0"
definition SourceTypeDataAPI :: int where "SourceTypeDataAPI = 1"
definition SourceTypeUltrasoundStream :: int where "SourceTypeUltrasoundStream = 2"

definition InitialBackoffSec :: int where "InitialBackoffSec = 5"
definition MaxBackoffSec :: int where "MaxBackoffSec = 120"
definition BucketMinutes :: i64 where "BucketMinutes = 60"
definition BidCollectorInputChannelSize :: nat where "BidCollectorInputChannelSize = 1000"

definition CommonBidCSVFields :: "string list" where
  "CommonBidCSVFields =
    [''source_type'', ''received_at_ms'', ''timestamp_ms'', ''slot'', ''slot_t_ms'', ''value'',
     ''block_hash'', ''parent_hash'', ''builder_pubkey'', ''block_number'', ''block_fee_recipient'',
     ''relay'', ''proposer_pubkey'', ''proposer_fee_recipient'', ''optimistic_submission'']"

section \<open>The common bid\<close>

record CommonBid =
  SourceType :: int
  ReceivedAtMs :: i64
  Slot :: u64
  BlockNumber :: u64
  BlockHash :: string
  ParentHash :: string
  BuilderPubkey :: string
  Value :: string
  BlockFeeRecipient :: string
  Relay :: string
  TimestampMs :: i64
  ProposerPubkey :: string
  ProposerFeeRecipient :: string
  OptimisticSubmission :: bool

definition UniqueKey :: "CommonBid \<Rightarrow> string" where
  "UniqueKey bid = u64_str (Slot bid) @ ''-'' @ BlockHash bid @ ''-'' @ ParentHash bid @ ''-'' @
     BuilderPubkey bid @ ''-'' @ Value bid"

definition ValueAsBigInt :: "CommonBid \<Rightarrow> int" where
  "ValueAsBigInt bid = fst (big_SetString (Value bid))"

definition ToCSVFields :: "i64 \<Rightarrow> CommonBid \<Rightarrow> string list" where
  "ToCSVFields genesis bid =
     (let bidTimestampMsString = (if i64_less 0 (TimestampMs bid) then i64_str (TimestampMs bid) else []);
          bidIntoSlotTmsString =
            (if i64_less 0 (TimestampMs bid)
             then i64_str (TimestampMs bid - time_UnixMilli (SlotToTime genesis (Slot bid))) else []);
          bidIsOptimisticString =
            (if SourceType bid = SourceTypeDataAPI then boolToString (OptimisticSubmission bid) else [])
      in [int_str (SourceType bid), i64_str (ReceivedAtMs bid),
          bidTimestampMsString, u64_str (Slot bid), bidIntoSlotTmsString, Value bid,
          BlockHash bid, ParentHash bid, BuilderPubkey bid, u64_str (BlockNumber bid),
          BlockFeeRecipient bid, Relay bid, ProposerPubkey bid, ProposerFeeRecipient bid,
          bidIsOptimisticString])"

definition ToCSVLine :: "i64 \<Rightarrow> CommonBid \<Rightarrow> string \<Rightarrow> string" where
  "ToCSVLine genesis bid separator = strings_Join (ToCSVFields genesis bid) separator"

section \<open>The deduplication key\<close>

text \<open>The fields before the value hold no dash, as hex strings do.\<close>

definition key_clean :: "CommonBid \<Rightarrow> bool" where
  "key_clean bid \<longleftrightarrow> CHR ''-'' \<notin> set (BlockHash bid) \<and> CHR ''-'' \<notin> set (ParentHash bid) \<and>
     CHR ''-'' \<notin> set (BuilderPubkey bid)"

lemma u64_str_inject [simp]: "u64_str a = u64_str b \<longleftrightarrow> a = b"
  by (simp add: u64_str_def word_unat_eq_iff)

lemma u64_str_no_char: "\<not> is_digit c \<Longrightarrow> c \<notin> set (u64_str a)"
  by (simp add: u64_str_def nat_str_no_char)

lemma i64_str_no_char: "\<not> is_digit c \<Longrightarrow> c \<noteq> CHR ''-'' \<Longrightarrow> c \<notin> set (i64_str a)"
  by (simp add: i64_str_def int_str_no_char)

text \<open>Deduplication by \<open>UniqueKey\<close> never confuses two different bids: when the hash and pubkey
  fields hold no dash, equal keys mean the same slot, block hash, parent hash, builder and value.\<close>

theorem UniqueKey_inject:
  assumes "key_clean a" and "key_clean b"
  shows "UniqueKey a = UniqueKey b \<longleftrightarrow>
    Slot a = Slot b \<and> BlockHash a = BlockHash b \<and> ParentHash a = ParentHash b \<and>
    BuilderPubkey a = BuilderPubkey b \<and> Value a = Value b"
  using assms by (simp add: UniqueKey_def key_clean_def append_sep_inject u64_str_no_char)

definition example_bid :: CommonBid where
  "example_bid = \<lparr>SourceType = SourceTypeGetHeader, ReceivedAtMs = 1, Slot = 3, BlockNumber = 4,
     BlockHash = ''5'', ParentHash = ''6'', BuilderPubkey = ''7'', Value = ''8'', BlockFeeRecipient = ''9'',
     Relay = ''10'', TimestampMs = 2, ProposerPubkey = ''11'', ProposerFeeRecipient = ''12'',
     OptimisticSubmission = True\<rparr>"

theorem UniqueKey_inject_witness:
  "UniqueKey example_bid \<noteq> UniqueKey (example_bid\<lparr>ParentHash := ''66'', BlockHash := []\<rparr>)"
  using UniqueKey_inject [of example_bid "example_bid\<lparr>ParentHash := ''66'', BlockHash := []\<rparr>"]
  by (simp add: key_clean_def example_bid_def)

text \<open>Without that, the key is ambiguous: a dash may move from one field to the next.\<close>

lemma UniqueKey_ambiguous:
  "UniqueKey (example_bid\<lparr>BlockHash := ''a-b'', ParentHash := ''c''\<rparr>) =
   UniqueKey (example_bid\<lparr>BlockHash := ''a'', ParentHash := ''b-c''\<rparr>)"
  by (simp add: UniqueKey_def)

section \<open>The CSV line\<close>

text \<open>The text fields of a bid hold no separator.\<close>

definition csv_clean :: "char \<Rightarrow> CommonBid \<Rightarrow> bool" where
  "csv_clean sep bid \<longleftrightarrow> (\<forall>s \<in> {Value bid, BlockHash bid, ParentHash bid, BuilderPubkey bid,
     BlockFeeRecipient bid, Relay bid, ProposerPubkey bid, ProposerFeeRecipient bid}. sep \<notin> set s)"

definition csv_separator :: "char \<Rightarrow> bool" where
  "csv_separator sep \<longleftrightarrow> sep = CHR '','' \<or> sep = CHR 0x09"

lemma length_ToCSVFields: "length (ToCSVFields g bid) = length CommonBidCSVFields"
  by (simp add: ToCSVFields_def CommonBidCSVFields_def Let_def)

lemma ToCSVFields_no_sep:
  assumes "csv_separator sep" "csv_clean sep bid" "x \<in> set (ToCSVFields g bid)"
  shows "sep \<notin> set x"
proof -
  have sep: "\<not> is_digit sep" "sep \<noteq> CHR ''-''" "sep \<notin> set ''true''" "sep \<notin> set ''false''"
    using assms(1) by (auto simp: csv_separator_def)
  note nums = u64_str_no_char [OF sep(1)] i64_str_no_char [OF sep(1,2)] int_str_no_char [OF sep(1,2)]
  have "sep \<notin> set (boolToString b)" for b using sep(3,4) by (simp add: boolToString_def)
  with assms(2,3) nums show ?thesis
    by (auto simp: ToCSVFields_def csv_clean_def Let_def)
qed

text \<open>A CSV (or TSV) line splits back into exactly the 15 fields of the bid, one per column of
  the header, whenever no text field of the bid holds the separator.\<close>

theorem ToCSVLine_split:
  assumes "csv_separator sep" and "csv_clean sep bid"
  shows "strings_Split (ToCSVLine g bid [sep]) sep = ToCSVFields g bid \<and>
    length (strings_Split (ToCSVLine g bid [sep]) sep) = length CommonBidCSVFields"
proof -
  have "ToCSVFields g bid \<noteq> []" using length_ToCSVFields [of g bid] by (auto simp: CommonBidCSVFields_def)
  then have "strings_Split (ToCSVLine g bid [sep]) sep = ToCSVFields g bid"
    unfolding ToCSVLine_def using ToCSVFields_no_sep [OF assms] by (rule strings_Split_Join)
  then show ?thesis by (simp add: length_ToCSVFields)
qed

theorem ToCSVLine_split_witness:
  "strings_Split (ToCSVLine GenesisDefault example_bid '','') (CHR '','') = ToCSVFields GenesisDefault example_bid"
  using ToCSVLine_split [of "CHR '',''" example_bid GenesisDefault]
  by (simp add: csv_separator_def csv_clean_def example_bid_def)

text \<open>The lines of \<open>TestCSVHasNotChanged\<close>.\<close>

lemma TestCSVHasNotChanged:
  "ToCSVLine GenesisDefault example_bid '','' = ''0,1,2,3,-1606824058998,8,5,6,7,4,9,10,11,12,''"
  "ToCSVLine GenesisDefault (example_bid\<lparr>SourceType := SourceTypeDataAPI\<rparr>) '',''
     = ''1,1,2,3,-1606824058998,8,5,6,7,4,9,10,11,12,true''"
  by (simp_all add: ToCSVLine_def ToCSVFields_def example_bid_def i64_less_def i64_str_def u64_str_def int_str_def
      SlotToTime_def time_Unix_def time_UnixMilli_def GenesisDefault_def SourceTypeDataAPI_def
      SourceTypeGetHeader_def boolToString_def nat_str_eval)

end
