(* ===== verification/GoPath.thy ===== *)
theory GoPath
  imports GoStrings
begin

text \<open>
  The parts of Go's \<open>path/filepath\<close> (on Unix) that the source uses: \<open>Clean\<close>, \<open>Join\<close>, \<open>Base\<close>.
  A path is processed component by component; the lemma \<open>filepath_Join_last\<close> says that a plain
  file name joined to a directory stays the last component, so distinct names in a directory
  are distinct paths.
\<close>

section \<open>Clean and Join\<close>

text \<open>The output components are kept as a stack, the last one first.\<close>

definition clean_step :: "bool \<Rightarrow> string list \<Rightarrow> string \<Rightarrow> string list" where
  "clean_step rooted out c =
     (if c = [] \<or> c = ''.'' then out
      else if c = ''..'' then
        (case out of
           [] \<Rightarrow> if rooted then [] else [''..'']
         | t # rest \<Rightarrow> if t = ''..'' then ''..'' # out else rest)
      else c # out)"

definition filepath_Clean :: "string \<Rightarrow> string" where
  "filepath_Clean path =
     (let rooted = strings_HasPrefix path ''/'';
          out = strings_Join (rev (foldl (clean_step rooted) [] (strings_Split path (CHR ''/'')))) ''/''
      in if rooted then ''/'' @ out else if out = [] then ''.'' else out)"

definition filepath_Join :: "string list \<Rightarrow> string" where
  "filepath_Join elems =
     (let es = dropWhile (\<lambda>e. e = []) elems
      in if es = [] then [] else filepath_Clean (strings_Join es ''/''))"

text \<open>\<open>Base\<close>: the last component, trailing slashes removed.\<close>

definition filepath_Base :: "string \<Rightarrow> string" where
  "filepath_Base path =
     (if path = [] then ''.''
      else let p = rev (dropWhile (\<lambda>c. c = CHR ''/'') (rev path))
           in if p = [] then ''/'' else last (strings_Split p (CHR ''/'')))"

section \<open>Plain file names\<close>

definition plain_name :: "string \<Rightarrow> bool" where
  "plain_name n \<longleftrightarrow> CHR ''/'' \<notin> set n \<and> n \<noteq> [] \<and> n \<noteq> ''.'' \<and> n \<noteq> ''..''"

lemma strings_Split_snoc_sep: "sep \<notin> set x \<Longrightarrow> strings_Split (s @ sep # x) sep = strings_Split s sep @ [x]"
proof (induction s)
  case Nil
  then show ?case by (simp add: strings_Split_no_sep)
next
  case (Cons c s)
  then show ?case
    by (cases "strings_Split s sep") auto
qed

lemma strings_Join_snoc: "strings_Join (xs @ [x]) sep = (if xs = [] then x else strings_Join xs sep @ sep @ x)"
proof (induction xs)
  case (Cons y ys)
  then show ?case by (cases ys) auto
qed simp

lemma last_Split_Join_snoc:
  assumes "CHR ''/'' \<notin> set n"
  shows "last (strings_Split (strings_Join (xs @ [n]) ''/'') (CHR ''/'')) = n"
  using assms by (simp add: strings_Join_snoc strings_Split_no_sep strings_Split_snoc_sep)

lemma last_Split_slash: "last (strings_Split (CHR ''/'' # s) (CHR ''/'')) = last (strings_Split s (CHR ''/''))"
  by simp

lemma filepath_Join_last:
  assumes "plain_name n"
  shows "last (strings_Split (filepath_Join [dir, n]) (CHR ''/'')) = n"
proof -
  let ?p = "if dir = [] then n else dir @ ''/'' @ n"
  have n: "CHR ''/'' \<notin> set n" "n \<noteq> []" "n \<noteq> ''.''" "n \<noteq> ''..''" using assms by (auto simp: plain_name_def)
  have join: "filepath_Join [dir, n] = filepath_Clean ?p"
    using n by (simp add: filepath_Join_def)
  have "strings_Split ?p (CHR ''/'') = (if dir = [] then [] else strings_Split dir (CHR ''/'')) @ [n]"
    using strings_Split_snoc_sep [OF n(1), of dir] by (simp add: strings_Split_no_sep [OF n(1)])
  then obtain xs where "strings_Split ?p (CHR ''/'') = xs @ [n]" by blast
  then have out: "rev (foldl (clean_step r) [] (strings_Split ?p (CHR ''/''))) = rev (foldl (clean_step r) [] xs) @ [n]" for r
    using n by (simp add: clean_step_def)
  have "strings_Join (ys @ [n]) ''/'' \<noteq> []" for ys using n(2) by (simp add: strings_Join_snoc)
  with n(1) show ?thesis
    unfolding join filepath_Clean_def out Let_def
    by (simp add: last_Split_Join_snoc)
qed

lemma filepath_Join_inject:
  "plain_name m \<Longrightarrow> plain_name n \<Longrightarrow> filepath_Join [d, m] = filepath_Join [e, n] \<Longrightarrow> m = n"
  using filepath_Join_last by metis

end
