(* ===== verification/BidProcessor.thy ===== *)
theory BidProcessor
  imports BidTypes GoPath
begin

text \<open>
  \<open>services/bidcollect/bid-processor.go\<close>: the component that deduplicates bids, keeps the top
  bid of every slot and writes one file of all bids and one of top bids per hour bucket.  The
  record \<open>BidProcessor\<close> holds the fields of the Go struct and, beside them, what its calls act
  on: the contents of the disk, the messages published to Redis and a count of the external
  calls made.  The outcome of the n-th external call is a field of \<open>io_env\<close>, so every error
  branch is a branch of the model.  The bid cache and the top-bid cache are instances of the
  interfaces \<open>first_store\<close> and \<open>best_store\<close>.
\<close>

section \<open>State\<close>

record BidProcessorOpts =
  UID :: string
  OutDir :: string
  OutputTSV :: bool
  RedisAddr :: string
  UseRedis :: bool

text \<open>An open \<open>*os.File\<close> in append mode is the path it was opened with.\<close>

record OutFiles =
  FAll :: string
  FTop :: string

record BidProcessor =
  opts :: BidProcessorOpts
  outFiles :: "i64 \<rightharpoonup> OutFiles"
  bidCache :: "u64 \<rightharpoonup> (string \<rightharpoonup> CommonBid)"
  topBidCache :: "u64 \<rightharpoonup> CommonBid"
  csvSeparator :: string
  csvFileEnding :: string
  redisClient :: bool
  disk :: "string \<rightharpoonup> string"
  redisLog :: "string list"
  ioCount :: nat

text \<open>The outcomes of the external calls; \<open>write_limit\<close> is how much of a failing write got out.\<close>

record io_env =
  ping_ok :: bool
  mkdir_ok :: "nat \<Rightarrow> bool"
  open_ok :: "nat \<Rightarrow> bool"
  stat_ok :: "nat \<Rightarrow> bool"
  write_limit :: "nat \<Rightarrow> nat option"
  publish_ok :: "nat \<Rightarrow> bool"

datatype 'a io_result = Ok 'a | Err | Fatal

definition NewBidProcessor :: "io_env \<Rightarrow> (string \<rightharpoonup> string) \<Rightarrow> BidProcessorOpts \<Rightarrow> BidProcessor option" where
  "NewBidProcessor env fs os =
     (let redis = (UseRedis os \<and> RedisAddr os \<noteq> []);
          c = \<lparr>opts = os, outFiles = Map.empty, bidCache = Map.empty, topBidCache = Map.empty,
               csvSeparator = (if OutputTSV os then [CHR 0x09] else '',''),
               csvFileEnding = (if OutputTSV os then ''tsv'' else ''csv''),
               redisClient = redis, disk = fs, redisLog = [], ioCount = 0\<rparr>
      in if redis \<and> \<not> ping_ok env then None else Some c)"

section \<open>Output files\<close>

definition bucketTS :: "CommonBid \<Rightarrow> i64" where
  "bucketTS bid = (let sec = BucketMinutes * 60 in i64_div (i64_div (ReceivedAtMs bid) 1000) sec * sec)"

definition getFilename :: "BidProcessor \<Rightarrow> string \<Rightarrow> i64 \<Rightarrow> string" where
  "getFilename c pfx timestamp =
     (let t = time_Unix timestamp 0;
          pfx = (if pfx \<noteq> [] then pfx @ ''_'' else pfx)
      in pfx @ fmt_file_stamp t @ ''_'' @ UID (opts c) @ ''.'' @ csvFileEnding c)"

definition bucketDir :: "BidProcessor \<Rightarrow> i64 \<Rightarrow> string" where
  "bucketDir c ts = filepath_Join [OutDir (opts c), fmt_DateOnly (time_Unix ts 0)]"

definition bucketPath :: "BidProcessor \<Rightarrow> string \<Rightarrow> i64 \<Rightarrow> string" where
  "bucketPath c pfx ts = filepath_Join [bucketDir c ts, getFilename c pfx ts]"

definition csvHeader :: "BidProcessor \<Rightarrow> string" where
  "csvHeader c = strings_Join CommonBidCSVFields (csvSeparator c) @ [CHR 0x0A]"

text \<open>\<open>fmt.Fprint(f, s)\<close> on a file opened for appending; the flag is the absence of an error.\<close>

definition fprint :: "io_env \<Rightarrow> string \<Rightarrow> string \<Rightarrow> BidProcessor \<Rightarrow> BidProcessor \<times> bool" where
  "fprint env fn s c =
     (let out = (case write_limit env (ioCount c) of None \<Rightarrow> s | Some k \<Rightarrow> take k s);
          content = (case disk c fn of None \<Rightarrow> [] | Some old \<Rightarrow> old)
      in (c\<lparr>disk := (disk c)(fn \<mapsto> content @ out), ioCount := ioCount c + 1\<rparr>,
          write_limit env (ioCount c) = None))"

text \<open>Open one output file, creating it, and write the header when it is empty.\<close>

definition openOutput :: "io_env \<Rightarrow> string \<Rightarrow> BidProcessor \<Rightarrow> BidProcessor \<times> string io_result" where
  "openOutput env fn c =
     (if \<not> open_ok env (ioCount c) then (c\<lparr>ioCount := ioCount c + 1\<rparr>, Err)
      else let content = (case disk c fn of None \<Rightarrow> [] | Some old \<Rightarrow> old);
               c = c\<lparr>disk := (disk c)(fn \<mapsto> content), ioCount := ioCount c + 1\<rparr>
           in if \<not> stat_ok env (ioCount c) then (c\<lparr>ioCount := ioCount c + 1\<rparr>, Fatal)
              else let c = c\<lparr>ioCount := ioCount c + 1\<rparr>
                   in if content = []
                      then (case fprint env fn (csvHeader c) c of
                              (c, ok) \<Rightarrow> (c, if ok then Ok fn else Fatal))
                      else (c, Ok fn))"

definition getFiles :: "io_env \<Rightarrow> CommonBid \<Rightarrow> BidProcessor \<Rightarrow> BidProcessor \<times> (string \<times> string) io_result" where
  "getFiles env bid c =
     (let ts = bucketTS bid in
      case outFiles c ts of
        Some fs \<Rightarrow> (c, Ok (FAll fs, FTop fs))
      | None \<Rightarrow>
          if \<not> mkdir_ok env (ioCount c) then (c\<lparr>ioCount := ioCount c + 1\<rparr>, Err)
          else (case openOutput env (bucketPath c ''all'' ts) (c\<lparr>ioCount := ioCount c + 1\<rparr>) of
                  (c, Err) \<Rightarrow> (c, Err)
                | (c, Fatal) \<Rightarrow> (c, Fatal)
                | (c, Ok fAll) \<Rightarrow>
                    (case openOutput env (bucketPath c ''top'' ts) c of
                       (c, Err) \<Rightarrow> (c, Err)
                     | (c, Fatal) \<Rightarrow> (c, Fatal)
                     | (c, Ok fTop) \<Rightarrow>
                         (c\<lparr>outFiles := (outFiles c)(ts \<mapsto> \<lparr>FAll = fAll, FTop = fTop\<rparr>)\<rparr>, Ok (fAll, fTop)))))"

section \<open>Processing bids\<close>

text \<open>The flag of the results is \<open>False\<close> when a fatal error ended the process.\<close>

definition writeBidToFile ::
    "io_env \<Rightarrow> i64 \<Rightarrow> CommonBid \<Rightarrow> bool \<Rightarrow> bool \<Rightarrow> BidProcessor \<Rightarrow> BidProcessor \<times> bool" where
  "writeBidToFile env genesis bid isNewBid isTopBid c =
     (case getFiles env bid c of
        (c, Err) \<Rightarrow> (c, True)
      | (c, Fatal) \<Rightarrow> (c, False)
      | (c, Ok (fAll, fTop)) \<Rightarrow>
          let line = ToCSVLine genesis bid (csvSeparator c) @ [CHR 0x0A] in
          (case (if isNewBid then fprint env fAll line c else (c, True)) of
             (c, False) \<Rightarrow> (c, True)
           | (c, True) \<Rightarrow> ((if isTopBid then fst (fprint env fTop line c) else c), True)))"

definition updateTopBid :: "CommonBid \<Rightarrow> BidProcessor \<Rightarrow> BidProcessor \<times> bool" where
  "updateTopBid bid c =
     (case topBidCache c (Slot bid) of
        None \<Rightarrow> (c\<lparr>topBidCache := (topBidCache c)(Slot bid \<mapsto> bid)\<rparr>, True)
      | Some topBid \<Rightarrow>
          if ValueAsBigInt topBid < ValueAsBigInt bid
          then (c\<lparr>topBidCache := (topBidCache c)(Slot bid \<mapsto> bid)\<rparr>, True)
          else (c, False))"

definition updateBidCache :: "CommonBid \<Rightarrow> BidProcessor \<Rightarrow> BidProcessor \<times> bool" where
  "updateBidCache bid c =
     (let m = (case bidCache c (Slot bid) of None \<Rightarrow> Map.empty | Some m \<Rightarrow> m) in
      if m (UniqueKey bid) = None
      then (c\<lparr>bidCache := (bidCache c)(Slot bid \<mapsto> m(UniqueKey bid \<mapsto> bid))\<rparr>, True)
      else (c\<lparr>bidCache := (bidCache c)(Slot bid \<mapsto> m)\<rparr>, False))"

definition publishBid :: "io_env \<Rightarrow> i64 \<Rightarrow> CommonBid \<Rightarrow> BidProcessor \<Rightarrow> BidProcessor" where
  "publishBid env genesis bid c =
     (if redisClient c
      then c\<lparr>redisLog := redisLog c @ (if publish_ok env (ioCount c) then [ToCSVLine genesis bid '',''] else []),
             ioCount := ioCount c + 1\<rparr>
      else c)"

definition processBid :: "io_env \<Rightarrow> i64 \<Rightarrow> CommonBid \<Rightarrow> BidProcessor \<Rightarrow> BidProcessor \<times> bool" where
  "processBid env genesis bid c =
     (case updateTopBid bid c of (c, isTopBid) \<Rightarrow>
      case updateBidCache bid c of (c, isNewBid) \<Rightarrow>
        writeBidToFile env genesis bid isNewBid isTopBid (publishBid env genesis bid c))"

fun processBids :: "io_env \<Rightarrow> i64 \<Rightarrow> CommonBid list \<Rightarrow> BidProcessor \<Rightarrow> BidProcessor \<times> bool" where
  "processBids env genesis [] c = (c, True)"
| "processBids env genesis (bid # bids) c =
     (case processBid env genesis bid c of
        (c, True) \<Rightarrow> processBids env genesis bids c
      | (c, False) \<Rightarrow> (c, False))"

section \<open>Housekeeping\<close>

record housekeeping_log =
  nDeleted :: nat
  nSlots :: nat
  nBids :: nat
  filesClosed :: int
  nFiles :: nat

definition housekeeping :: "i64 \<Rightarrow> gotime \<Rightarrow> gotime \<Rightarrow> BidProcessor \<Rightarrow> BidProcessor \<times> housekeeping_log" where
  "housekeeping genesis time_now1 time_now2 c =
     (let currentSlot = TimeToSlot genesis time_now1;
          maxSlotInCache = currentSlot - 3;
          kept = (\<lambda>slot. if slot < maxSlotInCache then None else bidCache c slot);
          now = unixSec time_now2;
          usageSec = BucketMinutes * 60 * 2;
          files = (\<lambda>ts. if i64_less usageSec (now - ts) then None else outFiles c ts)
      in (c\<lparr>bidCache := kept, outFiles := files\<rparr>,
          \<lparr>nDeleted = card (dom (bidCache c) - dom kept), nSlots = card (dom kept),
           nBids = (\<Sum>slot \<in> dom kept. card (dom (the (kept slot)))),
           filesClosed = int (card (dom files)) - int (card (dom (outFiles c))),
           nFiles = card (dom files)\<rparr>))"

section \<open>Buckets and file names\<close>

definition is_bucket :: "i64 \<Rightarrow> bool" where
  "is_bucket ts \<longleftrightarrow> sint ts mod 3600 = 0"

lemma sdiv_mult_bound:
  assumes "0 < b"
  shows "\<bar>(a :: int) sdiv b * b\<bar> \<le> \<bar>a\<bar>"
proof -
  have "x div b * b \<le> x" "0 \<le> x \<Longrightarrow> 0 \<le> x div b * b" for x
    using assms div_mult_mod_eq [of x b] pos_mod_sign [of b x] by (linarith, simp add: pos_imp_zdiv_nonneg_iff)
  from this [of a] this [of "- a"] show ?thesis
    using assms by (cases "0 \<le> a") (simp_all add: sdiv_pos)
qed

lemma sint_bucketTS: "sint (bucketTS bid) = sint (ReceivedAtMs bid) sdiv 1000 sdiv 3600 * 3600"
proof -
  let ?s = "i64_div (ReceivedAtMs bid) 1000"
  have s: "sint ?s = sint (ReceivedAtMs bid) sdiv 1000" by (simp add: sint_i64_div)
  have "\<bar>sint ?s sdiv 3600 * 3600\<bar> \<le> \<bar>sint ?s\<bar>" by (rule sdiv_mult_bound) simp
  moreover have "\<bar>sint ?s\<bar> * 1000 \<le> 2 ^ 63"
    using sdiv_mult_bound [of 1000 "sint (ReceivedAtMs bid)"] sint_range64 [of "ReceivedAtMs bid"]
    unfolding s by (simp add: abs_mult)
  ultimately have r: "\<bar>sint ?s sdiv 3600 * 3600\<bar> < 2 ^ 62" by simp
  have d: "sint (i64_div ?s 3600) = sint ?s sdiv 3600" by (simp add: sint_i64_div)
  have "sint (i64_div ?s 3600 * 3600) = sint (i64_div ?s 3600) * sint (3600 :: i64)"
    using r by (intro sint_i64_mult) (simp_all add: d)
  then show ?thesis by (simp add: bucketTS_def BucketMinutes_def Let_def d s)
qed

lemma is_bucket_bucketTS [simp]: "is_bucket (bucketTS bid)"
  by (simp add: is_bucket_def sint_bucketTS)

text \<open>The bucket of a bid is the full hour it was received in.\<close>

theorem bucketTS_hour:
  assumes "0 \<le> sint (ReceivedAtMs bid)"
  shows "sint (bucketTS bid) * 1000 \<le> sint (ReceivedAtMs bid) \<and>
    sint (ReceivedAtMs bid) < (sint (bucketTS bid) + 3600) * 1000 \<and> is_bucket (bucketTS bid)"
proof -
  have "sint (bucketTS bid) = sint (ReceivedAtMs bid) div 1000 div 3600 * 3600"
    using assms by (simp add: sint_bucketTS sdiv_pos pos_imp_zdiv_nonneg_iff)
  moreover have "a div 1000 div 3600 = a div 3600000" for a :: int
    by (simp flip: zdiv_zmult2_eq)
  moreover have "a div 3600000 * 3600000 \<le> a" "a < a div 3600000 * 3600000 + 3600000" for a :: int
    using div_mult_mod_eq [of a 3600000] pos_mod_sign [of 3600000 a] pos_mod_bound [of 3600000 a]
    by linarith+
  ultimately show ?thesis by (simp add: algebra_simps)
qed

theorem bucketTS_hour_witness:
  "sint (ReceivedAtMs (example_bid\<lparr>ReceivedAtMs := 7200001\<rparr>))
    < (sint (bucketTS (example_bid\<lparr>ReceivedAtMs := 7200001\<rparr>)) + 3600) * 1000"
  using bucketTS_hour [of "example_bid\<lparr>ReceivedAtMs := 7200001\<rparr>"] by simp

text \<open>The parts of the file names that come from the configuration hold no slash.\<close>

definition names_ok :: "BidProcessor \<Rightarrow> bool" where
  "names_ok c \<longleftrightarrow> CHR ''/'' \<notin> set (UID (opts c)) \<and> CHR ''/'' \<notin> set (csvFileEnding c)"

definition file_kind :: "string \<Rightarrow> bool" where
  "file_kind pfx \<longleftrightarrow> pfx = ''all'' \<or> pfx = ''top''"

lemma plain_getFilename:
  assumes "names_ok c" "file_kind pfx"
  shows "plain_name (getFilename c pfx ts)"
proof -
  have "CHR ''/'' \<notin> set (fmt_file_stamp t)" for t
    using fmt_file_stamp_chars [of "CHR ''/''" t] by (auto simp: is_digit_def)
  with assms show ?thesis
    by (auto simp: plain_name_def getFilename_def file_kind_def names_ok_def Let_def)
qed

lemma bucketPath_distinct:
  assumes "names_ok c" and "file_kind p" and "file_kind q" and "is_bucket t" and "is_bucket u"
  shows "bucketPath c p t = bucketPath c q u \<longleftrightarrow> p = q \<and> t = u"
proof
  assume "bucketPath c p t = bucketPath c q u"
  with assms have eq: "getFilename c p t = getFilename c q u"
    unfolding bucketPath_def by (metis filepath_Join_inject plain_getFilename)
  with assms(2,3) have pq: "p = q" by (auto simp: getFilename_def file_kind_def Let_def)
  with eq have "fmt_file_stamp (time_Unix t 0) = fmt_file_stamp (time_Unix u 0)"
    by (simp add: getFilename_def Let_def split: if_splits)
  then have "sint t div 60 = sint u div 60"
    using fmt_file_stamp_inject by (fastforce simp: time_Unix_def)
  moreover have "sint t mod 60 = 0" "sint u mod 60 = 0"
    using assms(4,5) mod_mod_cancel [of 60 3600 "sint t"] mod_mod_cancel [of 60 3600 "sint u"]
    by (simp_all add: is_bucket_def)
  ultimately have "sint t = sint u" using div_mult_mod_eq by metis
  with pq show "p = q \<and> t = u" by (simp add: sint_inject)
qed simp

text \<open>C18. The output files of one processor never collide: the file of all bids and the file of top
  bids of any two hour buckets have the same path only when they are the same file.\<close>

theorem bucketPath_inject:
  assumes "names_ok c" and "file_kind p" and "file_kind q" and "is_bucket t" and "is_bucket u"
  shows "bucketPath c p t = bucketPath c q u \<longleftrightarrow> p = q \<and> t = u"
  using assms by (rule bucketPath_distinct)

section \<open>What the file operations leave alone\<close>

text \<open>The part of the state that no file operation touches.\<close>

definition core where
  "core c = (opts c, bidCache c, topBidCache c, csvSeparator c, csvFileEnding c, redisClient c, redisLog c)"

lemma core_file_updates [simp]:
  "core (c\<lparr>disk := d\<rparr>) = core c" "core (c\<lparr>ioCount := n\<rparr>) = core c" "core (c\<lparr>outFiles := f\<rparr>) = core c"
  by (simp_all add: core_def)

lemma core_fprint: "fprint env fn s c = (c', ok) \<Longrightarrow> core c' = core c \<and> outFiles c' = outFiles c"
  by (auto simp: fprint_def Let_def)

lemma core_openOutput: "openOutput env fn c = (c', r) \<Longrightarrow> core c' = core c \<and> outFiles c' = outFiles c"
  by (auto simp: openOutput_def Let_def split: if_splits prod.splits dest!: core_fprint)

lemma core_getFiles: "getFiles env bid c = (c', r) \<Longrightarrow> core c' = core c"
  by (auto simp: getFiles_def Let_def split: option.splits if_splits prod.splits io_result.splits
      dest!: core_openOutput)

lemma core_writeBidToFile: "writeBidToFile env g bid isNew isTop c = (c', ok) \<Longrightarrow> core c' = core c"
  by (auto simp: writeBidToFile_def Let_def fprint_def
      split: if_splits prod.splits io_result.splits bool.splits dest!: core_getFiles)

lemma updateTopBid_frame:
  "fst (updateTopBid bid c) = c\<lparr>topBidCache := topBidCache (fst (updateTopBid bid c))\<rparr>"
  by (simp add: updateTopBid_def split: option.splits)

lemma updateBidCache_frame:
  "fst (updateBidCache bid c) = c\<lparr>bidCache := bidCache (fst (updateBidCache bid c))\<rparr>"
  by (simp add: updateBidCache_def Let_def)

lemma updateBidCache_top:
  "bidCache (fst (updateBidCache bid (c\<lparr>topBidCache := t :: u64 \<rightharpoonup> CommonBid\<rparr>))) = bidCache (fst (updateBidCache bid c))"
  by (simp add: updateBidCache_def Let_def)

lemma publishBid_frame:
  "publishBid env g bid c =
     c\<lparr>redisLog := redisLog (publishBid env g bid c), ioCount := ioCount (publishBid env g bid c)\<rparr>"
  by (simp add: publishBid_def)

lemma processBid_caches:
  "bidCache (fst (processBid env g bid c)) = bidCache (fst (updateBidCache bid c))"
  "topBidCache (fst (processBid env g bid c)) = topBidCache (fst (updateTopBid bid c))"
  "opts (fst (processBid env g bid c)) = opts c"
  "csvSeparator (fst (processBid env g bid c)) = csvSeparator c"
  "csvFileEnding (fst (processBid env g bid c)) = csvFileEnding c"
  "redisClient (fst (processBid env g bid c)) = redisClient c"
proof -
  obtain c1 isTop where 1: "updateTopBid bid c = (c1, isTop)" by fastforce
  obtain c2 isNew where 2: "updateBidCache bid c1 = (c2, isNew)" by fastforce
  let ?c3 = "publishBid env g bid c2"
  obtain c4 ok where 3: "writeBidToFile env g bid isNew isTop ?c3 = (c4, ok)" by fastforce
  have 4: "fst (processBid env g bid c) = c4" by (simp add: processBid_def 1 2 3)
  obtain t where c1: "c1 = c\<lparr>topBidCache := t\<rparr>" using updateTopBid_frame [of bid c] 1 by (metis fst_conv)
  have c2: "c2 = c1\<lparr>bidCache := bidCache (fst (updateBidCache bid c))\<rparr>"
    using updateBidCache_frame [of bid c1] updateBidCache_top [where c = c and bid = bid] 2 unfolding c1 by (metis fst_conv)
  obtain l n where c3: "?c3 = c2\<lparr>redisLog := l, ioCount := n\<rparr>" using publishBid_frame by blast
  have c4: "core c4 = core (c2\<lparr>redisLog := l, ioCount := n\<rparr>)"
    using core_writeBidToFile [OF 3] c3 by simp
  show "bidCache (fst (processBid env g bid c)) = bidCache (fst (updateBidCache bid c))"
    "topBidCache (fst (processBid env g bid c)) = topBidCache (fst (updateTopBid bid c))"
    "opts (fst (processBid env g bid c)) = opts c"
    "csvSeparator (fst (processBid env g bid c)) = csvSeparator c"
    "csvFileEnding (fst (processBid env g bid c)) = csvFileEnding c"
    "redisClient (fst (processBid env g bid c)) = redisClient c"
    using c4 c1 1 unfolding 4 c2 by (simp_all add: core_def)
qed

section \<open>The caches as stores\<close>

definition cached :: "BidProcessor \<Rightarrow> u64 \<times> string \<Rightarrow> bool" where
  "cached c = (\<lambda>(slot, k). case bidCache c slot of None \<Rightarrow> False | Some m \<Rightarrow> m k \<noteq> None)"

definition topValue :: "BidProcessor \<Rightarrow> u64 \<Rightarrow> int option" where
  "topValue c slot = map_option ValueAsBigInt (topBidCache c slot)"

abbreviation bidKey :: "CommonBid \<Rightarrow> u64 \<times> string" where
  "bidKey bid \<equiv> (Slot bid, UniqueKey bid)"

abbreviation afterBid :: "io_env \<Rightarrow> i64 \<Rightarrow> CommonBid \<Rightarrow> BidProcessor \<Rightarrow> BidProcessor" where
  "afterBid env g bid c \<equiv> fst (processBid env g bid c)"

interpretation bid_cache: first_store cached "afterBid env g" bidKey for env g
proof unfold_locales
  fix a s k
  show "cached (afterBid env g a s) k \<longleftrightarrow> cached s k \<or> k = bidKey a"
    by (cases k) (auto simp: cached_def processBid_caches updateBidCache_def Let_def split: option.splits)
qed

interpretation top_cache: best_store topValue "afterBid env g" Slot ValueAsBigInt for env g
proof unfold_locales
  fix a s
  show "topValue (afterBid env g a s) =
    (if beats (topValue s (Slot a)) (ValueAsBigInt a)
     then (topValue s)(Slot a \<mapsto> ValueAsBigInt a) else topValue s)"
    by (auto simp: topValue_def processBid_caches updateTopBid_def beats_def fun_eq_iff split: option.splits)
qed

lemma flags_updateBidCache: "snd (updateBidCache bid c) \<longleftrightarrow> \<not> cached c (bidKey bid)"
  by (simp add: updateBidCache_def cached_def Let_def split: option.splits)

lemma flags_updateTopBid: "snd (updateTopBid bid c) \<longleftrightarrow> beats (topValue c (Slot bid)) (ValueAsBigInt bid)"
  by (simp add: updateTopBid_def topValue_def beats_def split: option.splits)

lemma processBids_fold:
  "snd (processBids env g bids c) \<Longrightarrow> fst (processBids env g bids c) = fold (afterBid env g) bids c"
  by (induction bids arbitrary: c) (auto split: prod.splits bool.splits)

lemma processBids_prefix:
  "\<exists>pre suf. bids = pre @ suf \<and> fst (processBids env g bids c) = fold (afterBid env g) pre c"
proof (induction bids arbitrary: c)
  case (Cons b bs)
  obtain c1 ok where 1: "processBid env g b c = (c1, ok)" by fastforce
  from Cons.IH [of c1] obtain pre suf
    where "bs = pre @ suf" "fst (processBids env g bs c1) = fold (afterBid env g) pre c1" by blast
  then have "ok \<Longrightarrow> b # bs = (b # pre) @ suf \<and>
      fst (processBids env g (b # bs) c) = fold (afterBid env g) (b # pre) c"
    "\<not> ok \<Longrightarrow> b # bs = [b] @ bs \<and> fst (processBids env g (b # bs) c) = fold (afterBid env g) [b] c"
    by (simp_all add: 1)
  then show ?case by (cases ok) blast+
qed simp

section \<open>The contents of the files\<close>

text \<open>Every file call succeeds.  Publishing to Redis may fail.\<close>

definition files_ok :: "io_env \<Rightarrow> bool" where
  "files_ok env \<longleftrightarrow> mkdir_ok env = (\<lambda>_. True) \<and> open_ok env = (\<lambda>_. True) \<and> stat_ok env = (\<lambda>_. True) \<and>
     write_limit env = (\<lambda>_. None)"

text \<open>The open handles are those of their bucket, and their files exist.\<close>

definition handles_ok :: "BidProcessor \<Rightarrow> bool" where
  "handles_ok c \<longleftrightarrow> (\<forall>ts fs. outFiles c ts = Some fs \<longrightarrow>
     is_bucket ts \<and> fs = \<lparr>FAll = bucketPath c ''all'' ts, FTop = bucketPath c ''top'' ts\<rparr> \<and>
     disk c (bucketPath c ''all'' ts) \<noteq> None \<and> disk c (bucketPath c ''top'' ts) \<noteq> None)"

definition content :: "string option \<Rightarrow> string" where
  "content f = (case f of None \<Rightarrow> [] | Some s \<Rightarrow> s)"

text \<open>A file at the time its bucket is open: what it held, or the header if it held nothing.\<close>

definition opened :: "BidProcessor \<Rightarrow> string \<Rightarrow> i64 \<Rightarrow> string" where
  "opened c pfx ts =
     (let old = content (disk c (bucketPath c pfx ts))
      in if outFiles c ts = None \<and> old = [] then csvHeader c else old)"

definition bidLine :: "i64 \<Rightarrow> BidProcessor \<Rightarrow> CommonBid \<Rightarrow> string" where
  "bidLine g c bid = ToCSVLine g bid (csvSeparator c) @ [CHR 0x0A]"

lemma fprint_ok: "files_ok env \<Longrightarrow>
    fprint env fn s c = (c\<lparr>disk := (disk c)(fn \<mapsto> content (disk c fn) @ s), ioCount := ioCount c + 1\<rparr>, True)"
  by (simp add: fprint_def files_ok_def content_def)

lemma bucketPath_core: "core c = core c' \<Longrightarrow> bucketPath c = bucketPath c'"
  by (rule ext)+ (simp add: bucketPath_def bucketDir_def getFilename_def core_def)

lemma csvHeader_core: "core c = core c' \<Longrightarrow> csvHeader c = csvHeader c'"
  by (simp add: csvHeader_def core_def)

lemma path_file_updates [simp]:
  "bucketPath (c\<lparr>disk := d\<rparr>) = bucketPath c" "bucketPath (c\<lparr>ioCount := n\<rparr>) = bucketPath c"
  "bucketPath (c\<lparr>outFiles := f\<rparr>) = bucketPath c" "csvHeader (c\<lparr>disk := d\<rparr>) = csvHeader c"
  "csvHeader (c\<lparr>ioCount := n\<rparr>) = csvHeader c" "csvHeader (c\<lparr>outFiles := f\<rparr>) = csvHeader c"
  by (intro bucketPath_core csvHeader_core; simp)+

lemma openOutput_ok:
  assumes "files_ok env"
  shows "\<exists>n. openOutput env fn c =
    (c\<lparr>disk := (disk c)(fn \<mapsto> (if content (disk c fn) = [] then csvHeader c else content (disk c fn))), ioCount := n\<rparr>, Ok fn)"
proof -
  have "open_ok env n" "stat_ok env n" for n using assms by (simp_all add: files_ok_def)
  then show ?thesis
    by (auto simp: openOutput_def Let_def fprint_ok [OF assms] content_def csvHeader_def split: option.splits)
qed

lemma getFiles_ok:
  fixes bid
  assumes "files_ok env" "handles_ok c"
    and neq: "bucketPath c ''all'' (bucketTS bid) \<noteq> bucketPath c ''top'' (bucketTS bid)"
  defines "ts \<equiv> bucketTS bid"
  defines "P \<equiv> bucketPath c ''all'' ts" and "Q \<equiv> bucketPath c ''top'' ts"
  shows "\<exists>n. getFiles env bid c =
    (c\<lparr>outFiles := (outFiles c)(ts \<mapsto> \<lparr>FAll = P, FTop = Q\<rparr>),
       disk := (disk c)(P \<mapsto> opened c ''all'' ts, Q \<mapsto> opened c ''top'' ts), ioCount := n\<rparr>, Ok (P, Q))"
proof (cases "outFiles c ts")
  case (Some fs)
  with assms(2) have fs: "fs = \<lparr>FAll = P, FTop = Q\<rparr>" and d: "disk c P \<noteq> None" "disk c Q \<noteq> None"
    by (auto simp: handles_ok_def P_def Q_def)
  from d have "(disk c)(P \<mapsto> opened c ''all'' ts, Q \<mapsto> opened c ''top'' ts) = disk c"
    using Some by (auto simp: opened_def content_def P_def [symmetric] Q_def [symmetric] fun_upd_idem)
  moreover have "(outFiles c)(ts \<mapsto> \<lparr>FAll = P, FTop = Q\<rparr>) = outFiles c" using Some fs by (simp add: fun_upd_idem)
  ultimately show ?thesis using Some fs by (intro exI [of _ "ioCount c"]) (simp add: getFiles_def ts_def [symmetric])
next
  case None
  let ?c1 = "c\<lparr>ioCount := ioCount c + 1\<rparr>"
  have op: "opened c pfx ts = (if content (disk c (bucketPath c pfx ts)) = [] then csvHeader c
      else content (disk c (bucketPath c pfx ts)))" for pfx
    using None by (simp add: opened_def Let_def)
  have "\<exists>n. openOutput env P ?c1 = (c\<lparr>disk := (disk c)(P \<mapsto> opened c ''all'' ts), ioCount := n\<rparr>, Ok P)"
    using openOutput_ok [OF assms(1), of P ?c1] by (simp add: op cong: if_cong flip: P_def)
  then obtain n where
    1: "openOutput env P ?c1 = (c\<lparr>disk := (disk c)(P \<mapsto> opened c ''all'' ts), ioCount := n\<rparr>, Ok P)" by blast
  let ?c2 = "c\<lparr>disk := (disk c)(P \<mapsto> opened c ''all'' ts), ioCount := n\<rparr>"
  have "P \<noteq> Q" using neq by (simp add: P_def Q_def ts_def)
  then have "\<exists>m. openOutput env Q ?c2 =
      (c\<lparr>disk := (disk c)(P \<mapsto> opened c ''all'' ts, Q \<mapsto> opened c ''top'' ts), ioCount := m\<rparr>, Ok Q)"
    using openOutput_ok [OF assms(1), of Q ?c2] by (simp add: op cong: if_cong flip: Q_def)
  then obtain m where
    2: "openOutput env Q ?c2 =
      (c\<lparr>disk := (disk c)(P \<mapsto> opened c ''all'' ts, Q \<mapsto> opened c ''top'' ts), ioCount := m\<rparr>, Ok Q)" by blast
  have "mkdir_ok env (ioCount c)" using assms(1) by (simp add: files_ok_def)
  with None 1 2 show ?thesis
    by (intro exI [of _ m]) (simp add: getFiles_def Let_def ts_def [symmetric] P_def [symmetric] Q_def [symmetric])
qed

text \<open>One bid in a healthy environment.\<close>

lemma writeBidToFile_ok:
  fixes bid
  assumes "files_ok env" "handles_ok c" "names_ok c"
  defines "ts \<equiv> bucketTS bid"
  defines "P \<equiv> bucketPath c ''all'' ts" and "Q \<equiv> bucketPath c ''top'' ts"
  shows "\<exists>n. writeBidToFile env g bid isNew isTop c =
    (c\<lparr>outFiles := (outFiles c)(ts \<mapsto> \<lparr>FAll = P, FTop = Q\<rparr>),
       disk := (disk c)(P \<mapsto> opened c ''all'' ts @ (if isNew then bidLine g c bid else []),
                        Q \<mapsto> opened c ''top'' ts @ (if isTop then bidLine g c bid else [])), ioCount := n\<rparr>, True)"
proof -
  have neq: "P \<noteq> Q"
    using bucketPath_distinct [OF assms(3), of "''all''" "''top''" ts ts]
    by (simp add: P_def Q_def ts_def file_kind_def)
  then obtain n where 1: "getFiles env bid c =
    (c\<lparr>outFiles := (outFiles c)(ts \<mapsto> \<lparr>FAll = P, FTop = Q\<rparr>),
       disk := (disk c)(P \<mapsto> opened c ''all'' ts, Q \<mapsto> opened c ''top'' ts), ioCount := n\<rparr>, Ok (P, Q))"
    using getFiles_ok [OF assms(1,2), of bid] unfolding P_def Q_def ts_def by blast
  show ?thesis
    using neq by (auto simp: writeBidToFile_def 1 fprint_ok [OF assms(1)] content_def bidLine_def Let_def
        fun_upd_twist fun_upd_idem)
qed

text \<open>The part of the state that the caches and Redis leave alone.\<close>

definition io_part where
  "io_part c = (opts c, outFiles c, disk c, csvSeparator c, csvFileEnding c)"

lemma io_part_cong:
  assumes "io_part c = io_part c'"
  shows "bucketPath c = bucketPath c'" "opened c = opened c'" "bidLine g c = bidLine g c'"
    "handles_ok c = handles_ok c'" "names_ok c = names_ok c'" "outFiles c = outFiles c'" "disk c = disk c'"
proof -
  from assms have eqs: "opts c = opts c'" "outFiles c = outFiles c'" "disk c = disk c'"
    "csvSeparator c = csvSeparator c'" "csvFileEnding c = csvFileEnding c'" by (simp_all add: io_part_def)
  show path: "bucketPath c = bucketPath c'"
    by (rule ext)+ (simp add: bucketPath_def bucketDir_def getFilename_def eqs)
  show "opened c = opened c'" by (rule ext)+ (simp only: opened_def csvHeader_def path eqs)
  show "bidLine g c = bidLine g c'" by (rule ext) (simp add: bidLine_def eqs)
  show "handles_ok c = handles_ok c'" by (simp add: handles_ok_def path eqs)
  show "names_ok c = names_ok c'" by (simp add: names_ok_def eqs)
  show "outFiles c = outFiles c'" "disk c = disk c'" by (rule eqs)+
qed

lemma io_part_updates:
  "io_part (publishBid env g bid (fst (updateBidCache bid (fst (updateTopBid bid c))))) = io_part c"
  by (simp add: io_part_def publishBid_def updateBidCache_def updateTopBid_def Let_def split: option.splits)

lemma processBid_ok:
  fixes bid
  assumes env: "files_ok env" and c: "handles_ok c" "names_ok c"
  defines "ts \<equiv> bucketTS bid"
  defines "P \<equiv> bucketPath c ''all'' ts" and "Q \<equiv> bucketPath c ''top'' ts"
  shows "snd (processBid env g bid c)"
    "outFiles (afterBid env g bid c) = (outFiles c)(ts \<mapsto> \<lparr>FAll = P, FTop = Q\<rparr>)"
    "disk (afterBid env g bid c) = (disk c)
       (P \<mapsto> opened c ''all'' ts @ (if cached c (bidKey bid) then [] else bidLine g c bid),
        Q \<mapsto> opened c ''top'' ts @ (if beats (topValue c (Slot bid)) (ValueAsBigInt bid) then bidLine g c bid else []))"
proof -
  obtain c1 isTop where 1: "updateTopBid bid c = (c1, isTop)" by fastforce
  obtain c2 isNew where 2: "updateBidCache bid c1 = (c2, isNew)" by fastforce
  let ?c3 = "publishBid env g bid c2"
  have top: "isTop = beats (topValue c (Slot bid)) (ValueAsBigInt bid)"
    using flags_updateTopBid [of bid c] by (simp add: 1)
  have "bidCache c1 = bidCache c" using 1 by (auto simp: updateTopBid_def split: option.splits if_splits)
  then have "cached c1 = cached c" by (simp add: cached_def)
  then have new: "isNew = (\<not> cached c (bidKey bid))"
    using flags_updateBidCache [of bid c1] by (simp add: 2)
  have "io_part ?c3 = io_part c" using io_part_updates [of env g bid c] by (simp add: 1 2)
  note cong = io_part_cong [OF this]
  have "handles_ok ?c3" "names_ok ?c3" using c by (simp_all add: cong)
  from writeBidToFile_ok [OF env this, where g = g and bid = bid and isNew = isNew and isTop = isTop]
  obtain n where "writeBidToFile env g bid isNew isTop ?c3 =
    (?c3\<lparr>outFiles := (outFiles c)(ts \<mapsto> \<lparr>FAll = P, FTop = Q\<rparr>),
       disk := (disk c)(P \<mapsto> opened c ''all'' ts @ (if isNew then bidLine g c bid else []),
                        Q \<mapsto> opened c ''top'' ts @ (if isTop then bidLine g c bid else [])), ioCount := n\<rparr>, True)"
    unfolding cong P_def [symmetric] Q_def [symmetric] ts_def [symmetric] by blast
  then have "processBid env g bid c = (?c3\<lparr>outFiles := (outFiles c)(ts \<mapsto> \<lparr>FAll = P, FTop = Q\<rparr>),
       disk := (disk c)(P \<mapsto> opened c ''all'' ts @ (if isNew then bidLine g c bid else []),
                        Q \<mapsto> opened c ''top'' ts @ (if isTop then bidLine g c bid else [])), ioCount := n\<rparr>, True)"
    by (simp add: processBid_def 1 2)
  then show "snd (processBid env g bid c)"
    "outFiles (afterBid env g bid c) = (outFiles c)(ts \<mapsto> \<lparr>FAll = P, FTop = Q\<rparr>)"
    "disk (afterBid env g bid c) = (disk c)
       (P \<mapsto> opened c ''all'' ts @ (if cached c (bidKey bid) then [] else bidLine g c bid),
        Q \<mapsto> opened c ''top'' ts @ (if beats (topValue c (Slot bid)) (ValueAsBigInt bid) then bidLine g c bid else []))"
    by (simp_all add: top new)
qed

lemma processBid_paths [simp]:
  "bucketPath (afterBid env g bid c) = bucketPath c" "names_ok (afterBid env g bid c) = names_ok c"
  "bidLine h (afterBid env g bid c) = bidLine h c" "csvHeader (afterBid env g bid c) = csvHeader c"
  by (simp_all add: fun_eq_iff bucketPath_def bucketDir_def getFilename_def names_ok_def bidLine_def
      csvHeader_def processBid_caches)

lemma processBid_handles [go_intros]:
  assumes "files_ok env" "handles_ok c" "names_ok c"
  shows "handles_ok (afterBid env g bid c)"
  using assms(2)
  by (auto simp: handles_ok_def processBid_ok(2,3) [OF assms])

text \<open>One bid and one bucket: what the two files of the bucket get.\<close>

lemma processBid_file:
  fixes bid
  assumes "files_ok env" "handles_ok c" "names_ok c" "is_bucket ts" "file_kind pfx"
  defines "out \<equiv> (if pfx = ''all'' then \<not> cached c (bidKey bid) else beats (topValue c (Slot bid)) (ValueAsBigInt bid))"
  shows "disk (afterBid env g bid c) (bucketPath c pfx ts) =
    (if bucketTS bid = ts then Some (opened c pfx ts @ (if out then bidLine g c bid else []))
     else disk c (bucketPath c pfx ts))"
    "opened (afterBid env g bid c) pfx ts =
    (if bucketTS bid = ts then opened c pfx ts @ (if out then bidLine g c bid else []) else opened c pfx ts)"
proof -
  have inj: "bucketPath c pfx ts = bucketPath c q (bucketTS bid) \<longleftrightarrow> pfx = q \<and> ts = bucketTS bid"
    if "file_kind q" for q using assms that by (simp add: bucketPath_distinct)
  have k: "file_kind ''all''" "file_kind ''top''" by (simp_all add: file_kind_def)
  show d: "disk (afterBid env g bid c) (bucketPath c pfx ts) =
    (if bucketTS bid = ts then Some (opened c pfx ts @ (if out then bidLine g c bid else []))
     else disk c (bucketPath c pfx ts))"
    using assms(5) inj [OF k(1)] inj [OF k(2)]
    by (auto simp: processBid_ok(3) [OF assms(1-3)] out_def file_kind_def)
  show "opened (afterBid env g bid c) pfx ts =
    (if bucketTS bid = ts then opened c pfx ts @ (if out then bidLine g c bid else []) else opened c pfx ts)"
    by (auto simp: opened_def [of "afterBid env g bid c"] d processBid_ok(2) [OF assms(1-3)] content_def)
      (auto simp: opened_def Let_def content_def split: if_splits)
qed

lemma cached_step:
  "firsts_by bidKey (cached c) (bid # bids) =
     (if cached c (bidKey bid) then [] else [bid]) @ firsts_by bidKey (cached (afterBid env g bid c)) bids"
  using bid_cache.firsts_step [of c bid bids env g] by simp

text \<open>Fold the effect of one bid over a batch: \<open>sel\<close> picks the bids of a batch that reach the file.\<close>

lemma processBids_file_fold:
  assumes env: "files_ok env" and b: "is_bucket ts" "file_kind pfx"
    and sel_Nil: "\<And>c. sel c [] = []"
    and sel_Cons: "\<And>c bid bids. sel c (bid # bids) =
      (if (if pfx = ''all'' then \<not> cached c (bidKey bid) else beats (topValue c (Slot bid)) (ValueAsBigInt bid))
       then [bid] else []) @ sel (afterBid env g bid c) bids"
    and "handles_ok c" "names_ok c"
  shows "snd (processBids env g bids c) \<and>
    disk (fst (processBids env g bids c)) (bucketPath c pfx ts) =
    (if \<exists>b \<in> set bids. bucketTS b = ts
     then Some (opened c pfx ts @ concat (map (bidLine g c) (filter (\<lambda>b. bucketTS b = ts) (sel c bids))))
     else disk c (bucketPath c pfx ts))"
  using assms(6,7)
proof (induction bids arbitrary: c)
  case Nil
  then show ?case by (simp add: sel_Nil)
next
  case (Cons bid bids)
  let ?c = "afterBid env g bid c"
  note IH = Cons.IH [OF processBid_handles [OF env Cons.prems]]
  have eq: "processBids env g (bid # bids) c = processBids env g bids ?c"
    using processBid_ok(1) [OF env Cons.prems, of g bid] by (cases "processBid env g bid c") simp
  have names: "names_ok ?c" using Cons.prems by simp
  note files = processBid_file [OF env Cons.prems b]
  show ?case
  proof (cases "\<exists>b \<in> set bids. bucketTS b = ts")
    case True
    with IH [OF names] show ?thesis
      by (simp add: eq sel_Cons files(2) del: processBids.simps)
  next
    case False
    have "set (sel c' bs) \<subseteq> set bs" for c' bs
      by (induction bs arbitrary: c') (auto simp: sel_Nil sel_Cons)
    with False have "filter (\<lambda>b. bucketTS b = ts) (sel ?c bids) = []" by (fastforce simp: filter_empty_conv)
    with IH [OF names] False show ?thesis
      by (auto simp: eq sel_Cons files(1) simp del: processBids.simps)
  qed
qed

lemma processBids_runs: "files_ok env \<Longrightarrow> handles_ok c \<Longrightarrow> names_ok c \<Longrightarrow> snd (processBids env g bids c)"
proof (induction bids arbitrary: c)
  case (Cons bid bids)
  with processBid_ok(1) [OF Cons.prems, of g bid] processBid_handles [OF Cons.prems, of g bid]
  show ?case by (cases "processBid env g bid c") (auto dest: processBid_paths(2) [of env g bid c, THEN iffD2])
qed simp

lemma all_file_content:
  assumes "files_ok env" and "handles_ok c" and "names_ok c" and "is_bucket ts"
  shows "snd (processBids env g bids c) \<and>
    disk (fst (processBids env g bids c)) (bucketPath c ''all'' ts) =
    (if \<exists>b \<in> set bids. bucketTS b = ts
     then Some (opened c ''all'' ts @ concat (map (bidLine g c)
            (filter (\<lambda>b. bucketTS b = ts) (firsts_by bidKey (cached c) bids))))
     else disk c (bucketPath c ''all'' ts))"
proof (rule processBids_file_fold [OF assms(1,4)])
  show "file_kind ''all''" by (simp add: file_kind_def)
  show "firsts_by bidKey (cached c) (bid # bids) =
      (if (if ''all'' = ''all'' then \<not> cached c (bidKey bid) else beats (topValue c (Slot bid)) (ValueAsBigInt bid))
       then [bid] else []) @ firsts_by bidKey (cached (afterBid env g bid c)) bids" for c bid bids
    using cached_step [of c bid bids env g] by simp
qed (use assms in simp_all)

text \<open>C1. With a working file system, the file of all bids of an hour gets exactly the first
  occurrence of each bid received in that hour, in arrival order, one CSV line each, after the
  header (if the file was empty) or what the file held; the files of other hours are untouched.\<close>

theorem processBids_all_file:
  assumes "files_ok env" and "handles_ok c" and "names_ok c" and "is_bucket ts"
  shows "snd (processBids env g bids c) \<and>
    disk (fst (processBids env g bids c)) (bucketPath c ''all'' ts) =
    (if \<exists>b \<in> set bids. bucketTS b = ts
     then Some (opened c ''all'' ts @ concat (map (bidLine g c)
            (filter (\<lambda>b. bucketTS b = ts) (firsts_by bidKey (cached c) bids))))
     else disk c (bucketPath c ''all'' ts))"
  using assms by (rule all_file_content)

text \<open>C2. With a working file system, the file of top bids of an hour gets exactly the bids of that
  hour whose value is strictly above every earlier bid of their slot, in arrival order.\<close>

theorem processBids_top_file:
  assumes "files_ok env" and "handles_ok c" and "names_ok c" and "is_bucket ts"
  shows "snd (processBids env g bids c) \<and>
    disk (fst (processBids env g bids c)) (bucketPath c ''top'' ts) =
    (if \<exists>b \<in> set bids. bucketTS b = ts
     then Some (opened c ''top'' ts @ concat (map (bidLine g c)
            (filter (\<lambda>b. bucketTS b = ts) (maxima_by Slot ValueAsBigInt (topValue c) bids))))
     else disk c (bucketPath c ''top'' ts))"
proof (rule processBids_file_fold [OF assms(1,4)])
  show "file_kind ''top''" by (simp add: file_kind_def)
  show "maxima_by Slot ValueAsBigInt (topValue c) (bid # bids) =
      (if (if ''top'' = ''all'' then \<not> cached c (bidKey bid) else beats (topValue c (Slot bid)) (ValueAsBigInt bid))
       then [bid] else []) @ maxima_by Slot ValueAsBigInt (topValue (afterBid env g bid c)) bids" for c bid bids
    using top_cache.maxima_step [of c bid bids env g] by simp
qed (use assms in simp_all)

definition healthy_env :: io_env where
  "healthy_env = \<lparr>ping_ok = True, mkdir_ok = (\<lambda>_. True), open_ok = (\<lambda>_. True), stat_ok = (\<lambda>_. True),
     write_limit = (\<lambda>_. None), publish_ok = (\<lambda>_. True)\<rparr>"

definition example_opts :: BidProcessorOpts where
  "example_opts = \<lparr>UID = ''u1'', OutDir = ''out'', OutputTSV = False, RedisAddr = [], UseRedis = False\<rparr>"

definition example_processor :: BidProcessor where
  "example_processor = the (NewBidProcessor healthy_env Map.empty example_opts)"

lemma example_processor_ok:
  "files_ok healthy_env" "handles_ok example_processor" "names_ok example_processor" "is_bucket 0"
  by (simp_all add: files_ok_def healthy_env_def handles_ok_def names_ok_def is_bucket_def example_processor_def
      NewBidProcessor_def example_opts_def Let_def)

theorem bucketPath_inject_witness:
  "bucketPath example_processor ''all'' 0 \<noteq> bucketPath example_processor ''all'' 3600 \<and>
   bucketPath example_processor ''all'' 0 \<noteq> bucketPath example_processor ''top'' 0"
  using bucketPath_inject [OF example_processor_ok(3), of "''all''" "''all''" 0 3600]
    bucketPath_inject [OF example_processor_ok(3), of "''all''" "''top''" 0 0]
  by (simp add: file_kind_def is_bucket_def)

lemma example_processor_empty [simp]:
  "cached example_processor = (\<lambda>_. False)" "topValue example_processor = Map.empty"
  by (auto simp: example_processor_def NewBidProcessor_def example_opts_def cached_def topValue_def fun_eq_iff)

lemma bucketTS_example [simp]: "bucketTS (example_bid\<lparr>Value := v\<rparr>) = 0" "bucketTS example_bid = 0"
  by (simp_all add: sint_bucketTS example_bid_def signed_divide_int_def flip: sint_inject)

theorem processBids_all_file_witness:
  "disk (fst (processBids healthy_env GenesisDefault [example_bid, example_bid] example_processor))
      (bucketPath example_processor ''all'' 0) =
    Some (opened example_processor ''all'' 0 @ bidLine GenesisDefault example_processor example_bid)"
  using processBids_all_file [OF example_processor_ok, of GenesisDefault "[example_bid, example_bid]"] by simp

theorem processBids_top_file_witness:
  "disk (fst (processBids healthy_env GenesisDefault
        [example_bid, example_bid\<lparr>Value := ''7''\<rparr>, example_bid\<lparr>Value := ''9''\<rparr>] example_processor))
      (bucketPath example_processor ''top'' 0) =
    Some (opened example_processor ''top'' 0 @ bidLine GenesisDefault example_processor example_bid @
          bidLine GenesisDefault example_processor (example_bid\<lparr>Value := ''9''\<rparr>))"
proof -
  have v: "ValueAsBigInt (example_bid\<lparr>Value := int_str n\<rparr>) = n" for n by (simp add: ValueAsBigInt_def)
  have "ValueAsBigInt (example_bid\<lparr>Value := ''7''\<rparr>) = 7" "ValueAsBigInt (example_bid\<lparr>Value := ''9''\<rparr>) = 9"
    "ValueAsBigInt example_bid = 8" "Slot (example_bid\<lparr>Value := v\<rparr>) = Slot example_bid" for v
    using v [of 7] v [of 9] v [of 8] by (simp_all add: int_str_def nat_str_eval example_bid_def)
  then show ?thesis
    using processBids_top_file [OF example_processor_ok, of GenesisDefault
      "[example_bid, example_bid\<lparr>Value := ''7''\<rparr>, example_bid\<lparr>Value := ''9''\<rparr>]"]
    by (simp add: beats_def)
qed

section \<open>The top bid of a slot\<close>

text \<open>Whatever the file system does, the top bid kept for a slot is at least as valuable as every
  bid of the slot processed so far, and the top bids recorded for one slot have strictly
  increasing values.\<close>

theorem top_bid_is_maximum:
  assumes "snd (processBids env g bids c)"
  shows "(\<forall>b \<in> set bids. \<exists>t. topBidCache (fst (processBids env g bids c)) (Slot b) = Some t \<and>
      ValueAsBigInt b \<le> ValueAsBigInt t) \<and>
    sorted_wrt (<) (map ValueAsBigInt
      (filter (\<lambda>b. Slot b = slot) (maxima_by Slot ValueAsBigInt (topValue c) bids)))"
proof -
  have "\<exists>t. topBidCache (fst (processBids env g bids c)) (Slot b) = Some t \<and> ValueAsBigInt b \<le> ValueAsBigInt t"
    if "b \<in> set bids" for b
    using top_cache.best_bound [OF that, of env g c]
    unfolding processBids_fold [OF assms] by (auto simp: topValue_def)
  then show ?thesis by (simp add: sorted_maxima_by)
qed

theorem top_bid_is_maximum_witness:
  "\<exists>t. topBidCache (fst (processBids healthy_env GenesisDefault [example_bid] example_processor)) 3 = Some t \<and>
    ValueAsBigInt example_bid \<le> ValueAsBigInt t"
proof -
  have "snd (processBids healthy_env GenesisDefault [example_bid] example_processor)"
    using example_processor_ok by (intro processBids_runs)
  from top_bid_is_maximum [OF this, of 0] show ?thesis by (simp add: example_bid_def)
qed

section \<open>A bid whose files cannot be opened\<close>

text \<open>The deduplication cache is updated before the write: a new bid that arrives while its output
  directory cannot be created is marked as known, so when the file system works again and another
  relay delivers the same bid, it is still not written to the file of all bids.\<close>

theorem unwritten_bid_is_lost:
  assumes "mkdir_ok env1 = (\<lambda>_. False)" and "files_ok env2" and "handles_ok c" and "names_ok c"
    and "outFiles c (bucketTS bid) = None"
  shows "disk (fst (processBids env2 g [bid] (fst (processBids env1 g [bid] c))))
      (bucketPath c ''all'' (bucketTS bid)) = Some (opened c ''all'' (bucketTS bid))"
proof -
  let ?c1 = "afterBid env1 g bid c"
  obtain c1 isTop where 1: "updateTopBid bid c = (c1, isTop)" by fastforce
  obtain c2 isNew where 2: "updateBidCache bid c1 = (c2, isNew)" by fastforce
  let ?c3 = "publishBid env1 g bid c2"
  have "io_part ?c3 = io_part c" using io_part_updates [of env1 g bid c] by (simp add: 1 2)
  note c3 = io_part_cong [OF this]
  have "getFiles env1 bid ?c3 = (?c3\<lparr>ioCount := ioCount ?c3 + 1\<rparr>, Err)"
    using assms(1,5) by (simp add: getFiles_def c3 Let_def)
  then have "processBid env1 g bid c = (?c3\<lparr>ioCount := ioCount ?c3 + 1\<rparr>, True)"
    by (simp add: processBid_def 1 2 writeBidToFile_def)
  then have c1: "?c1 = ?c3\<lparr>ioCount := ioCount ?c3 + 1\<rparr>" and run: "fst (processBids env1 g [bid] c) = ?c1"
    by simp_all
  have "io_part ?c1 = io_part ?c3" by (simp add: c1 io_part_def)
  with \<open>io_part ?c3 = io_part c\<close> have "io_part ?c1 = io_part c" by simp
  note c1 = io_part_cong [OF this]
  have "cached ?c1 (bidKey bid)" using bid_cache.seen_store by blast
  moreover have "handles_ok ?c1" "names_ok ?c1" using assms(3,4) by (simp_all add: c1)
  ultimately show ?thesis
    using all_file_content [OF assms(2) \<open>handles_ok ?c1\<close> \<open>names_ok ?c1\<close> is_bucket_bucketTS, of g "[bid]" bid]
    by (simp add: run c1 del: processBids.simps)
qed

theorem unwritten_bid_is_lost_witness:
  "disk (fst (processBids healthy_env GenesisDefault [example_bid]
      (fst (processBids (healthy_env\<lparr>mkdir_ok := (\<lambda>_. False)\<rparr>) GenesisDefault [example_bid] example_processor))))
      (bucketPath example_processor ''all'' 0) = Some (csvHeader example_processor)"
  using unwritten_bid_is_lost [of "healthy_env\<lparr>mkdir_ok := (\<lambda>_. False)\<rparr>" healthy_env example_processor example_bid GenesisDefault]
    example_processor_ok
  by (simp add: opened_def content_def example_processor_def NewBidProcessor_def example_opts_def)

section \<open>Runs of the processor\<close>

text \<open>Both operations hold the cache lock, so a run is a sequence of whole batches and whole
  housekeeping passes, in any order and with any outcome of the external calls.\<close>

inductive bp_step :: "i64 \<Rightarrow> BidProcessor \<Rightarrow> BidProcessor \<Rightarrow> bool" for g where
  batch: "processBids env g bids c = (c', True) \<Longrightarrow> bp_step g c c'"
| clean: "housekeeping g t1 t2 c = (c', l) \<Longrightarrow> bp_step g c c'"

inductive_cases bp_stepE: "bp_step g c c'"

text \<open>The caches hold each bid under its own slot and key, and every cached slot has a top bid.\<close>

definition caches_ok :: "BidProcessor \<Rightarrow> bool" where
  "caches_ok c \<longleftrightarrow>
     (\<forall>slot m k b. bidCache c slot = Some m \<longrightarrow> m k = Some b \<longrightarrow> Slot b = slot \<and> UniqueKey b = k) \<and>
     (\<forall>slot b. topBidCache c slot = Some b \<longrightarrow> Slot b = slot) \<and>
     dom (bidCache c) \<subseteq> dom (topBidCache c)"

lemma disk_fprint: "fprint env fn s c = (c', ok) \<Longrightarrow> dom (disk c) \<subseteq> dom (disk c')"
  by (auto simp: fprint_def Let_def)

lemma disk_openOutput:
  "openOutput env fn c = (c', r) \<Longrightarrow> dom (disk c) \<subseteq> dom (disk c') \<and> (\<forall>f. r = Ok f \<longrightarrow> f = fn \<and> fn \<in> dom (disk c'))"
  by (auto simp: openOutput_def Let_def fprint_def split: if_splits)

lemma handles_mono:
  "handles_ok c \<Longrightarrow> core c' = core c \<Longrightarrow> outFiles c' = outFiles c \<Longrightarrow> dom (disk c) \<subseteq> dom (disk c') \<Longrightarrow> handles_ok c'"
  by (auto simp: handles_ok_def bucketPath_core [of c' c] subset_eq domIff)

lemma handles_getFiles:
  assumes "getFiles env bid c = (c', r)" "handles_ok c"
  shows "handles_ok c'"
proof (cases "outFiles c (bucketTS bid) = None \<and> mkdir_ok env (ioCount c)")
  case True
  let ?ts = "bucketTS bid"
  let ?c0 = "c\<lparr>ioCount := Suc (ioCount c)\<rparr>"
  obtain c1 r1 where 1: "openOutput env (bucketPath c ''all'' ?ts) ?c0 = (c1, r1)" by fastforce
  obtain c2 r2 where 2: "openOutput env (bucketPath c ''top'' ?ts) c1 = (c2, r2)" by fastforce
  note f1 = core_openOutput [OF 1] disk_openOutput [OF 1]
  note f2 = core_openOutput [OF 2] disk_openOutput [OF 2]
  have h0: "handles_ok ?c0" using assms(2) by (rule handles_mono) simp_all
  then have h1: "handles_ok c1" by (rule handles_mono) (use f1 in auto)
  then have h2: "handles_ok c2" by (rule handles_mono) (use f2 in auto)
  have p: "bucketPath c1 = bucketPath c" "bucketPath c2 = bucketPath c"
    using f1 f2 bucketPath_core [of c1 c] bucketPath_core [of c2 c] by simp_all
  have "handles_ok (c2\<lparr>outFiles := (outFiles c2)(?ts \<mapsto> \<lparr>FAll = f, FTop = h\<rparr>)\<rparr>)" if "r1 = Ok f" "r2 = Ok h" for f h
    using h2 f1 f2 that by (auto simp: handles_ok_def p subset_eq domIff)
  with True assms(1) h1 h2 show ?thesis
    by (auto simp: getFiles_def 1 2 p Let_def split: io_result.splits)
next
  case False
  with assms show ?thesis
    by (auto simp: getFiles_def Let_def handles_mono [OF assms(2)] split: option.splits if_splits)
qed

lemma handles_writeBidToFile:
  assumes "writeBidToFile env g bid isNew isTop c = (c', ok)" "handles_ok c"
  shows "handles_ok c'"
proof -
  obtain c1 r where 1: "getFiles env bid c = (c1, r)" by fastforce
  note h1 = handles_getFiles [OF 1 assms(2)]
  have f: "handles_ok x'" if "fprint env fn s x = (x', k)" "handles_ok x" for fn s x x' k
    using that(2) by (rule handles_mono) (use that(1) core_fprint disk_fprint in blast)+
  have f': "handles_ok x \<Longrightarrow> handles_ok (fst (fprint env fn s x))" for fn s x
    by (rule f [OF surjective_pairing])
  show ?thesis
    using assms(1) h1 by (auto simp: writeBidToFile_def 1 Let_def f'
        split: io_result.splits prod.splits bool.splits if_splits dest: f)
qed

lemma processBid_handles_any: "handles_ok c \<Longrightarrow> handles_ok (afterBid env g bid c)"
proof -
  assume c: "handles_ok c"
  obtain c1 isTop where 1: "updateTopBid bid c = (c1, isTop)" by fastforce
  obtain c2 isNew where 2: "updateBidCache bid c1 = (c2, isNew)" by fastforce
  obtain c4 ok where 4: "writeBidToFile env g bid isNew isTop (publishBid env g bid c2) = (c4, ok)" by fastforce
  have "io_part (publishBid env g bid c2) = io_part c" using io_part_updates [of env g bid c] by (simp add: 1 2)
  from io_part_cong(4) [OF this] c have "handles_ok (publishBid env g bid c2)" by simp
  from handles_writeBidToFile [OF 4 this] show ?thesis by (simp add: processBid_def 1 2 4)
qed

lemma caches_processBid:
  assumes "caches_ok c"
  shows "caches_ok (afterBid env g bid c)"
proof -
  let ?m = "case bidCache c (Slot bid) of None \<Rightarrow> Map.empty | Some m \<Rightarrow> m"
  have m: "?m k = Some b \<Longrightarrow> Slot b = Slot bid \<and> UniqueKey b = k" for k b
    using assms by (auto simp: caches_ok_def split: option.splits)
  have 1: "bidCache (afterBid env g bid c) =
      (bidCache c)(Slot bid \<mapsto> (if ?m (UniqueKey bid) = None then ?m(UniqueKey bid \<mapsto> bid) else ?m))"
    unfolding processBid_caches updateBidCache_def Let_def by simp
  have 2: "\<exists>t. (t = bid \<or> topBidCache c (Slot bid) = Some t) \<and>
      topBidCache (afterBid env g bid c) = (topBidCache c)(Slot bid \<mapsto> t)"
    unfolding processBid_caches updateTopBid_def
    by (cases "topBidCache c (Slot bid)") (auto simp: fun_upd_idem)
  then obtain t where t: "t = bid \<or> topBidCache c (Slot bid) = Some t"
    "topBidCache (afterBid env g bid c) = (topBidCache c)(Slot bid \<mapsto> t)" by blast
  have "Slot b = slot \<and> UniqueKey b = k"
    if "bidCache (afterBid env g bid c) slot = Some n" "n k = Some b" for slot n k b
    using that assms m unfolding 1 by (auto simp: caches_ok_def split: if_splits)
  moreover have "Slot b = slot" if "topBidCache (afterBid env g bid c) slot = Some b" for slot b
    using that assms t(1) unfolding t(2) by (auto simp: caches_ok_def split: if_splits)
  moreover have "dom (bidCache (afterBid env g bid c)) \<subseteq> dom (topBidCache (afterBid env g bid c))"
    using assms unfolding 1 t(2) by (auto simp: caches_ok_def)
  ultimately show ?thesis unfolding caches_ok_def by blast
qed

definition bp_inv :: "BidProcessor \<Rightarrow> bool" where
  "bp_inv c \<longleftrightarrow> handles_ok c \<and> caches_ok c"

lemma bp_inv_new: "NewBidProcessor env fs os = Some c \<Longrightarrow> bp_inv c"
  by (auto simp: NewBidProcessor_def bp_inv_def handles_ok_def caches_ok_def Let_def split: if_splits)

lemma bp_inv_batch [go_intros]: "bp_inv c \<Longrightarrow> bp_inv (fst (processBids env g bids c))"
proof -
  assume c: "bp_inv c"
  have "bp_inv (fold (afterBid env g) bs c)" for bs
    using c by (induction bs arbitrary: c) (simp_all add: bp_inv_def processBid_handles_any caches_processBid)
  with processBids_prefix [of bids env g c] show ?thesis by metis
qed

lemma bucketPath_bidCache [simp]: "bucketPath (c\<lparr>bidCache := m\<rparr>) = bucketPath c"
  by (simp add: fun_eq_iff bucketPath_def bucketDir_def getFilename_def)

lemma bp_inv_clean [go_intros]: "bp_inv c \<Longrightarrow> bp_inv (fst (housekeeping g t1 t2 c))"
  unfolding bp_inv_def handles_ok_def caches_ok_def housekeeping_def Let_def
  by (auto simp: subset_eq domIff split: if_splits)

text \<open>C12. Over any run from a fresh processor, with any outcome of the external calls, the caches hold
  every bid under its own slot and key, every cached slot has a top bid, and every open handle is
  the one of its hour bucket.\<close>

theorem reachable_processor_inv:
  assumes "NewBidProcessor env fs os = Some c0" and "(bp_step g)\<^sup>*\<^sup>* c0 c"
  shows "handles_ok c \<and> caches_ok c"
  using assms(2)
proof (induction rule: rtranclp_induct)
  case base
  then show ?case using bp_inv_new [OF assms(1)] by (simp add: bp_inv_def)
next
  case (step c c')
  then have c: "bp_inv c" by (simp add: bp_inv_def)
  from step.hyps(2) have "bp_inv c'"
  proof (rule bp_stepE)
    fix env bids assume "processBids env g bids c = (c', True)"
    with bp_inv_batch [OF c, of env g bids] show "bp_inv c'" by simp
  next
    fix t1 t2 l assume "housekeeping g t1 t2 c = (c', l)"
    with bp_inv_clean [OF c, of g t1 t2] show "bp_inv c'" by simp
  qed
  then show ?case by (simp add: bp_inv_def)
qed

lemma healthy_batch_step:
  "bp_step GenesisDefault example_processor
     (fst (processBids healthy_env GenesisDefault [example_bid] example_processor))"
  by (rule batch [where env = healthy_env and bids = "[example_bid]"])
    (metis processBids_runs example_processor_ok(1-3) eq_fst_iff snd_conv)

theorem reachable_processor_inv_witness:
  "handles_ok (fst (processBids healthy_env GenesisDefault [example_bid] example_processor))"
proof -
  have "NewBidProcessor healthy_env Map.empty example_opts = Some example_processor"
    by (simp add: example_processor_def NewBidProcessor_def example_opts_def)
  from reachable_processor_inv [OF this r_into_rtranclp, OF healthy_batch_step] show ?thesis by blast
qed

text \<open>The top bid of a slot is never lost and its value never decreases over any run, cleanups
  included: the cache of top bids only grows for as long as the process lives.\<close>

theorem top_bids_never_dropped:
  assumes "(bp_step g)\<^sup>*\<^sup>* c c'" and "topBidCache c slot = Some b"
  shows "\<exists>b'. topBidCache c' slot = Some b' \<and> ValueAsBigInt b \<le> ValueAsBigInt b'"
  using assms(1)
proof (induction rule: rtranclp_induct)
  case base
  then show ?case using assms(2) by simp
next
  case (step x y)
  then obtain b1 where b1: "topBidCache x slot = Some b1" "ValueAsBigInt b \<le> ValueAsBigInt b1" by blast
  from step.hyps(2) obtain b2 where "topBidCache y slot = Some b2" "ValueAsBigInt b1 \<le> ValueAsBigInt b2"
  proof (rule bp_stepE)
    fix env bids assume 1: "processBids env g bids x = (y, True)"
    then have y: "y = fold (afterBid env g) bids x" using processBids_fold [of env g bids x] by simp
    from b1(1) have "topValue x slot = Some (ValueAsBigInt b1)" by (simp add: topValue_def)
    from top_cache.best_mono [OF this, of env g bids]
    show thesis using that unfolding y by (auto simp: topValue_def)
  next
    fix t1 t2 l assume "housekeeping g t1 t2 x = (y, l)"
    then show thesis using that b1(1) by (auto simp: housekeeping_def Let_def)
  qed
  with b1 show ?case by fastforce
qed

theorem top_bids_never_dropped_witness:
  "\<exists>b'. topBidCache (fst (processBids healthy_env GenesisDefault [example_bid]
        (example_processor\<lparr>topBidCache := [1 \<mapsto> example_bid]\<rparr>))) 1 = Some b' \<and>
    ValueAsBigInt example_bid \<le> ValueAsBigInt b'"
proof (rule top_bids_never_dropped [where c = "example_processor\<lparr>topBidCache := [1 \<mapsto> example_bid]\<rparr>" and g = GenesisDefault])
  let ?c = "example_processor\<lparr>topBidCache := [1 \<mapsto> example_bid]\<rparr>"
  have "io_part ?c = io_part example_processor" by (simp add: io_part_def)
  from io_part_cong(4,5) [OF this] have "handles_ok ?c" "names_ok ?c" using example_processor_ok by simp_all
  then have "snd (processBids healthy_env GenesisDefault [example_bid] ?c)"
    by (intro processBids_runs example_processor_ok(1))
  then have "bp_step GenesisDefault ?c (fst (processBids healthy_env GenesisDefault [example_bid] ?c))"
    by (intro batch [where env = healthy_env and bids = "[example_bid]"]) (metis eq_fst_iff snd_conv)
  then show "(bp_step GenesisDefault)\<^sup>*\<^sup>* ?c (fst (processBids healthy_env GenesisDefault [example_bid] ?c))" ..
qed simp

section \<open>Housekeeping\<close>

text \<open>C13. A housekeeping pass evicts exactly the slots more than three behind the current one from the
  bid cache, keeps every top bid, closes exactly the buckets that began more than two hours ago,
  and so never closes the bucket of the current hour.\<close>

theorem housekeeping_spec:
  fixes cur slot :: u64
  assumes "cur = TimeToSlot g t1" and "3 \<le> cur" and "slot < 2 ^ 63"
    and "0 \<le> sint ts" and "0 \<le> sint (unixSec t2)"
  shows "(let c' = fst (housekeeping g t1 t2 c) in
     bidCache c' slot = (if uint slot + 3 < uint cur then None else bidCache c slot) \<and>
     topBidCache c' = topBidCache c \<and> disk c' = disk c \<and>
     outFiles c' ts = (if sint (unixSec t2) - sint ts > 7200 then None else outFiles c ts))"
proof -
  have "uint (cur - 3) = uint cur - 3" using assms(2) by (simp add: uint_minus_simple_alt)
  then have "slot < cur - 3 \<longleftrightarrow> uint slot + 3 < uint cur" by (auto simp: word_less_def)
  moreover have "sint (unixSec t2 - ts) = sint (unixSec t2) - sint ts"
    using assms(4,5) sint_range64 [of ts] sint_range64 [of "unixSec t2"] by (intro sint_i64_sub) linarith+
  ultimately show ?thesis
    by (simp add: housekeeping_def Let_def i64_less_def BucketMinutes_def flip: assms(1))
qed

theorem housekeeping_spec_witness:
  "bidCache (fst (housekeeping 0 (GoTime 1200 0) (GoTime 1200 0) example_processor)) 96 = None \<and>
   bidCache (fst (housekeeping 0 (GoTime 1200 0) (GoTime 1200 0) example_processor)) 97 = bidCache example_processor 97"
proof -
  have "TimeToSlot 0 (GoTime 1200 0) = 100" by (simp add: TimeToSlot_def i64_div_def signed_divide_int_def)
  from housekeeping_spec [OF this [symmetric], of 96 0 "GoTime 1200 0" example_processor]
    housekeeping_spec [OF this [symmetric], of 97 0 "GoTime 1200 0" example_processor]
  show ?thesis by (simp add: Let_def)
qed

text \<open>In the first three slots after genesis the threshold wraps around and everything is evicted.\<close>

lemma housekeeping_wraps:
  assumes "TimeToSlot g t1 < 3" and "slot < 2 ^ 63"
  shows "bidCache (fst (housekeeping g t1 t2 c)) slot = None"
proof -
  let ?c = "TimeToSlot g t1"
  have "uint ?c = 0 \<or> uint ?c = 1 \<or> uint ?c = 2"
  proof -
    have "uint ?c < 3" using assms(1) by (simp add: word_less_def)
    then show ?thesis using uint_ge_0 [of ?c] by arith
  qed
  then have "?c = 0 \<or> ?c = 1 \<or> ?c = 2" by (metis of_int_0 of_int_1 of_int_numeral word_of_int_uint)
  then have "2 ^ 63 \<le> ?c - 3" by (auto simp: word_le_def unsigned_minus_1_eq_mask mask_eq_exp_minus_1)
  with assms(2) have "slot < ?c - 3" by simp
  then show ?thesis by (simp add: housekeeping_def Let_def)
qed

text \<open>The number of closed files that housekeeping logs is the number it closed, negated.\<close>

theorem filesClosed_is_negated:
  assumes "finite (dom (outFiles c))"
  shows "filesClosed (snd (housekeeping g t1 t2 c)) =
    - int (card (dom (outFiles c) - dom (outFiles (fst (housekeeping g t1 t2 c)))))"
proof -
  let ?f = "outFiles (fst (housekeeping g t1 t2 c))"
  have sub: "dom ?f \<subseteq> dom (outFiles c)" by (auto simp: housekeeping_def Let_def split: if_splits)
  then have "card (dom (outFiles c) - dom ?f) = card (dom (outFiles c)) - card (dom ?f)"
    using assms finite_subset by (intro card_Diff_subset) blast+
  moreover have "card (dom ?f) \<le> card (dom (outFiles c))" using assms sub by (rule card_mono)
  ultimately show ?thesis by (simp add: housekeeping_def Let_def)
qed

theorem filesClosed_is_negated_witness:
  "filesClosed (snd (housekeeping 0 (GoTime 0 0) (GoTime 7201 0)
     (example_processor\<lparr>outFiles := [0 \<mapsto> \<lparr>FAll = ''a'', FTop = ''b''\<rparr>]\<rparr>))) = - 1"
proof -
  have "(\<lambda>ts. if i64_less 7200 (7201 - ts) then None else [0 \<mapsto> \<lparr>FAll = ''a'', FTop = ''b''\<rparr>] ts) = Map.empty"
    by (auto simp: fun_eq_iff i64_less_def)
  then show ?thesis
    using filesClosed_is_negated [of "example_processor\<lparr>outFiles := [0 \<mapsto> \<lparr>FAll = ''a'', FTop = ''b''\<rparr>]\<rparr>"
        0 "GoTime 0 0" "GoTime 7201 0"]
    by (simp add: housekeeping_def Let_def BucketMinutes_def cong: if_cong)
qed

end
