(* ===== verification/Ultrasound.thy ===== *)
theory Ultrasound
  imports CommonUtils
begin

text \<open>
  \<open>common/ultrasoundbid.go\<close> and \<open>common/ultrasoundbid_encoding.go\<close>: the bids of the
  ultrasound top-bid stream and their SSZ encoding, 188 bytes.  Go's fixed-size byte arrays
  are byte lists; their lengths are the well-formedness predicate \<open>us_bid_wf\<close>.

  The two integer primitives of the \<open>fastssz\<close> package are parameters.  What the code relies
  on is the locale \<open>ssz_uint64\<close>: \<open>MarshalUint64\<close> appends eight bytes to the buffer and
  \<open>UnmarshallUint64\<close> reads them back.  The little-endian codec that the SSZ standard
  prescribes satisfies it.
\<close>

section \<open>Little-endian numbers\<close>

fun le_nat :: "byte list \<Rightarrow> nat" where
  "le_nat [] = 0"
| "le_nat (b # bs) = unat b + 256 * le_nat bs"

fun nat_le :: "nat \<Rightarrow> nat \<Rightarrow> byte list" where
  "nat_le 0 n = []"
| "nat_le (Suc k) n = of_nat (n mod 256) # nat_le k (n div 256)"

lemma length_nat_le [simp]: "length (nat_le k n) = k"
  by (induction k arbitrary: n) auto

lemma unat_byte_less [simp]: "unat (b :: byte) < 256"
proof -
  have "unat b < 2 ^ LENGTH(8)" by (rule unsigned_less)
  then show ?thesis by simp
qed

lemma le_nat_less: "le_nat bs < 256 ^ length bs"
proof (induction bs)
  case (Cons b bs)
  have "unat b < 256" by simp
  with Cons have "unat b + 256 * le_nat bs < 256 + 256 * (256 ^ length bs - 1)" by linarith
  then show ?case by (simp add: algebra_simps)
qed simp

lemma le_nat_nat_le: "le_nat (nat_le k n) = n mod 256 ^ k"
proof (induction k arbitrary: n)
  case (Suc k)
  have "unat (of_nat (n mod 256) :: byte) = n mod 256"
    by (simp add: unat_of_nat)
  with Suc show ?case by (simp add: mod_mult2_eq)
qed simp

lemma nat_le_le_nat: "nat_le (length bs) (le_nat bs) = bs"
proof (induction bs)
  case (Cons b bs)
  have "unat b div 256 = 0" "unat b mod 256 = unat b" by simp_all
  with Cons show ?case by (simp add: div_add1_eq mod_add_eq [symmetric])
qed simp

definition le_MarshalUint64 :: "byte list \<Rightarrow> u64 \<Rightarrow> byte list" where
  "le_MarshalUint64 dst v = dst @ nat_le 8 (unat v)"

definition le_UnmarshallUint64 :: "byte list \<Rightarrow> u64" where
  "le_UnmarshallUint64 src = of_nat (le_nat (take 8 src))"

section \<open>The bid and its encoding\<close>

record UltrasoundStreamBid =
  us_Timestamp :: u64
  us_Slot :: u64
  us_BlockNumber :: u64
  us_BlockHash :: "byte list"
  us_ParentHash :: "byte list"
  us_BuilderPubkey :: "byte list"
  us_FeeRecipient :: "byte list"
  us_Value :: "byte list"

definition us_bid_wf :: "UltrasoundStreamBid \<Rightarrow> bool" where
  "us_bid_wf u \<longleftrightarrow> length (us_BlockHash u) = 32 \<and> length (us_ParentHash u) = 32 \<and>
     length (us_BuilderPubkey u) = 48 \<and> length (us_FeeRecipient u) = 20 \<and> length (us_Value u) = 32"

definition SizeSSZ :: "UltrasoundStreamBid \<Rightarrow> nat" where
  "SizeSSZ u = 188"

definition MarshalSSZTo :: "(byte list \<Rightarrow> u64 \<Rightarrow> byte list) \<Rightarrow> UltrasoundStreamBid \<Rightarrow> byte list \<Rightarrow> byte list" where
  "MarshalSSZTo MarshalUint64 u buf =
     (let dst = buf;
          dst = MarshalUint64 dst (us_Timestamp u);
          dst = MarshalUint64 dst (us_Slot u);
          dst = MarshalUint64 dst (us_BlockNumber u);
          dst = dst @ us_BlockHash u;
          dst = dst @ us_ParentHash u;
          dst = dst @ us_BuilderPubkey u;
          dst = dst @ us_FeeRecipient u;
          dst = dst @ us_Value u
      in dst)"

text \<open>\<open>buf[i:j]\<close>, and \<open>copy(dst, src)\<close>, which overwrites as many bytes as both sides have.\<close>

definition go_slice :: "nat \<Rightarrow> nat \<Rightarrow> 'a list \<Rightarrow> 'a list" where
  "go_slice i j buf = take (j - i) (drop i buf)"

definition copy_bytes :: "'a list \<Rightarrow> 'a list \<Rightarrow> 'a list" where
  "copy_bytes dst src = take (length dst) src @ drop (length src) dst"

datatype ssz_error = ErrSize

text \<open>The receiver is written in place; a buffer of the wrong size leaves it as it was.\<close>

definition UnmarshalSSZ ::
  "(byte list \<Rightarrow> u64) \<Rightarrow> UltrasoundStreamBid \<Rightarrow> byte list \<Rightarrow> UltrasoundStreamBid \<times> ssz_error option" where
  "UnmarshalSSZ UnmarshallUint64 u buf =
     (if length buf \<noteq> 188 then (u, Some ErrSize)
      else (let u = u\<lparr>us_Timestamp := UnmarshallUint64 (go_slice 0 8 buf)\<rparr>;
                u = u\<lparr>us_Slot := UnmarshallUint64 (go_slice 8 16 buf)\<rparr>;
                u = u\<lparr>us_BlockNumber := UnmarshallUint64 (go_slice 16 24 buf)\<rparr>;
                u = u\<lparr>us_BlockHash := copy_bytes (us_BlockHash u) (go_slice 24 56 buf)\<rparr>;
                u = u\<lparr>us_ParentHash := copy_bytes (us_ParentHash u) (go_slice 56 88 buf)\<rparr>;
                u = u\<lparr>us_BuilderPubkey := copy_bytes (us_BuilderPubkey u) (go_slice 88 136 buf)\<rparr>;
                u = u\<lparr>us_FeeRecipient := copy_bytes (us_FeeRecipient u) (go_slice 136 156 buf)\<rparr>;
                u = u\<lparr>us_Value := copy_bytes (us_Value u) (go_slice 156 188 buf)\<rparr>
            in (u, None)))"

text \<open>
  \<open>HashTreeRootWith\<close> drives a hash walker; the model is the sequence of calls it makes on it.
\<close>

datatype walker_op = PutUint64 u64 | PutBytes "byte list" | Merkleize nat

definition HashTreeRootWith :: "nat \<Rightarrow> UltrasoundStreamBid \<Rightarrow> walker_op list" where
  "HashTreeRootWith indx u =
     [PutUint64 (us_Timestamp u), PutUint64 (us_Slot u), PutUint64 (us_BlockNumber u),
      PutBytes (us_BlockHash u), PutBytes (us_ParentHash u), PutBytes (us_BuilderPubkey u),
      PutBytes (us_FeeRecipient u), PutBytes (us_Value u), Merkleize indx]"

text \<open>\<open>U256.String\<close>: the bytes arrive little-endian, \<open>big.Int.SetBytes\<close> reads big-endian.\<close>

definition big_SetBytes :: "byte list \<Rightarrow> nat" where
  "big_SetBytes bs = foldl (\<lambda>a b. 256 * a + unat b) 0 bs"

definition U256_String :: "byte list \<Rightarrow> string" where
  "U256_String n = nat_str (big_SetBytes (ReverseBytes n))"

section \<open>The codec's contract and its client\<close>

locale ssz_uint64 =
  fixes put :: "byte list \<Rightarrow> u64 \<Rightarrow> byte list" and get :: "byte list \<Rightarrow> u64"
  assumes put_append: "put dst v = dst @ put [] v"
    and length_put: "length (put [] v) = 8"
    and get_put: "get (put [] v) = v"
    and put_get: "length bs = 8 \<Longrightarrow> put [] (get bs) = bs"
begin

lemma marshal_eq:
  "MarshalSSZTo put u buf = buf @ put [] (us_Timestamp u) @ put [] (us_Slot u) @ put [] (us_BlockNumber u)
     @ us_BlockHash u @ us_ParentHash u @ us_BuilderPubkey u @ us_FeeRecipient u @ us_Value u"
  by (simp add: MarshalSSZTo_def Let_def put_append [of "_ @ _"] put_append [of buf])

lemma marshal_length: "us_bid_wf u \<Longrightarrow> length (MarshalSSZTo put u buf) = length buf + SizeSSZ u"
  by (simp add: marshal_eq length_put us_bid_wf_def SizeSSZ_def)

lemma unmarshal_marshal:
  assumes "us_bid_wf u" "us_bid_wf v"
  shows "UnmarshalSSZ get v (MarshalSSZTo put u []) = (u, None)"
proof -
  have "length (MarshalSSZTo put u []) = 188" using marshal_length [OF assms(1)] by (simp add: SizeSSZ_def)
  with assms show ?thesis
    unfolding UnmarshalSSZ_def
    by (simp add: marshal_eq length_put get_put us_bid_wf_def go_slice_def copy_bytes_def)
qed

lemma marshal_unmarshal:
  assumes "us_bid_wf v" "UnmarshalSSZ get v buf = (u, None)"
  shows "MarshalSSZTo put u [] = buf" and "us_bid_wf u"
proof -
  have len: "length buf = 188" using assms(2) by (auto simp: UnmarshalSSZ_def split: if_splits)
  with assms have u: "u = \<lparr>us_Timestamp = get (go_slice 0 8 buf), us_Slot = get (go_slice 8 16 buf),
      us_BlockNumber = get (go_slice 16 24 buf), us_BlockHash = go_slice 24 56 buf, us_ParentHash = go_slice 56 88 buf,
      us_BuilderPubkey = go_slice 88 136 buf, us_FeeRecipient = go_slice 136 156 buf, us_Value = go_slice 156 188 buf\<rparr>"
    by (cases v) (auto simp: UnmarshalSSZ_def Let_def copy_bytes_def us_bid_wf_def go_slice_def)
  from len show "us_bid_wf u" by (simp add: u us_bid_wf_def go_slice_def)
  have cut: "go_slice i j buf @ drop j buf = drop i buf" if "i \<le> j" for i j
    using that by (metis append_take_drop_id drop_drop le_add_diff_inverse2 go_slice_def)
  have "put [] (get (go_slice i (i + 8) buf)) = go_slice i (i + 8) buf" if "i \<le> 180" for i
    using that len by (intro put_get) (simp add: go_slice_def)
  from this [of 0] this [of 8] this [of 16] show "MarshalSSZTo put u [] = buf"
    using cut [of 0 8] cut [of 8 16] cut [of 16 24] cut [of 24 56] cut [of 56 88] cut [of 88 136]
      cut [of 136 156] cut [of 156 188] len
    by (simp add: marshal_eq u)
qed

end

interpretation le_codec: ssz_uint64 le_MarshalUint64 le_UnmarshallUint64
proof unfold_locales
  fix v :: u64
  have "unat v < 2 ^ LENGTH(64)" by (rule unsigned_less)
  then have "unat v < 256 ^ 8" by simp
  then show "le_UnmarshallUint64 (le_MarshalUint64 [] v) = v"
    by (simp add: le_UnmarshallUint64_def le_MarshalUint64_def le_nat_nat_le del: nat_le.simps)
next
  fix bs :: "byte list" assume len: "length bs = 8"
  then have "le_nat bs < 2 ^ LENGTH(64)" using le_nat_less [of bs] by simp
  then have "unat (of_nat (le_nat bs) :: u64) = le_nat bs" by (simp add: unat_of_nat)
  with len nat_le_le_nat [of bs] show "le_MarshalUint64 [] (le_UnmarshallUint64 bs) = bs"
    by (simp add: le_UnmarshallUint64_def le_MarshalUint64_def del: nat_le.simps)
qed (simp_all add: le_MarshalUint64_def)

section \<open>Properties\<close>

lemma big_SetBytes_rev: "big_SetBytes (rev bs) = le_nat bs"
  by (induction bs) (simp_all add: big_SetBytes_def)

text \<open>C35. Encoding a bid and decoding it into any well-formed receiver (the stream reader reuses one
  bid for all messages) gives the bid back, with no field of the old receiver left over; the
  encoding takes \<open>SizeSSZ\<close> bytes.  The integer primitives are any pair that satisfies the
  contract of the SSZ package.\<close>

theorem UnmarshalSSZ_MarshalSSZTo:
  assumes "ssz_uint64 put get" and "us_bid_wf u" and "us_bid_wf v"
  shows "UnmarshalSSZ get v (MarshalSSZTo put u []) = (u, None) \<and> length (MarshalSSZTo put u []) = SizeSSZ u"
  using ssz_uint64.unmarshal_marshal [OF assms] ssz_uint64.marshal_length [OF assms(1,2), of "[]"] by simp

definition example_us_bid :: UltrasoundStreamBid where
  "example_us_bid = \<lparr>us_Timestamp = 1717156924272, us_Slot = 9194409, us_BlockNumber = 19989686,
     us_BlockHash = replicate 32 1, us_ParentHash = replicate 32 2, us_BuilderPubkey = replicate 48 3,
     us_FeeRecipient = replicate 20 4, us_Value = [165, 88, 229, 34, 28, 81, 197] @ replicate 25 0\<rparr>"

theorem UnmarshalSSZ_MarshalSSZTo_witness:
  "UnmarshalSSZ le_UnmarshallUint64 (example_us_bid\<lparr>us_Slot := 5\<rparr>) (MarshalSSZTo le_MarshalUint64 example_us_bid [])
     = (example_us_bid, None)"
  using UnmarshalSSZ_MarshalSSZTo [of le_MarshalUint64 le_UnmarshallUint64 example_us_bid
      "example_us_bid\<lparr>us_Slot := 5\<rparr>"] le_codec.ssz_uint64_axioms
  by (simp add: us_bid_wf_def example_us_bid_def)

text \<open>C36. Decoding is strict: it fails exactly on the buffers that are not 188 bytes long, leaving the
  receiver alone, and a buffer it accepts is the encoding of the bid it yields, so no two
  messages decode to the same bid.\<close>

theorem UnmarshalSSZ_strict:
  assumes "ssz_uint64 put get" and "us_bid_wf v"
  shows "if length buf = 188
    then \<exists>u. UnmarshalSSZ get v buf = (u, None) \<and> us_bid_wf u \<and> MarshalSSZTo put u [] = buf
    else UnmarshalSSZ get v buf = (v, Some ErrSize)"
proof (cases "length buf = 188")
  case True
  then obtain u where u: "UnmarshalSSZ get v buf = (u, None)" by (simp add: UnmarshalSSZ_def Let_def)
  with ssz_uint64.marshal_unmarshal [OF assms u] True show ?thesis by simp
qed (simp add: UnmarshalSSZ_def)

theorem UnmarshalSSZ_strict_witness:
  "\<exists>u. UnmarshalSSZ le_UnmarshallUint64 example_us_bid (replicate 188 7) = (u, None) \<and> us_bid_wf u
     \<and> MarshalSSZTo le_MarshalUint64 u [] = replicate 188 7"
  using UnmarshalSSZ_strict [of le_MarshalUint64 le_UnmarshallUint64 example_us_bid "replicate 188 7"]
    le_codec.ssz_uint64_axioms
  by (simp add: us_bid_wf_def example_us_bid_def)

text \<open>\<open>U256.String\<close> prints the little-endian value of the bytes in decimal.\<close>

theorem U256_String_value: "U256_String n = nat_str (le_nat n)"
  by (simp add: U256_String_def ReverseBytes_rev big_SetBytes_rev)

text \<open>The vectors of \<open>ultrasoundbid_test.go\<close>.\<close>

lemma TestValueDecoding: "U256_String (us_Value example_us_bid) = ''55539751698389157''"
proof -
  have "le_nat (replicate n 0) = 0" for n by (induction n) simp_all
  then have "le_nat (us_Value example_us_bid) = 55539751698389157"
    by (simp add: example_us_bid_def)
  then show ?thesis by (simp add: U256_String_value nat_str_eval)
qed

lemma TestUltrasoundBidSSZDecoding:
  "le_UnmarshallUint64 [0x70, 0x4b, 0x87, 0xce, 0x8f, 0x01, 0, 0] = 1717156924272"
  by (simp add: le_UnmarshallUint64_def)

text \<open>What the hash walker is fed, as bytes.\<close>

fun walker_bytes :: "(byte list \<Rightarrow> u64 \<Rightarrow> byte list) \<Rightarrow> walker_op \<Rightarrow> byte list" where
  "walker_bytes put (PutUint64 v) = put [] v"
| "walker_bytes put (PutBytes bs) = bs"
| "walker_bytes put (Merkleize indx) = []"

text \<open>The hash tree root is computed over the same fields in the same order as the encoding.\<close>

theorem HashTreeRootWith_fields:
  assumes "ssz_uint64 put get"
  shows "concat (map (walker_bytes put) (HashTreeRootWith indx u)) = MarshalSSZTo put u []"
  by (simp add: HashTreeRootWith_def ssz_uint64.marshal_eq [OF assms])

theorem HashTreeRootWith_fields_witness:
  "concat (map (walker_bytes le_MarshalUint64) (HashTreeRootWith 3 example_us_bid)) =
     MarshalSSZTo le_MarshalUint64 example_us_bid []"
  by (rule HashTreeRootWith_fields) (rule le_codec.ssz_uint64_axioms)

end
