(* ===== verification/GoURL.thy ===== *)
theory GoURL
  imports GoStrings "HOL-Library.List_Lexorder" "HOL-Library.Char_ord"
begin

text \<open>
  The parts of Go's \<open>net/url\<close> that the source uses: percent escaping, \<open>ParseRequestURI\<close>,
  \<open>URL.String\<close>, \<open>Hostname\<close>, and the query values (\<open>ParseQuery\<close>, \<open>Add\<close>, \<open>Encode\<close>).  IPv6 zones
  are not modelled: a host that begins with a bracket is taken as it stands.
\<close>

section \<open>Escaping\<close>

datatype encoding = encodePath | encodeHost | encodeUserPassword | encodeQueryComponent

definition is_alpha :: "char \<Rightarrow> bool" where
  "is_alpha c = (let n = (of_char c :: nat) in 65 \<le> n \<and> n \<le> 90 \<or> 97 \<le> n \<and> n \<le> 122)"

definition is_alnum :: "char \<Rightarrow> bool" where
  "is_alnum c \<longleftrightarrow> is_alpha c \<or> is_digit c"

definition shouldEscape :: "char \<Rightarrow> encoding \<Rightarrow> bool" where
  "shouldEscape c mode =
     (if is_alnum c then False
      else if mode = encodeHost \<and> c \<in> set ''!$&()*+,;=:[]<>\"'' \<union> {CHR 0x27} then False
      else if c \<in> set ''-_.~'' then False
      else if c \<in> set ''$&+,/:;=?@'' then
        (case mode of
           encodePath \<Rightarrow> c = CHR ''?''
         | encodeUserPassword \<Rightarrow> c \<in> set ''@/?:''
         | encodeQueryComponent \<Rightarrow> True
         | encodeHost \<Rightarrow> True)
      else True)"

definition hex_char :: "nat \<Rightarrow> char" where
  "hex_char d = (if d < 10 then char_of (48 + d) else char_of (55 + d))"

definition unhex :: "char \<Rightarrow> nat option" where
  "unhex c = (let n = (of_char c :: nat) in
     if 48 \<le> n \<and> n \<le> 57 then Some (n - 48)
     else if 97 \<le> n \<and> n \<le> 102 then Some (n - 87)
     else if 65 \<le> n \<and> n \<le> 70 then Some (n - 55) else None)"

definition escape_char :: "encoding \<Rightarrow> char \<Rightarrow> string" where
  "escape_char mode c =
     (if shouldEscape c mode then
        (if c = CHR '' '' \<and> mode = encodeQueryComponent then ''+''
         else [CHR ''%'', hex_char (of_char c div 16), hex_char (of_char c mod 16)])
      else [c])"

definition url_escape :: "encoding \<Rightarrow> string \<Rightarrow> string" where
  "url_escape mode s = concat (map (escape_char mode) s)"

fun url_unescape :: "encoding \<Rightarrow> string \<Rightarrow> string option" where
  "url_unescape mode [] = Some []"
| "url_unescape mode (c # s) =
     (if c = CHR ''%'' then
        (case s of
           x # y # rest \<Rightarrow>
             (case (unhex x, unhex y) of
                (Some a, Some b) \<Rightarrow>
                  if mode = encodeHost \<and> a < 8 \<and> (x, y) \<noteq> (CHR ''2'', CHR ''5'') then None
                  else map_option ((#) (char_of (16 * a + b))) (url_unescape mode rest)
              | _ \<Rightarrow> None)
         | _ \<Rightarrow> None)
      else if mode = encodeHost \<and> (of_char c :: nat) < 128 \<and> shouldEscape c mode then None
      else map_option ((#) (if c = CHR ''+'' \<and> mode = encodeQueryComponent then CHR '' '' else c)) (url_unescape mode s))"

section \<open>URLs\<close>

record Userinfo =
  username :: string
  password :: "string option"

record URL =
  Scheme :: string
  Opaque :: string
  User :: "Userinfo option"
  Host :: string
  Path :: string
  RawPath :: string
  OmitHost :: bool
  ForceQuery :: bool
  RawQuery :: string

definition cut_at :: "char \<Rightarrow> string \<Rightarrow> string \<times> string option" where
  "cut_at c s = (takeWhile (\<lambda>x. x \<noteq> c) s,
     case dropWhile (\<lambda>x. x \<noteq> c) s of [] \<Rightarrow> None | _ # t \<Rightarrow> Some t)"

definition cut_last :: "char \<Rightarrow> string \<Rightarrow> (string \<times> string) option" where
  "cut_last c s = (if c \<in> set s
     then Some (rev (tl (dropWhile (\<lambda>x. x \<noteq> c) (rev s))), rev (takeWhile (\<lambda>x. x \<noteq> c) (rev s))) else None)"

text \<open>\<open>getScheme\<close>: \<open>None\<close> is the error of a URL that begins with a colon.\<close>

fun scheme_loop :: "string \<Rightarrow> string \<Rightarrow> string \<Rightarrow> (string \<times> string) option" where
  "scheme_loop raw acc [] = Some ([], raw)"
| "scheme_loop raw acc (c # s) =
     (if is_alpha c then scheme_loop raw (acc @ [c]) s
      else if is_digit c \<or> c \<in> set ''+-.'' then
        (if acc = [] then Some ([], raw) else scheme_loop raw (acc @ [c]) s)
      else if c = CHR '':'' then (if acc = [] then None else Some (acc, s))
      else Some ([], raw))"

definition validUserinfo :: "string \<Rightarrow> bool" where
  "validUserinfo s \<longleftrightarrow> list_all (\<lambda>c. is_alnum c \<or> c \<in> set ''-._:~!$&()*+,;=%@'' \<or> c = CHR 0x27) s"

definition parseUserinfo :: "string \<Rightarrow> Userinfo option" where
  "parseUserinfo s =
     (if \<not> validUserinfo s then None
      else case cut_at (CHR '':'') s of
        (u, None) \<Rightarrow> map_option (\<lambda>u. \<lparr>username = u, password = None\<rparr>) (url_unescape encodeUserPassword u)
      | (u, Some p) \<Rightarrow>
          (case (url_unescape encodeUserPassword u, url_unescape encodeUserPassword p) of
             (Some u, Some p) \<Rightarrow> Some \<lparr>username = u, password = Some p\<rparr>
           | _ \<Rightarrow> None))"

definition parseHost :: "string \<Rightarrow> string option" where
  "parseHost host =
     (if strings_HasPrefix host ''['' then Some host
      else case cut_last (CHR '':'') host of
        Some (h, port) \<Rightarrow> if list_all is_digit port then url_unescape encodeHost host else None
      | None \<Rightarrow> url_unescape encodeHost host)"

definition parseAuthority :: "string \<Rightarrow> (Userinfo option \<times> string) option" where
  "parseAuthority a =
     (case cut_last (CHR ''@'') a of
        None \<Rightarrow> map_option (Pair None) (parseHost a)
      | Some (ui, h) \<Rightarrow>
          (case (parseHost h, parseUserinfo ui) of
             (Some h, Some ui) \<Rightarrow> Some (Some ui, h)
           | _ \<Rightarrow> None))"

definition setPath :: "string \<Rightarrow> URL \<Rightarrow> URL option" where
  "setPath p u =
     (case url_unescape encodePath p of
        None \<Rightarrow> None
      | Some path \<Rightarrow> Some (u\<lparr>Path := path, RawPath := (if p = url_escape encodePath path then [] else p)\<rparr>))"

definition has_ctl :: "string \<Rightarrow> bool" where
  "has_ctl s \<longleftrightarrow> \<not> list_all (\<lambda>c. 32 \<le> (of_char c :: nat) \<and> (of_char c :: nat) \<noteq> 127) s"

definition empty_URL :: URL where
  "empty_URL = \<lparr>Scheme = [], Opaque = [], User = None, Host = [], Path = [], RawPath = [],
     OmitHost = False, ForceQuery = False, RawQuery = []\<rparr>"

definition parse_query_part :: "string \<Rightarrow> string \<times> bool \<times> string" where
  "parse_query_part rest =
     (if strings_HasSuffix rest ''?'' \<and> count_list rest (CHR ''?'') = 1
      then (butlast rest, True, [])
      else case cut_at (CHR ''?'') rest of (r, q) \<Rightarrow> (r, False, case q of None \<Rightarrow> [] | Some q \<Rightarrow> q))"

definition url_ParseRequestURI :: "string \<Rightarrow> URL option" where
  "url_ParseRequestURI raw =
     (if has_ctl raw \<or> raw = [] then None
      else if raw = ''*'' then Some (empty_URL\<lparr>Path := ''*''\<rparr>)
      else case scheme_loop raw [] raw of
        None \<Rightarrow> None
      | Some (scheme, rest) \<Rightarrow>
          (case parse_query_part rest of (rest, force, query) \<Rightarrow>
             let u = empty_URL\<lparr>Scheme := strings_ToLower scheme, ForceQuery := force, RawQuery := query\<rparr>
             in if \<not> strings_HasPrefix rest ''/'' then
                  (if scheme \<noteq> [] then Some (u\<lparr>Opaque := rest\<rparr>) else None)
                else if scheme \<noteq> [] \<and> strings_HasPrefix rest ''//'' then
                  (let a = drop 2 rest;
                       auth = takeWhile (\<lambda>c. c \<noteq> CHR ''/'') a;
                       path = dropWhile (\<lambda>c. c \<noteq> CHR ''/'') a
                   in case parseAuthority auth of
                        None \<Rightarrow> None
                      | Some (ui, h) \<Rightarrow> setPath path (u\<lparr>User := ui, Host := h\<rparr>))
                else setPath rest (u\<lparr>OmitHost := (scheme \<noteq> [])\<rparr>)))"

definition Userinfo_String :: "Userinfo \<Rightarrow> string" where
  "Userinfo_String ui =
     (if username ui \<noteq> [] \<or> password ui \<noteq> None
      then url_escape encodeUserPassword (username ui) @
           (case password ui of None \<Rightarrow> [] | Some p \<Rightarrow> '':'' @ url_escape encodeUserPassword p)
      else [])"

definition validEncodedPath :: "string \<Rightarrow> bool" where
  "validEncodedPath s \<longleftrightarrow>
     list_all (\<lambda>c. c \<in> set ''!$&()*+,;=:@[]%'' \<or> c = CHR 0x27 \<or> \<not> shouldEscape c encodePath) s"

definition EscapedPath :: "URL \<Rightarrow> string" where
  "EscapedPath u =
     (if RawPath u \<noteq> [] \<and> validEncodedPath (RawPath u) \<and> url_unescape encodePath (RawPath u) = Some (Path u)
      then RawPath u
      else if Path u = ''*'' then ''*''
      else url_escape encodePath (Path u))"

definition URL_String :: "URL \<Rightarrow> string" where
  "URL_String u =
     (let scheme = (if Scheme u \<noteq> [] then Scheme u @ '':'' else []);
          auth =
            (if Scheme u \<noteq> [] \<or> Host u \<noteq> [] \<or> User u \<noteq> None then
               (if OmitHost u \<and> Host u = [] \<and> User u = None then []
                else (if Host u \<noteq> [] \<or> Path u \<noteq> [] \<or> User u \<noteq> None then ''//'' else []) @
                     (case User u of None \<Rightarrow> [] | Some ui \<Rightarrow> Userinfo_String ui @ ''@'') @
                     url_escape encodeHost (Host u))
             else []);
          path = EscapedPath u;
          slash = (if path \<noteq> [] \<and> hd path \<noteq> CHR ''/'' \<and> Host u \<noteq> [] then ''/'' else []);
          dot = (if scheme @ auth @ slash = [] \<and> CHR '':'' \<in> set (fst (cut_at (CHR ''/'') path)) then ''./'' else []);
          body = (if Opaque u \<noteq> [] then Opaque u else auth @ slash @ dot @ path)
      in scheme @ body @ (if ForceQuery u \<or> RawQuery u \<noteq> [] then ''?'' @ RawQuery u else []))"

text \<open>\<open>Hostname\<close>: the host without a valid port, and without brackets.\<close>

definition Hostname :: "URL \<Rightarrow> string" where
  "Hostname u =
     (let h = (case cut_last (CHR '':'') (Host u) of
                 Some (h, port) \<Rightarrow> if list_all is_digit port then h else Host u
               | None \<Rightarrow> Host u)
      in if strings_HasPrefix h ''['' \<and> strings_HasSuffix h '']'' then butlast (tl h) else h)"

section \<open>Query values\<close>

text \<open>\<open>url.Values\<close> as a list of keys with their values; the keys are distinct.\<close>

type_synonym url_Values = "(string \<times> string list) list"

fun Values_Add :: "string \<Rightarrow> string \<Rightarrow> url_Values \<Rightarrow> url_Values" where
  "Values_Add k v [] = [(k, [v])]"
| "Values_Add k v ((k', vs) # m) = (if k = k' then (k', vs @ [v]) # m else (k', vs) # Values_Add k v m)"

definition ParseQuery :: "string \<Rightarrow> url_Values" where
  "ParseQuery q =
     foldl (\<lambda>m kv. if kv = [] \<or> CHR '';'' \<in> set kv then m
        else case cut_at (CHR ''='') kv of (k, v) \<Rightarrow>
          (case (url_unescape encodeQueryComponent k,
                 url_unescape encodeQueryComponent (case v of None \<Rightarrow> [] | Some v \<Rightarrow> v)) of
             (Some k, Some v) \<Rightarrow> Values_Add k v m
           | _ \<Rightarrow> m)) [] (strings_Split q (CHR ''&''))"

definition Values_Encode :: "url_Values \<Rightarrow> string" where
  "Values_Encode m = strings_Join
     (concat (map (\<lambda>(k, vs). map (\<lambda>v. url_escape encodeQueryComponent k @ ''='' @ url_escape encodeQueryComponent v) vs)
        (sort_key fst m))) ''&''"

end
