(* ===== verification/Relays.thy ===== *)
theory Relays
  imports GoURL
begin

text \<open>
  \<open>common/relayentry.go\<close>, the URL helpers of \<open>common/utils.go\<close> and the relay list of
  \<open>vars/relays.go\<close>.  The BLS public key type is third-party: its text decoder is the parameter
  \<open>unmarshal_key\<close>.  The lemmas follow a relay URL from its configured text to the request
  URLs built from it.
\<close>

section \<open>Request URLs\<close>

definition GetURI :: "URL \<Rightarrow> string \<Rightarrow> string" where
  "GetURI url path = URL_String (url\<lparr>User := None, Path := path\<rparr>)"

text \<open>The query arguments are a Go map: the list is the order in which the loop visits it.\<close>

definition GetURIWithQuery :: "URL \<Rightarrow> string \<Rightarrow> (string \<times> string) list \<Rightarrow> string" where
  "GetURIWithQuery url path queryArgs =
     (let u2 = url\<lparr>User := None, Path := path\<rparr>;
          q = fold (\<lambda>(key, value) q. Values_Add key value q) queryArgs (ParseQuery (RawQuery u2))
      in URL_String (u2\<lparr>RawQuery := Values_Encode q\<rparr>))"

section \<open>Relay entries\<close>

datatype 'pk relay_result = RelayOk 'pk | ErrParse | ErrMissingRelayPubkey | ErrPublicKey

record 'pk RelayEntry =
  PublicKey :: "'pk option"
  RelayURL :: URL

definition RelayEntry_String :: "'pk RelayEntry \<Rightarrow> string" where
  "RelayEntry_String r = URL_String (RelayURL r)"

definition RelayEntry_Hostname :: "'pk RelayEntry \<Rightarrow> string" where
  "RelayEntry_Hostname r = Hostname (RelayURL r)"

definition RelayEntry_GetURI :: "'pk RelayEntry \<Rightarrow> string \<Rightarrow> string" where
  "RelayEntry_GetURI r path = GetURI (RelayURL r) path"

definition Username :: "URL \<Rightarrow> string" where
  "Username u = (case User u of None \<Rightarrow> [] | Some ui \<Rightarrow> username ui)"

definition NewRelayEntry :: "(string \<Rightarrow> 'pk option) \<Rightarrow> string \<Rightarrow> bool \<Rightarrow> 'pk RelayEntry relay_result" where
  "NewRelayEntry unmarshal_key relayURL requireUser =
     (let relayURL = (if \<not> strings_HasPrefix relayURL ''http'' then ''https://'' @ relayURL else relayURL)
      in case url_ParseRequestURI relayURL of
           None \<Rightarrow> ErrParse
         | Some u \<Rightarrow>
             if requireUser \<and> Username u = [] then ErrMissingRelayPubkey
             else if Username u \<noteq> [] then
               (case unmarshal_key (Username u) of
                  None \<Rightarrow> ErrPublicKey
                | Some pk \<Rightarrow> RelayOk \<lparr>PublicKey = Some pk, RelayURL = u\<rparr>)
             else RelayOk \<lparr>PublicKey = None, RelayURL = u\<rparr>)"

text \<open>\<open>MustNewRelayEntry\<close> panics on an error.\<close>

definition MustNewRelayEntry :: "(string \<Rightarrow> 'pk option) \<Rightarrow> string \<Rightarrow> bool \<Rightarrow> 'pk RelayEntry option" where
  "MustNewRelayEntry unmarshal_key relayURL requireUser =
     (case NewRelayEntry unmarshal_key relayURL requireUser of RelayOk e \<Rightarrow> Some e | _ \<Rightarrow> None)"

definition RelayEntriesToStrings :: "'pk RelayEntry list \<Rightarrow> string list" where
  "RelayEntriesToStrings relays = map RelayEntry_String relays"

definition RelayEntriesToHostnameStrings :: "'pk RelayEntry list \<Rightarrow> string list" where
  "RelayEntriesToHostnameStrings relays = map RelayEntry_Hostname relays"

fun parse_relays :: "(string \<Rightarrow> 'pk option) \<Rightarrow> string list \<Rightarrow> 'pk RelayEntry list option" where
  "parse_relays unmarshal_key [] = Some []"
| "parse_relays unmarshal_key (s # ss) =
     (case NewRelayEntry unmarshal_key s True of
        RelayOk e \<Rightarrow> map_option ((#) e) (parse_relays unmarshal_key ss)
      | _ \<Rightarrow> None)"

definition RelayFlashbots :: string where
  "RelayFlashbots = ''https://0xac6e77dfe25ecd6110b8e780608cce0dab71fdd5ebea22a16c0205200f2f8e2e3ad3b71d3499c54ad14d6c21b41a37ae@boost-relay.flashbots.net''"

definition RelayUltrasound :: string where
  "RelayUltrasound = ''https://0xa1559ace749633b997cb3fdacffb890aeebdb0f5a3b6aaa7eeeaf1a38af0a8fe88b9e4b1f61f236d2e64d95733327a62@relay.ultrasound.money''"

definition RelayURLs :: "string list" where
  "RelayURLs =
    [RelayFlashbots, RelayUltrasound,
     ''https://0x8b5d2e73e2a3a55c6c87b8b6eb92e0149a125c852751db1422fa951e42a09b82c142c3ea98d0d9930b056a3bc9896b8f@bloxroute.max-profit.blxrbdn.com'',
     ''https://0xb0b07cd0abef743db4260b0ed50619cf6ad4d82064cb4fbec9d3ec530f7c5e6793d9f286c4e082c0244ffb9f2658fe88@bloxroute.regulated.blxrbdn.com'',
     ''https://0xb3ee7afcf27f1f1259ac1787876318c6584ee353097a50ed84f51a1f21a323b3736f271a895c7ce918c038e4265918be@relay.edennetwork.io'',
     ''https://0xa7ab7a996c8584251c8f925da3170bdfd6ebc75d50f5ddc4050a6fdc77f2a3b5fce2cc750d0865e05d7228af97d69561@agnostic-relay.net'',
     ''https://0xa15b52576bcbf1072f4a011c0f99f9fb6c66f3e1ff321f11f461d15e31b1cb359caa092c71bbded0bae5b5ea401aab7e@aestus.live'',
     ''https://0x8c4ed5e24fe5c6ae21018437bde147693f68cda427cd1122cf20819c30eda7ed74f72dece09bb313f2a1855595ab677d@titanrelay.xyz'',
     ''https://0x88ef3061f598101ca713d556cf757763d9be93d33c3092d3ab6334a36855b6b4a4020528dd533a62d25ea6648251e62e@relay.ethgas.com'',
     ''https://0xb66921e917a8f4cfc3c52e10c1e5c77b1255693d9e6ed6f5f444b71ca4bb610f2eff4fa98178efbf4dd43a30472c497e@relay.btcs.com'']"

definition GetRelays :: "(string \<Rightarrow> 'pk option) \<Rightarrow> 'pk RelayEntry list option" where
  "GetRelays unmarshal_key = parse_relays unmarshal_key RelayURLs"

section \<open>Plain text in URLs\<close>

text \<open>Letters, digits, dashes, dots and underscores stand for themselves in every part of a URL.\<close>

definition plain_char :: "char \<Rightarrow> bool" where
  "plain_char c \<longleftrightarrow> is_alnum c \<or> c \<in> set ''-_.''"

definition plain_text :: "string \<Rightarrow> bool" where
  "plain_text s \<longleftrightarrow> list_all plain_char s"

definition plain_path :: "string \<Rightarrow> bool" where
  "plain_path s \<longleftrightarrow> s \<noteq> [] \<and> hd s = CHR ''/'' \<and> list_all (\<lambda>c. plain_char c \<or> c = CHR ''/'') s"

lemma plain_not [simp]:
  "plain_char c \<Longrightarrow> c \<noteq> CHR ''%''" "plain_char c \<Longrightarrow> c \<noteq> CHR ''+''" "plain_char c \<Longrightarrow> c \<noteq> CHR ''/''"
  "plain_char c \<Longrightarrow> c \<noteq> CHR ''@''" "plain_char c \<Longrightarrow> c \<noteq> CHR '':''" "plain_char c \<Longrightarrow> c \<noteq> CHR ''?''"
  "plain_char c \<Longrightarrow> c \<noteq> CHR ''[''"
  by (auto simp: plain_char_def is_alnum_def is_alpha_def is_digit_def)

lemma special_not_plain [simp]:
  "\<not> plain_char (CHR ''%'')" "\<not> plain_char (CHR ''+'')" "\<not> plain_char (CHR ''/'')"
  "\<not> plain_char (CHR ''@'')" "\<not> plain_char (CHR '':'')" "\<not> plain_char (CHR ''?'')" "\<not> plain_char (CHR ''['')"
  by (auto simp: plain_char_def is_alnum_def is_alpha_def is_digit_def)

lemma plain_not_escaped [simp]: "plain_char c \<Longrightarrow> \<not> shouldEscape c mode"
  by (auto simp: plain_char_def shouldEscape_def)

lemma slash_not_escaped [simp]: "\<not> shouldEscape (CHR ''/'') encodePath"
  by (simp add: shouldEscape_def is_alnum_def is_alpha_def is_digit_def)

lemma url_escape_plain: "list_all (\<lambda>c. \<not> shouldEscape c mode) s \<Longrightarrow> url_escape mode s = s"
  by (induction s) (simp_all add: url_escape_def escape_char_def)

lemma url_unescape_plain:
  "list_all (\<lambda>c. \<not> shouldEscape c mode \<and> c \<noteq> CHR ''%'' \<and> c \<noteq> CHR ''+'') s \<Longrightarrow> url_unescape mode s = Some s"
  by (induction s) simp_all

lemma plain_text_escape [simp]: "plain_text s \<Longrightarrow> url_escape mode s = s"
  by (rule url_escape_plain) (auto simp: plain_text_def list_all_iff)

lemma plain_text_unescape [simp]: "plain_text s \<Longrightarrow> url_unescape mode s = Some s"
  by (rule url_unescape_plain) (auto simp: plain_text_def list_all_iff)

lemma plain_path_escape [simp]: "plain_path s \<Longrightarrow> url_escape encodePath s = s"
  by (rule url_escape_plain) (auto simp: plain_path_def list_all_iff)

lemma plain_path_unescape [simp]: "plain_path s \<Longrightarrow> url_unescape encodePath s = Some s"
  by (rule url_unescape_plain) (auto simp: plain_path_def list_all_iff)

section \<open>From the configured URL to the request\<close>

lemma takeWhile_plain: "plain_text s \<Longrightarrow> \<not> plain_char c \<Longrightarrow> takeWhile (\<lambda>x. x \<noteq> c) (s @ c # t) = s"
  by (induction s) (auto simp: plain_text_def)

lemma dropWhile_plain: "plain_text s \<Longrightarrow> \<not> plain_char c \<Longrightarrow> dropWhile (\<lambda>x. x \<noteq> c) (s @ c # t) = c # t"
  by (induction s) (auto simp: plain_text_def)

lemma plain_text_rev [simp]: "plain_text (rev s) = plain_text s"
  by (simp add: plain_text_def)

lemma plain_text_mem: "plain_text s \<Longrightarrow> \<not> plain_char c \<Longrightarrow> c \<notin> set s"
  by (auto simp: plain_text_def list_all_iff)

lemma cut_last_plain: "plain_text h \<Longrightarrow> \<not> plain_char c \<Longrightarrow> cut_last c (a @ c # h) = Some (a, h)"
  using takeWhile_plain [of "rev h" c "rev a"] dropWhile_plain [of "rev h" c "rev a"]
  by (simp add: cut_last_def)

lemma cut_last_none: "plain_text h \<Longrightarrow> \<not> plain_char c \<Longrightarrow> cut_last c h = None"
  by (simp add: cut_last_def plain_text_mem)

lemma parseHost_plain [simp]: "plain_text h \<Longrightarrow> h \<noteq> [] \<Longrightarrow> parseHost h = Some h"
  by (cases h) (auto simp: parseHost_def cut_last_none strings_HasPrefix_def plain_text_def)

lemma plain_text_takeWhile: "plain_text s \<Longrightarrow> \<not> plain_char c \<Longrightarrow> takeWhile (\<lambda>x. x \<noteq> c) s = s"
  by (auto simp: takeWhile_eq_all_conv dest: plain_text_mem)

lemma plain_text_dropWhile: "plain_text s \<Longrightarrow> \<not> plain_char c \<Longrightarrow> dropWhile (\<lambda>x. x \<noteq> c) s = []"
  by (auto simp: dropWhile_eq_Nil_conv dest: plain_text_mem)

lemma parseUserinfo_plain [simp]:
  "plain_text u \<Longrightarrow> parseUserinfo u = Some \<lparr>username = u, password = None\<rparr>"
proof -
  assume u: "plain_text u"
  then have "validUserinfo u" by (auto simp: validUserinfo_def plain_text_def list_all_iff plain_char_def)
  moreover have "cut_at (CHR '':'') u = (u, None)"
    using u by (simp add: cut_at_def plain_text_takeWhile plain_text_dropWhile)
  ultimately show ?thesis using u by (simp add: parseUserinfo_def)
qed

lemma parse_query_part_none:
  assumes "CHR ''?'' \<notin> set r"
  shows "parse_query_part r = (r, False, [])"
proof -
  have "\<not> strings_HasSuffix r ''?''" using assms by (auto simp: strings_HasSuffix_iff)
  moreover have "takeWhile (\<lambda>x. x \<noteq> CHR ''?'') r = r" "dropWhile (\<lambda>x. x \<noteq> CHR ''?'') r = []"
    using assms by (auto simp: takeWhile_eq_all_conv dropWhile_eq_Nil_conv)
  ultimately have "cut_at (CHR ''?'') r = (r, None)" unfolding cut_at_def by (simp only: list.case)
  with \<open>\<not> strings_HasSuffix r ''?''\<close> show ?thesis by (simp add: parse_query_part_def)
qed

definition relay_url :: "string \<Rightarrow> string \<Rightarrow> string" where
  "relay_url user host = ''https://'' @ user @ ''@'' @ host"

lemma parse_relay_url:
  assumes "plain_text user" "user \<noteq> []" "plain_text host" "host \<noteq> []"
  shows "url_ParseRequestURI (relay_url user host) =
    Some (empty_URL\<lparr>Scheme := ''https'', User := Some \<lparr>username = user, password = None\<rparr>, Host := host\<rparr>)"
proof -
  obtain a where a: "a = user @ ''@'' @ host" by blast
  have c: "32 \<le> (of_char c :: nat) \<and> (of_char c :: nat) \<noteq> 127" if "plain_char c" for c
    using that by (auto simp: plain_char_def is_alnum_def is_alpha_def is_digit_def Let_def)
  have 1: "\<not> has_ctl (relay_url user host)" "relay_url user host \<noteq> []" "relay_url user host \<noteq> ''*''"
    using assms c by (auto simp: has_ctl_def relay_url_def list_all_iff plain_text_def)
  have 2: "scheme_loop r [] (relay_url user host) = Some (''https'', CHR ''/'' # CHR ''/'' # a)" for r
    by (simp add: relay_url_def is_alpha_def is_digit_def a)
  have 3: "parse_query_part (CHR ''/'' # CHR ''/'' # a) = (CHR ''/'' # CHR ''/'' # a, False, [])"
    using assms plain_text_mem by (intro parse_query_part_none) (auto simp: a)
  have 4: "takeWhile (\<lambda>c. c \<noteq> CHR ''/'') a = a" "dropWhile (\<lambda>c. c \<noteq> CHR ''/'') a = []"
    using assms plain_text_mem [of _ "CHR ''/''"] by (auto simp: a takeWhile_eq_all_conv dropWhile_eq_Nil_conv)
  have 5: "parseAuthority a = Some (Some \<lparr>username = user, password = None\<rparr>, host)"
    using assms cut_last_plain [of host "CHR ''@''" user] by (simp add: parseAuthority_def a)
  have 6: "strings_ToLower ''https'' = ''https''" by (simp add: strings_ToLower_def lower_char_def)
  have 7: "strings_HasPrefix (CHR ''/'' # CHR ''/'' # a) ''/''" "strings_HasPrefix (CHR ''/'' # CHR ''/'' # a) ''//''"
    by (simp_all add: strings_HasPrefix_def)
  have 8: "setPath [] u = Some (u\<lparr>Path := [], RawPath := []\<rparr>)" for u
    by (simp add: setPath_def url_escape_def)
  show ?thesis
    by (simp add: url_ParseRequestURI_def Let_def 1 2 3 4 5 6 7 8 del: dropWhile_eq_Nil_conv)
      (simp add: empty_URL_def)
qed

text \<open>A relay URL with a public key and a plain host name is parsed to an entry with that key and
  host name, prints back as the URL, and every request URL built from it is the host and the path
  over https, without the key.\<close>

theorem NewRelayEntry_plain:
  assumes "plain_text user" "user \<noteq> []" "plain_text host" "host \<noteq> []" "unmarshal_key user = Some pk"
  shows "\<exists>e. NewRelayEntry unmarshal_key (relay_url user host) True = RelayOk e \<and>
    PublicKey e = Some pk \<and> RelayEntry_Hostname e = host \<and> RelayEntry_String e = relay_url user host \<and>
    (\<forall>path. plain_path path \<longrightarrow> RelayEntry_GetURI e path = ''https://'' @ host @ path)"
proof -
  let ?u = "empty_URL\<lparr>Scheme := ''https'', User := Some \<lparr>username = user, password = None\<rparr>, Host := host\<rparr>"
  have "NewRelayEntry unmarshal_key (relay_url user host) True = RelayOk \<lparr>PublicKey = Some pk, RelayURL = ?u\<rparr>"
    using assms parse_relay_url [of user host]
    by (simp add: NewRelayEntry_def relay_url_def strings_HasPrefix_def Username_def Let_def)
  moreover have "Hostname ?u = host"
    using assms(3,4) by (cases host) (auto simp: Hostname_def cut_last_none strings_HasPrefix_def plain_text_def)
  moreover have "URL_String ?u = relay_url user host"
    using assms by (simp add: URL_String_def empty_URL_def EscapedPath_def Userinfo_String_def relay_url_def url_escape_def [of encodePath] Let_def)
  moreover have "GetURI ?u path = ''https://'' @ host @ path" if "plain_path path" for path
  proof -
    from that have "path \<noteq> ''*''" "path \<noteq> []" "hd path = CHR ''/''" by (auto simp: plain_path_def)
    with that assms show ?thesis
      by (simp add: GetURI_def URL_String_def empty_URL_def EscapedPath_def Let_def)
  qed
  ultimately show ?thesis by (auto simp: RelayEntry_Hostname_def RelayEntry_String_def RelayEntry_GetURI_def)
qed

theorem NewRelayEntry_plain_witness:
  "\<exists>e. NewRelayEntry Some (relay_url ''0xac6e'' ''boost-relay.flashbots.net'') True = RelayOk e \<and>
    RelayEntry_Hostname e = ''boost-relay.flashbots.net'' \<and>
    RelayEntry_GetURI e ''/eth/v1/builder/status'' = ''https://boost-relay.flashbots.net/eth/v1/builder/status''"
proof -
  have 1: "plain_text ''0xac6e''" "plain_text ''boost-relay.flashbots.net''" "plain_path ''/eth/v1/builder/status''"
    by (simp_all add: plain_text_def plain_path_def plain_char_def is_alnum_def is_alpha_def is_digit_def)
  from NewRelayEntry_plain [OF 1(1) _ 1(2), of Some] 1(3) show ?thesis by force
qed

section \<open>Query strings\<close>

text \<open>The keys of a value list are distinct, and adding is lookup-and-append.\<close>

definition values_ok :: "url_Values \<Rightarrow> bool" where
  "values_ok m \<longleftrightarrow> distinct (map fst m)"

definition values_get :: "url_Values \<Rightarrow> string \<Rightarrow> string list" where
  "values_get m k = (case map_of m k of None \<Rightarrow> [] | Some vs \<Rightarrow> vs)"

lemma Values_Add_keys: "fst ` set (Values_Add k v m) = insert k (fst ` set m)"
proof (induction m)
  case (Cons x m)
  then show ?case by (cases x) (simp add: insert_commute)
qed simp

lemma Values_Add_ok [go_intros]: "values_ok m \<Longrightarrow> values_ok (Values_Add k v m)"
proof (induction m)
  case (Cons x m)
  obtain k' vs where x: "x = (k', vs)" by (cases x)
  with Cons have "values_ok (Values_Add k v m)" "k' \<notin> fst ` set m" by (auto simp: values_ok_def)
  with Cons.prems x Values_Add_keys [of k v m] show ?case by (auto simp: values_ok_def)
qed (simp add: values_ok_def)

lemma map_of_Values_Add: "map_of (Values_Add k v m) = (map_of m)(k \<mapsto> values_get m k @ [v])"
  by (induction m) (auto simp: values_get_def fun_eq_iff)

lemma values_ok_fold: "values_ok m \<Longrightarrow> values_ok (fold (\<lambda>(k, v) q. Values_Add k v q) args m)"
  by (induction args arbitrary: m) (auto intro: Values_Add_ok)

lemma map_of_fold_Values_Add:
  "distinct (map fst args) \<Longrightarrow>
   map_of (fold (\<lambda>(k, v) q. Values_Add k v q) args m) =
     (\<lambda>k. case map_of args k of None \<Rightarrow> map_of m k | Some v \<Rightarrow> Some (values_get m k @ [v]))"
proof (induction args arbitrary: m)
  case (Cons x args)
  obtain k v where x: "x = (k, v)" by (cases x)
  with Cons.prems have k: "map_of args k = None" by (simp add: map_of_eq_None_iff)
  from Cons x k show ?case
    by (auto simp: fun_eq_iff map_of_Values_Add values_get_def split: option.splits)
qed (simp add: fun_eq_iff)

lemma Values_Encode_cong:
  assumes "values_ok m" "values_ok n" "map_of m = map_of n"
  shows "Values_Encode m = Values_Encode n"
proof -
  have "set m = set n" using assms map_of_inject_set [of m n] by (simp add: values_ok_def)
  moreover have "distinct m" "distinct n" using assms by (auto simp: values_ok_def distinct_map)
  ultimately have "mset m = mset n" by (simp add: set_eq_iff_mset_eq_distinct)
  then have "mset (sort_key fst m) = mset (sort_key fst n)" by simp
  moreover have "inj_on fst (set m)" using assms(1) by (simp add: values_ok_def distinct_map)
  ultimately have "sort_key fst m = sort_key fst n"
    using \<open>mset m = mset n\<close> by (intro sort_key_inj_key_eq) simp_all
  then show ?thesis by (simp add: Values_Encode_def)
qed

lemma ParseQuery_ok: "values_ok (ParseQuery q)"
proof -
  have foldl_ok: "(\<And>m x. values_ok m \<Longrightarrow> values_ok (f m x)) \<Longrightarrow> values_ok m \<Longrightarrow> values_ok (foldl f m xs)"
    for f :: "url_Values \<Rightarrow> string \<Rightarrow> url_Values" and m xs
    by (induction xs arbitrary: m) simp_all
  show ?thesis
    unfolding ParseQuery_def
  proof (rule foldl_ok)
    show "values_ok []" by (simp add: values_ok_def)
  qed (auto split: prod.splits option.splits intro: Values_Add_ok)
qed

text \<open>The request URL does not depend on the order in which the map of query arguments is visited.\<close>

theorem GetURIWithQuery_order:
  assumes "distinct (map fst a)" and "mset a = mset b"
  shows "GetURIWithQuery url path a = GetURIWithQuery url path b"
proof -
  have "distinct (map fst b)" using assms by (metis distinct_map mset_eq_imp_distinct_iff set_mset_mset mset_map)
  moreover have "map_of a = map_of b"
    using assms \<open>distinct (map fst b)\<close> map_of_inject_set [of a b] by (metis set_mset_mset)
  ultimately have "Values_Encode (fold (\<lambda>(k, v) q. Values_Add k v q) a (ParseQuery q)) =
      Values_Encode (fold (\<lambda>(k, v) q. Values_Add k v q) b (ParseQuery q))" for q
    using assms(1) by (intro Values_Encode_cong values_ok_fold ParseQuery_ok) (simp add: map_of_fold_Values_Add)
  then show ?thesis by (simp add: GetURIWithQuery_def Let_def)
qed

text \<open>The query of the data API poller.\<close>

lemma GetURIWithQuery_slot:
  assumes "plain_text user" "plain_text host" "host \<noteq> []" "plain_path path" "plain_text v"
  shows "GetURIWithQuery (empty_URL\<lparr>Scheme := ''https'', User := Some \<lparr>username = user, password = None\<rparr>, Host := host\<rparr>)
      path [(''slot'', v)] = ''https://'' @ host @ path @ ''?slot='' @ v"
proof -
  have "path \<noteq> ''*''" "path \<noteq> []" "hd path = CHR ''/''" using assms(4) by (auto simp: plain_path_def)
  moreover have "plain_text ''slot''" by (simp add: plain_text_def plain_char_def is_alnum_def is_alpha_def)
  moreover have "ParseQuery [] = []" by (simp add: ParseQuery_def)
  ultimately show ?thesis
    using assms by (simp add: GetURIWithQuery_def URL_String_def empty_URL_def EscapedPath_def Values_Encode_def Let_def)
qed

theorem GetURIWithQuery_order_witness:
  "GetURIWithQuery empty_URL ''/p'' [(''b'', ''1''), (''a'', ''2'')] =
   GetURIWithQuery empty_URL ''/p'' [(''a'', ''2''), (''b'', ''1'')]"
  by (rule GetURIWithQuery_order) simp_all

end
