(* ===== verification/HttpRequest.thy ===== *)
theory HttpRequest
  imports GoURL
begin

text \<open>
  \<open>common/request.go\<close>: the one function that performs HTTP requests.  Encoding, decoding, the
  validity of a request and the transport are parameters; the definition is the control flow
  around them, with every error branch, and the panic of a nil request.
\<close>

section \<open>The request\<close>

record request =
  reqMethod :: string
  reqURL :: string
  reqBody :: "string option"
  reqHeaders :: "(string \<times> string) list"

text \<open>A response with its body; reading the body may fail.\<close>

record response =
  StatusCode :: int
  Body :: "string + string"

text \<open>The error values, each with the message of the error it wraps.\<close>

datatype http_error =
    ErrMarshalRequest string
  | ErrPrepareRequest string
  | ErrTransport string
  | ErrReadErrorBody int string
  | ErrHTTPErrorResponse int string
  | ErrReadBody string
  | ErrUnmarshalResponse string string

fun http_error_text :: "http_error \<Rightarrow> string" where
  "http_error_text (ErrMarshalRequest e) = ''could not marshal request: '' @ e"
| "http_error_text (ErrPrepareRequest e) = ''could not prepare request: '' @ e"
| "http_error_text (ErrTransport e) = e"
| "http_error_text (ErrReadErrorBody code e) =
     ''could not read error response body for status code '' @ int_str code @ '': '' @ e"
| "http_error_text (ErrHTTPErrorResponse code body) =
     ''HTTP error response: '' @ int_str code @ '' / '' @ body"
| "http_error_text (ErrReadBody e) = ''could not read response body: '' @ e"
| "http_error_text (ErrUnmarshalResponse body e) = ''could not unmarshal response '' @ body @ '': '' @ e"

datatype 'a go_call = Returned 'a | Panicked

text \<open>What runs outside the source: sums are an error message or a value.  Decoding may change the
  destination even when it fails.\<close>

record ('p, 'd) http_env =
  json_Marshal :: "'p \<Rightarrow> string + string"
  invalid_request :: "string \<Rightarrow> string \<Rightarrow> string option"
  client_Do :: "request \<Rightarrow> string + response"
  json_Unmarshal :: "string \<Rightarrow> 'd \<Rightarrow> 'd \<times> string option"

definition handle_response ::
    "('p, 'd) http_env \<Rightarrow> response \<Rightarrow> 'd option \<Rightarrow> int \<times> http_error option \<times> 'd option" where
  "handle_response env resp dst =
     (let code = StatusCode resp in
      if code = 204 then (code, None, dst)
      else if code > 299 then
        (case Body resp of
           Inl e \<Rightarrow> (code, Some (ErrReadErrorBody code e), dst)
         | Inr body \<Rightarrow> (code, Some (ErrHTTPErrorResponse code body), dst))
      else
        (case Body resp of
           Inl e \<Rightarrow> (code, Some (ErrReadBody e), dst)
         | Inr body \<Rightarrow>
             (case dst of
                None \<Rightarrow> (code, None, None)
              | Some d \<Rightarrow>
                  (case json_Unmarshal env body d of
                     (d', None) \<Rightarrow> (code, None, Some d')
                   | (d', Some e) \<Rightarrow> (code, Some (ErrUnmarshalResponse body e), Some d')))))"

definition execute_request ::
    "('p, 'd) http_env \<Rightarrow> request \<Rightarrow> 'd option \<Rightarrow> int \<times> http_error option \<times> 'd option" where
  "execute_request env req dst =
     (case client_Do env req of
        Inl e \<Rightarrow> (0, Some (ErrTransport e), dst)
      | Inr resp \<Rightarrow> handle_response env resp dst)"

definition SendHTTPRequest ::
    "('p, 'd) http_env \<Rightarrow> string \<Rightarrow> string \<Rightarrow> 'p option \<Rightarrow> 'd option \<Rightarrow>
     (int \<times> http_error option \<times> 'd option) go_call" where
  "SendHTTPRequest env meth url payload dst =
     (case payload of
        None \<Rightarrow>
          (case invalid_request env meth url of
             Some e \<Rightarrow> Returned (0, Some (ErrPrepareRequest e), dst)
           | None \<Rightarrow> Returned (execute_request env
                 \<lparr>reqMethod = meth, reqURL = url, reqBody = None, reqHeaders = []\<rparr> dst))
      | Some p \<Rightarrow>
          (case json_Marshal env p of
             Inl e \<Rightarrow> Returned (0, Some (ErrMarshalRequest e), dst)
           | Inr bs \<Rightarrow>
               (case invalid_request env meth url of
                  Some e \<Rightarrow> Panicked
                | None \<Rightarrow> Returned (execute_request env
                      \<lparr>reqMethod = meth, reqURL = url, reqBody = Some bs,
                       reqHeaders = [(''Content-Type'', ''application/json'')]\<rparr> dst))))"

section \<open>What a result means\<close>

text \<open>When the call returns no error, the transport delivered a response with that status code, at
  most 299, and the destination is either untouched (no content) or decoded from its body.\<close>

theorem SendHTTPRequest_success:
  assumes "SendHTTPRequest env meth url payload (Some d) = Returned (code, None, dst)"
  shows "\<exists>req resp. reqURL req = url \<and> reqMethod req = meth \<and> client_Do env req = Inr resp \<and>
    StatusCode resp = code \<and> code \<le> 299 \<and>
    (code = 204 \<and> dst = Some d \<or>
     (\<exists>body d'. code \<noteq> 204 \<and> Body resp = Inr body \<and> json_Unmarshal env body d = (d', None) \<and> dst = Some d'))"
proof -
  have resp: "StatusCode resp = code \<and> code \<le> 299 \<and>
    (code = 204 \<and> dst = Some d \<or>
     (\<exists>body d'. code \<noteq> 204 \<and> Body resp = Inr body \<and> json_Unmarshal env body d = (d', None) \<and> dst = Some d'))"
    if "handle_response env resp (Some d) = (code, None, dst)" for resp
    using that by (auto simp: handle_response_def Let_def split: if_splits sum.splits prod.splits option.splits)
  obtain req where req: "reqURL req = url" "reqMethod req = meth" "execute_request env req (Some d) = (code, None, dst)"
    using assms by (auto simp: SendHTTPRequest_def split: option.splits sum.splits intro!: that)
  then obtain r where "client_Do env req = Inr r" "handle_response env r (Some d) = (code, None, dst)"
    by (auto simp: execute_request_def split: sum.splits)
  with req resp show ?thesis by blast
qed

definition example_http :: "(string, string) http_env" where
  "example_http = \<lparr>json_Marshal = Inr, invalid_request = (\<lambda>_ url. if url = [] then Some ''empty url'' else None),
     client_Do = (\<lambda>_. Inr \<lparr>StatusCode = 200, Body = Inr ''ok''\<rparr>), json_Unmarshal = (\<lambda>b _. (b, None))\<rparr>"

theorem SendHTTPRequest_success_witness:
  "\<exists>req resp. reqURL req = ''u'' \<and> reqMethod req = ''GET'' \<and> client_Do example_http req = Inr resp \<and> StatusCode resp = 200"
proof -
  have "SendHTTPRequest example_http ''GET'' ''u'' None (Some []) = Returned (200, None, Some ''ok'')"
    by (simp add: SendHTTPRequest_def example_http_def execute_request_def handle_response_def)
  from SendHTTPRequest_success [OF this] show ?thesis by blast
qed

text \<open>Without a payload the call never panics; with one, it panics exactly when the payload can be
  encoded and the request cannot be built, because the content type is set before the error of
  building the request is looked at.\<close>

theorem SendHTTPRequest_panics:
  "SendHTTPRequest env meth url payload dst = Panicked \<longleftrightarrow>
    (\<exists>p bs e. payload = Some p \<and> json_Marshal env p = Inr bs \<and> invalid_request env meth url = Some e)"
  by (auto simp: SendHTTPRequest_def split: option.splits sum.splits)

lemma SendHTTPRequest_panics_example:
  "SendHTTPRequest example_http ''POST'' [] (Some ''body'') None = Panicked"
  "SendHTTPRequest example_http ''POST'' [] None None = Returned (0, Some (ErrPrepareRequest ''empty url''), None)"
  by (simp_all add: SendHTTPRequest_def example_http_def)

text \<open>A status above 299 is always an error that names the status.\<close>

lemma SendHTTPRequest_error_status:
  assumes "invalid_request env meth url = None"
    and "client_Do env \<lparr>reqMethod = meth, reqURL = url, reqBody = None, reqHeaders = []\<rparr> = Inr resp"
    and "StatusCode resp > 299"
  shows "\<exists>e. SendHTTPRequest env meth url None dst = Returned (StatusCode resp, Some e, dst) \<and>
    (e = ErrHTTPErrorResponse (StatusCode resp) (projr (Body resp)) \<or> (\<exists>m. e = ErrReadErrorBody (StatusCode resp) m))"
  using assms by (auto simp: SendHTTPRequest_def execute_request_def handle_response_def Let_def split: sum.splits)

end
