(* ===== verification/BidSources.thy ===== *)
theory BidSources
  imports BidProcessor Ultrasound Relays HttpRequest
begin

text \<open>
  The three sources of bids of \<open>services/bidcollect\<close>: \<open>data-api-poller.go\<close>,
  \<open>getheader-poller.go\<close> and \<open>ultrasound-stream.go\<close>.  Each is a state machine that turns what it
  receives into messages on a channel, with the conversion of its messages to common bids.
  Sleeping is an output (the duration); the time read from the clock, the answers of relays and
  of the beacon node, and the websocket events are inputs.
\<close>

section \<open>The data API poller\<close>

text \<open>The fields of the relay's answer (\<open>BidTraceV2WithTimestampJSON\<close>) that the source reads.\<close>

record BidTrace =
  bt_Slot :: u64
  bt_ParentHash :: string
  bt_BlockHash :: string
  bt_BuilderPubkey :: string
  bt_ProposerPubkey :: string
  bt_ProposerFeeRecipient :: string
  bt_Value :: string
  bt_BlockNumber :: u64
  bt_Timestamp :: i64
  bt_TimestampMs :: i64
  bt_OptimisticSubmission :: bool

record 'pk DataAPIPollerBidsMsg =
  da_Bids :: "BidTrace list"
  da_Relay :: "'pk RelayEntry"
  da_ReceivedAt :: gotime

text \<open>The offsets, relative to the start of the next slot, at which it is polled.\<close>

definition poll_offsets :: "duration list" where
  "poll_offsets = [- 4 * dur_Second, - 2 * dur_Second, - 500 * dur_Millisecond,
     500 * dur_Millisecond, 2 * dur_Second, 20 * dur_Second]"

text \<open>One round of the loop at the given time: the polls it schedules and how long it sleeps.\<close>

definition schedule_round :: "i64 \<Rightarrow> gotime \<Rightarrow> (u64 \<times> duration) list \<times> duration" where
  "schedule_round genesis now =
     (let slot = TimeToSlot genesis now;
          nextSlot = slot + 1;
          tNextSlot = SlotToTime genesis nextSlot;
          untilNextSlot = time_Sub tNextSlot now
      in (map (Pair nextSlot) poll_offsets, untilNextSlot))"

text \<open>The loop, for the clock readings at the start of its rounds.\<close>

fun poller_rounds :: "i64 \<Rightarrow> gotime list \<Rightarrow> (u64 \<times> duration) list" where
  "poller_rounds genesis [] = []"
| "poller_rounds genesis (now # nows) = fst (schedule_round genesis now) @ poller_rounds genesis nows"

text \<open>How long a scheduled poll waits; \<open>None\<close> when its time has passed and it is dropped.\<close>

definition pollRelaysForBids :: "i64 \<Rightarrow> gotime \<Rightarrow> u64 \<Rightarrow> duration \<Rightarrow> duration option" where
  "pollRelaysForBids genesis now slot tOffset =
     (let tSlotStart = SlotToTime genesis slot;
          tStart = time_Add tSlotStart tOffset;
          waitTime = time_Sub tStart now
      in if i64_less waitTime 0 then None else Some waitTime)"

text \<open>One relay: the query and the message sent when it is answered.\<close>

definition data_api_url :: "'pk RelayEntry \<Rightarrow> u64 \<Rightarrow> string" where
  "data_api_url relay slot =
     GetURIWithQuery (RelayURL relay) ''/relay/v1/data/bidtraces/builder_blocks_received'' [(''slot'', u64_str slot)]"

definition pollRelayForBids ::
    "(unit, BidTrace list) http_env \<Rightarrow> gotime \<Rightarrow> u64 \<Rightarrow> 'pk RelayEntry \<Rightarrow> 'pk DataAPIPollerBidsMsg option" where
  "pollRelayForBids http now slot relay =
     (case SendHTTPRequest http ''GET'' (data_api_url relay slot) None (Some []) of
        Returned (code, None, Some bids) \<Rightarrow> Some \<lparr>da_Bids = bids, da_Relay = relay, da_ReceivedAt = now\<rparr>
      | _ \<Rightarrow> None)"

definition DataAPIToCommonBid :: "'pk DataAPIPollerBidsMsg \<Rightarrow> BidTrace \<Rightarrow> CommonBid" where
  "DataAPIToCommonBid bids bid =
     (let bidTimestampMs =
        (if bt_TimestampMs bid = 0 \<and> i64_less 0 (bt_Timestamp bid) then bt_Timestamp bid * 1000 else bt_TimestampMs bid)
      in \<lparr>SourceType = SourceTypeDataAPI, ReceivedAtMs = time_UnixMilli (da_ReceivedAt bids),
          Slot = bt_Slot bid, BlockNumber = bt_BlockNumber bid,
          BlockHash = strings_ToLower (bt_BlockHash bid), ParentHash = strings_ToLower (bt_ParentHash bid),
          BuilderPubkey = strings_ToLower (bt_BuilderPubkey bid), Value = bt_Value bid,
          BlockFeeRecipient = [], Relay = RelayEntry_Hostname (da_Relay bids),
          TimestampMs = bidTimestampMs, ProposerPubkey = strings_ToLower (bt_ProposerPubkey bid),
          ProposerFeeRecipient = strings_ToLower (bt_ProposerFeeRecipient bid),
          OptimisticSubmission = bt_OptimisticSubmission bid\<rparr>)"

definition DataAPIToCommonBids :: "'pk DataAPIPollerBidsMsg \<Rightarrow> CommonBid list" where
  "DataAPIToCommonBids bids = map (DataAPIToCommonBid bids) (da_Bids bids)"

section \<open>The getHeader poller\<close>

record GetHeaderResponse =
  gh_BlockNumber :: u64
  gh_BlockHash :: string
  gh_ParentHash :: string
  gh_Value :: string

record 'pk GetHeaderPollerBidsMsg =
  gm_Slot :: u64
  gm_Bid :: GetHeaderResponse
  gm_Relay :: "'pk RelayEntry"
  gm_ReceivedAt :: gotime

record GetHeaderState =
  headSlot :: u64
  lastDutyUpdateEpoch :: u64
  duties :: "(u64 \<times> string) list"

text \<open>What the beacon node answers while a head event is handled: the proposer duties of an epoch
  and the slot and block hash of the head block.\<close>

record beacon =
  bn_GetProposerDuties :: "u64 \<Rightarrow> (u64 \<times> string) list option"
  bn_GetBlockHead :: "(u64 \<times> string) option"

definition SlotsPerEpoch :: u64 where
  "SlotsPerEpoch = 32"

definition initial_GetHeaderState :: GetHeaderState where
  "initial_GetHeaderState = \<lparr>headSlot = 0, lastDutyUpdateEpoch = 0, duties = []\<rparr>"

text \<open>A Go map as the assignments made to it, the last one first; a missing key reads as empty.\<close>

definition duty :: "(u64 \<times> string) list \<Rightarrow> u64 \<Rightarrow> string" where
  "duty ds slot = (case map_of ds slot of None \<Rightarrow> [] | Some pk \<Rightarrow> pk)"

text \<open>The polls: slot, parent hash and proposer key.\<close>

type_synonym gh_poll = "u64 \<times> string \<times> string"

definition updateDuties :: "beacon \<Rightarrow> u64 \<Rightarrow> GetHeaderState \<Rightarrow> GetHeaderState option" where
  "updateDuties bn currentEpoch st =
     (if duties st = [] \<or> lastDutyUpdateEpoch st < currentEpoch then
        (case bn_GetProposerDuties bn currentEpoch of
           None \<Rightarrow> None
         | Some ds \<Rightarrow>
             let ds' = (case bn_GetProposerDuties bn (currentEpoch + 1) of None \<Rightarrow> [] | Some ds' \<Rightarrow> ds')
             in Some (st\<lparr>duties := rev ds' @ rev ds, lastDutyUpdateEpoch := currentEpoch\<rparr>))
      else Some st)"

definition handleHeadEvent :: "beacon \<Rightarrow> u64 \<Rightarrow> GetHeaderState \<Rightarrow> GetHeaderState \<times> gh_poll option" where
  "handleHeadEvent bn eventSlot st =
     (if eventSlot \<le> headSlot st then (st, None)
      else let st = st\<lparr>headSlot := eventSlot\<rparr>;
               nextSlot = eventSlot + 1;
               currentEpoch = eventSlot div SlotsPerEpoch
           in case updateDuties bn currentEpoch st of
                None \<Rightarrow> (st, None)
              | Some st \<Rightarrow>
                  (case bn_GetBlockHead bn of
                     None \<Rightarrow> (st, None)
                   | Some (bnSlot, blockHash) \<Rightarrow>
                       if bnSlot \<noteq> eventSlot then (st, None)
                       else if duty (duties st) nextSlot = [] then (st, None)
                       else (st, Some (nextSlot, blockHash, duty (duties st) nextSlot))))"

fun head_events :: "(beacon \<times> u64) list \<Rightarrow> GetHeaderState \<Rightarrow> GetHeaderState \<times> gh_poll list" where
  "head_events [] st = (st, [])"
| "head_events ((bn, slot) # evs) st =
     (case handleHeadEvent bn slot st of (st', poll) \<Rightarrow>
      case head_events evs st' of (st'', polls) \<Rightarrow> (st'', (case poll of None \<Rightarrow> [] | Some p \<Rightarrow> [p]) @ polls))"

text \<open>A poll sleeps until its time, or is dropped when that has passed, and then asks every relay.\<close>

definition getheader_pollRelaysForBids :: "i64 \<Rightarrow> gotime \<Rightarrow> duration \<Rightarrow> gh_poll \<Rightarrow> 'pk RelayEntry list \<Rightarrow> (duration \<times> ('pk RelayEntry \<times> gh_poll) list) option" where
  "getheader_pollRelaysForBids genesis now tOffset poll relays =
     map_option (\<lambda>waitTime. (waitTime, map (\<lambda>relay. (relay, poll)) relays)) (pollRelaysForBids genesis now (fst poll) tOffset)"

text \<open>\<open>Start\<close>: without a synced beacon node the process ends.\<close>

definition getheader_start :: "(string + bool \<times> u64) \<Rightarrow> GetHeaderState option" where
  "getheader_start syncStatus =
     (case syncStatus of Inl _ \<Rightarrow> None | Inr (isSyncing, _) \<Rightarrow> if isSyncing then None else Some initial_GetHeaderState)"

definition getheader_url :: "'pk RelayEntry \<Rightarrow> gh_poll \<Rightarrow> string" where
  "getheader_url relay = (\<lambda>(slot, parentHash, proposerPubkey).
     RelayEntry_GetURI relay (''/eth/v1/builder/header/'' @ u64_str slot @ ''/'' @ parentHash @ ''/'' @ proposerPubkey))"

datatype 'a poll_outcome = NoBid | RateLimited | LoggedError int http_error | BidReceived 'a

definition getHeaderFromRelay ::
    "(unit, GetHeaderResponse) http_env \<Rightarrow> gotime \<Rightarrow> 'pk RelayEntry \<Rightarrow> gh_poll \<Rightarrow> 'pk GetHeaderPollerBidsMsg poll_outcome go_call" where
  "getHeaderFromRelay http now relay poll =
     (case SendHTTPRequest http ''GET'' (getheader_url relay poll) None
         (Some \<lparr>gh_BlockNumber = 0, gh_BlockHash = [], gh_ParentHash = [], gh_Value = ''0''\<rparr>) of
        Panicked \<Rightarrow> Panicked
      | Returned (code, Some e, _) \<Rightarrow>
          let msg = http_error_text e in
          Returned
            (if strings_Contains msg ''no builder bid'' then NoBid
             else if strings_Contains msg
                 ''Too many getHeader requests! Use relay-analytics.ultrasound.money or the Websocket API'' then NoBid
             else if code = 429 then RateLimited
             else LoggedError code e)
      | Returned (code, None, bid) \<Rightarrow>
          Returned (if code \<noteq> 200 then NoBid
            else BidReceived \<lparr>gm_Slot = fst poll, gm_Bid = the bid, gm_Relay = relay, gm_ReceivedAt = now\<rparr>))"

definition GetHeaderToCommonBid :: "'pk GetHeaderPollerBidsMsg \<Rightarrow> CommonBid" where
  "GetHeaderToCommonBid bid =
     \<lparr>SourceType = SourceTypeGetHeader, ReceivedAtMs = time_UnixMilli (gm_ReceivedAt bid),
      Slot = gm_Slot bid, BlockNumber = gh_BlockNumber (gm_Bid bid),
      BlockHash = strings_ToLower (gh_BlockHash (gm_Bid bid)),
      ParentHash = strings_ToLower (gh_ParentHash (gm_Bid bid)), BuilderPubkey = [],
      Value = gh_Value (gm_Bid bid), BlockFeeRecipient = [], Relay = RelayEntry_Hostname (gm_Relay bid),
      TimestampMs = 0, ProposerPubkey = [], ProposerFeeRecipient = [], OptimisticSubmission = False\<rparr>"

section \<open>The ultrasound stream\<close>

record UltrasoundStreamBidsMsg =
  um_Bid :: UltrasoundStreamBid
  um_Relay :: string
  um_ReceivedAt :: gotime

datatype stream_phase = Dialing | Streaming UltrasoundStreamBid | Waiting

record UltrasoundStreamConnection =
  phase :: stream_phase
  backoffSec :: int

definition zero_bid :: UltrasoundStreamBid where
  "zero_bid = \<lparr>us_Timestamp = 0, us_Slot = 0, us_BlockNumber = 0, us_BlockHash = replicate 32 0,
     us_ParentHash = replicate 32 0, us_BuilderPubkey = replicate 48 0, us_FeeRecipient = replicate 20 0,
     us_Value = replicate 32 0\<rparr>"

definition NewUltrasoundStreamConnection :: UltrasoundStreamConnection where
  "NewUltrasoundStreamConnection = \<lparr>phase = Dialing, backoffSec = InitialBackoffSec\<rparr>"

datatype stream_event = DialFailed | DialSucceeded | ReadFailed | Message "byte list" gotime | SleepOver
datatype stream_output = Sleep int | Send UltrasoundStreamBidsMsg

text \<open>\<open>connect\<close> is the phases \<open>Dialing\<close> and \<open>Streaming\<close>, \<open>reconnect\<close> the phase \<open>Waiting\<close>, entered with
  its sleep.  Events that cannot happen in a phase leave it as it is.\<close>

fun stream_step ::
    "(byte list \<Rightarrow> u64) \<Rightarrow> stream_event \<Rightarrow> UltrasoundStreamConnection \<Rightarrow> UltrasoundStreamConnection \<times> stream_output list" where
  "stream_step get ev st =
     (case (phase st, ev) of
        (Dialing, DialFailed) \<Rightarrow> (st\<lparr>phase := Waiting\<rparr>, [Sleep (backoffSec st)])
      | (Dialing, DialSucceeded) \<Rightarrow> (st\<lparr>phase := Streaming zero_bid, backoffSec := InitialBackoffSec\<rparr>, [])
      | (Streaming bid, ReadFailed) \<Rightarrow> (st\<lparr>phase := Waiting\<rparr>, [Sleep (backoffSec st)])
      | (Streaming bid, Message msg now) \<Rightarrow>
          (case UnmarshalSSZ get bid msg of
             (bid, Some e) \<Rightarrow> (st\<lparr>phase := Streaming bid\<rparr>, [])
           | (bid, None) \<Rightarrow> (st\<lparr>phase := Streaming bid\<rparr>,
               [Send \<lparr>um_Bid = bid, um_Relay = ''relay.ultrasound.money'', um_ReceivedAt = now\<rparr>]))
      | (Waiting, SleepOver) \<Rightarrow>
          (let b = backoffSec st * 2
           in (st\<lparr>phase := Dialing, backoffSec := (if b > MaxBackoffSec then MaxBackoffSec else b)\<rparr>, []))
      | _ \<Rightarrow> (st, []))"

declare stream_step.simps [simp del]

fun stream_run ::
    "(byte list \<Rightarrow> u64) \<Rightarrow> stream_event list \<Rightarrow> UltrasoundStreamConnection \<Rightarrow> UltrasoundStreamConnection \<times> stream_output list" where
  "stream_run get [] st = (st, [])"
| "stream_run get (ev # evs) st =
     (case stream_step get ev st of (st', out) \<Rightarrow>
      case stream_run get evs st' of (st'', out') \<Rightarrow> (st'', out @ out'))"

definition UltrasoundStreamToCommonBid :: "(byte list \<Rightarrow> string) \<Rightarrow> UltrasoundStreamBidsMsg \<Rightarrow> CommonBid" where
  "UltrasoundStreamToCommonBid hex bid =
     (let b = um_Bid bid in
      \<lparr>SourceType = SourceTypeUltrasoundStream, ReceivedAtMs = time_UnixMilli (um_ReceivedAt bid),
       Slot = us_Slot b, BlockNumber = us_BlockNumber b,
       BlockHash = strings_ToLower (hex (us_BlockHash b)), ParentHash = strings_ToLower (hex (us_ParentHash b)),
       BuilderPubkey = strings_ToLower (hex (us_BuilderPubkey b)), Value = U256_String (us_Value b),
       BlockFeeRecipient = strings_ToLower (hex (us_FeeRecipient b)), Relay = um_Relay bid,
       TimestampMs = us_Timestamp b, ProposerPubkey = [], ProposerFeeRecipient = [], OptimisticSubmission = False\<rparr>)"

section \<open>Scheduling of the data API polls\<close>

text \<open>Clock readings after genesis, far from the end of the 64-bit range.\<close>

definition clock_ok :: "i64 \<Rightarrow> gotime \<Rightarrow> bool" where
  "clock_ok g now \<longleftrightarrow> time_after_genesis g now \<and> sint (unixSec now) < 2 ^ 61 \<and> nanos now < 1000000000"

lemma next_slot:
  assumes "clock_ok g now"
  shows "uint (TimeToSlot g now + 1) = uint (TimeToSlot g now) + 1"
    and "slot_in_range g (TimeToSlot g now + 1)"
    and "TimeToSlot g now < TimeToSlot g now + 1"
proof -
  have u: "uint (TimeToSlot g now) = (sint (unixSec now) - sint g) div 12"
    using assms by (intro uint_TimeToSlot) (simp add: clock_ok_def)
  have r: "0 \<le> sint g" "sint g \<le> sint (unixSec now)" "sint (unixSec now) < 2 ^ 61"
    using assms by (auto simp: clock_ok_def time_after_genesis_def)
  then have b: "uint (TimeToSlot g now) * 12 + sint g \<le> sint (unixSec now)" unfolding u by linarith
  moreover have "0 \<le> uint (TimeToSlot g now)" by simp
  ultimately have "uint (TimeToSlot g now) < 2 ^ 61" using r by linarith
  then show s: "uint (TimeToSlot g now + 1) = uint (TimeToSlot g now) + 1"
    using uint_add_lem [of "TimeToSlot g now" 1] by simp
  show "slot_in_range g (TimeToSlot g now + 1)" unfolding slot_in_range_def s using b r by simp
  show "TimeToSlot g now < TimeToSlot g now + 1" unfolding word_less_def s by simp
qed

lemma time_sane_slot: "slot_in_range g s \<Longrightarrow> time_sane (SlotToTime g s)"
  using sint_SlotToTime [of g s] uint_ge_0 [of s] unfolding time_sane_def slot_in_range_def by linarith

lemma time_sane_Add:
  assumes "time_sane t" "\<bar>sint (unixSec t)\<bar> < 2 ^ 62 - 2 ^ 40"
  shows "time_sane (time_Add t d)"
proof -
  note ns = time_Add_ns [OF assms(1), of d]
  obtain x y n m where x: "x = sint (unixSec t)" and y: "y = sint (unixSec (time_Add t d))"
    and n: "n = int (nanos t)" and m: "m = int (nanos (time_Add t d))" by blast
  have "\<bar>sint d\<bar> \<le> 9223372036854775808" using sint_range64 [of d] by simp
  moreover have "0 \<le> m" "m < 1000000000" "0 \<le> n" "n < 1000000000"
    using ns(2) assms(1) by (simp_all add: n m time_sane_def)
  moreover have "y * 1000000000 + m = x * 1000000000 + n + sint d"
    using ns(1) by (simp add: time_ns_def x y n m)
  moreover have "\<bar>x\<bar> < 4611684918915760128" using assms(2) by (simp add: x)
  ultimately have "- 4611686018427387904 < y" "y < 4611686018427387904" by linarith+
  with ns(2) show ?thesis by (simp add: time_sane_def y)
qed

lemma pollRelaysForBids_wait:
  assumes now: "clock_ok g now" and off: "\<bar>sint off\<bar> < 2 ^ 40"
  defines "slot \<equiv> TimeToSlot g now + 1"
  defines "d \<equiv> time_ns (SlotToTime g slot) + sint off - time_ns now"
  shows "pollRelaysForBids g now slot off = (if d < 0 then None else Some (word_of_int d))"
    and "\<bar>d\<bar> < 2 ^ 41"
proof -
  let ?s = "SlotToTime g slot"
  have in_range: "slot_in_range g slot" using next_slot(2) [OF now] by (simp add: slot_def)
  have uint: "uint slot = (sint (unixSec now) - sint g) div 12 + 1"
    using now next_slot(1) [OF now] uint_TimeToSlot [of g now] by (simp add: slot_def clock_ok_def)
  have sane: "time_sane now" "nanos now < 1000000000" "time_sane ?s"
    using now time_sane_slot [OF in_range] by (auto simp: clock_ok_def time_sane_def time_after_genesis_def)
  have start: "sint (unixSec ?s) = uint slot * 12 + sint g" "nanos ?s = 0"
    using sint_SlotToTime [OF in_range] by simp_all
  have near: "0 < sint (unixSec ?s) - sint (unixSec now)" "sint (unixSec ?s) - sint (unixSec now) \<le> 12"
  proof -
    obtain q r where q: "q = (sint (unixSec now) - sint g) div 12" and r: "r = (sint (unixSec now) - sint g) mod 12"
      by blast
    have "0 \<le> r" "r < 12" "q * 12 + r = sint (unixSec now) - sint g" unfolding q r by simp_all
    then show "0 < sint (unixSec ?s) - sint (unixSec now)" "sint (unixSec ?s) - sint (unixSec now) \<le> 12"
      unfolding start uint q [symmetric] by simp_all
  qed
  then show d: "\<bar>d\<bar> < 2 ^ 41"
    using off sane(2) unfolding d_def time_ns_def start(2) by simp
  have "\<bar>sint (unixSec ?s)\<bar> < 2 ^ 62 - 2 ^ 40"
    using near now by (simp add: clock_ok_def time_after_genesis_def)
  then have "time_sane (time_Add ?s off)" by (rule time_sane_Add [OF sane(3)])
  then have "sint (time_Sub (time_Add ?s off) now) = d"
    using d sane(1) time_Add_ns(1) [OF sane(3), of off] by (subst time_Sub_ns) (simp_all add: d_def)
  moreover from this have "time_Sub (time_Add ?s off) now = word_of_int d" by (simp flip: \<open>sint (time_Sub (time_Add ?s off) now) = d\<close>)
  ultimately show "pollRelaysForBids g now slot off = (if d < 0 then None else Some (word_of_int d))"
    by (simp add: pollRelaysForBids_def i64_less_def Let_def)
qed



text \<open>The loop sleeps until the start of the slot it has scheduled, so its rounds read the clock at or
  after that instant.\<close>

fun rounds_ok :: "i64 \<Rightarrow> gotime list \<Rightarrow> bool" where
  "rounds_ok g [] = True"
| "rounds_ok g [now] = clock_ok g now"
| "rounds_ok g (now # now' # nows) \<longleftrightarrow>
     clock_ok g now \<and> SlotToTime g (TimeToSlot g now + 1) \<le> now' \<and> rounds_ok g (now' # nows)"

lemma rounds_ok_hd: "rounds_ok g (now # nows) \<Longrightarrow> clock_ok g now"
  by (cases nows) simp_all

lemma rounds_ok_slots:
  "rounds_ok g nows \<Longrightarrow> sorted_wrt (<) (map (TimeToSlot g) nows)"
proof (induction nows rule: rounds_ok.induct)
  case (3 g now now' nows)
  then have ok: "clock_ok g now" "clock_ok g now'" using rounds_ok_hd by auto
  have "TimeToSlot g now + 1 \<le> TimeToSlot g now'"
    using 3(2) common_clock.galois [OF next_slot(2) [OF ok(1)], of now'] ok(2) by (simp add: clock_ok_def)
  then have "TimeToSlot g now < TimeToSlot g now'" using next_slot(3) [OF ok(1)] by simp
  with 3 show ?case by auto
qed simp_all

text \<open>However late the poller wakes up, its rounds schedule strictly increasing slots: no slot is
  polled by two rounds.\<close>

theorem poller_rounds_increasing:
  assumes "rounds_ok g nows"
  shows "sorted_wrt (<) (map (\<lambda>now. fst (hd (fst (schedule_round g now)))) nows) \<and>
    poller_rounds g nows = concat (map (\<lambda>now. map (Pair (TimeToSlot g now + 1)) poll_offsets) nows)"
proof -
  have hd: "fst (hd (fst (schedule_round g now))) = TimeToSlot g now + 1" for now
    by (simp add: schedule_round_def poll_offsets_def Let_def)
  have ok: "clock_ok g now" if "now \<in> set nows" for now
    using assms that by (induction nows rule: rounds_ok.induct) auto
  have "sorted_wrt (<) (map (\<lambda>now. TimeToSlot g now + 1) nows)"
    using rounds_ok_slots [OF assms] ok
  proof (induction nows)
    case (Cons now nows)
    have "TimeToSlot g now + 1 < TimeToSlot g n + 1" if "n \<in> set nows" for n
    proof -
      have "uint (TimeToSlot g now) < uint (TimeToSlot g n)" using Cons.prems(1) that by (simp add: word_less_def)
      then show ?thesis using next_slot(1) Cons.prems(2) that by (simp add: word_less_def)
    qed
    with Cons show ?case by simp
  qed simp
  moreover have "poller_rounds g nows = concat (map (\<lambda>now. map (Pair (TimeToSlot g now + 1)) poll_offsets) nows)"
    by (induction nows) (simp_all add: schedule_round_def Let_def)
  ultimately show ?thesis by (simp add: hd)
qed

theorem poller_rounds_increasing_witness:
  "sorted_wrt (<) (map (\<lambda>now. fst (hd (fst (schedule_round GenesisDefault now))))
     [GoTime 1606824025 0, GoTime 1606824035 1])"
proof -
  have "TimeToSlot GenesisDefault (GoTime 1606824025 0) = 0"
    by (simp add: TimeToSlot_def GenesisDefault_def i64_div_def signed_divide_int_def)
  then have "rounds_ok GenesisDefault [GoTime 1606824025 0, GoTime 1606824035 1]"
    by (simp add: clock_ok_def time_after_genesis_def GenesisDefault_def SlotToTime_def time_Unix_def
        time_le_in_range time_in_range_def)
  from poller_rounds_increasing [OF this] show ?thesis by simp
qed

section \<open>The getHeader poller over head events\<close>

lemma updateDuties_head: "updateDuties bn e st = Some st' \<Longrightarrow> headSlot st' = headSlot st"
  by (auto simp: updateDuties_def Let_def split: if_splits option.splits)

lemma handleHeadEvent_head:
  assumes "handleHeadEvent bn slot st = (st', poll)"
  shows "headSlot st' = max (headSlot st) slot"
    and "poll = Some (s, h, pk) \<Longrightarrow> headSlot st < slot \<and> s = slot + 1 \<and> pk \<noteq> [] \<and>
      bn_GetBlockHead bn = Some (slot, h) \<and> pk = duty (duties st') s"
  using assms
  by (auto simp: handleHeadEvent_def Let_def max_def split: if_splits option.splits prod.splits
      dest!: updateDuties_head)

lemma uint_succ_slot: "(slot :: u64) < 2 ^ 63 \<Longrightarrow> uint (slot + 1) = uint slot + 1"
  using uint_add_lem [of slot 1] by (simp add: word_less_def)

text \<open>Over any sequence of head events and beacon node answers, the slots polled are strictly
  increasing and lie beyond the head the poller starts from: no slot is polled twice, and a late or
  repeated head event polls nothing.\<close>

theorem head_events_increasing:
  assumes "\<forall>(bn, slot) \<in> set evs. slot < 2 ^ 63"
  shows "sorted_wrt (<) (map fst (snd (head_events evs st))) \<and>
    (\<forall>poll \<in> set (snd (head_events evs st)). uint (headSlot st) + 1 < uint (fst poll))"
  using assms
proof (induction evs arbitrary: st)
  case (Cons ev evs)
  obtain bn slot where ev: "ev = (bn, slot)" by fastforce
  obtain st' poll where 1: "handleHeadEvent bn slot st = (st', poll)" by fastforce
  note head = handleHeadEvent_head [OF 1]
  have IH: "sorted_wrt (<) (map fst (snd (head_events evs st')))"
    "\<And>p. p \<in> set (snd (head_events evs st')) \<Longrightarrow> uint (headSlot st') + 1 < uint (fst p)"
    using Cons by auto
  have slot: "uint (slot + 1) = uint slot + 1" using Cons.prems ev by (intro uint_succ_slot) simp
  have later: "uint (headSlot st) + 1 < uint (fst p)" "uint (slot + 1) < uint (fst p)"
    if "p \<in> set (snd (head_events evs st'))" for p
    using IH(2) [OF that] head(1) slot by (auto simp: max_def word_le_def split: if_splits)
  have eq: "snd (head_events (ev # evs) st) = (case poll of None \<Rightarrow> [] | Some p \<Rightarrow> [p]) @ snd (head_events evs st')"
    by (simp add: ev 1 split: prod.splits)
  show ?case
  proof (cases poll)
    case None
    with IH(1) later(1) show ?thesis unfolding eq by simp
  next
    case (Some p)
    obtain s h pk where p: "p = (s, h, pk)" by (cases p)
    with head(2) Some have "headSlot st < slot" "s = slot + 1" by blast+
    then have "uint (headSlot st) + 1 < uint s" "\<And>q. q \<in> set (snd (head_events evs st')) \<Longrightarrow> s < fst q"
      using slot later(2) by (simp_all add: word_less_def)
    with IH(1) later(1) Some p show ?thesis unfolding eq by simp
  qed
qed simp

definition example_beacon :: "u64 \<Rightarrow> beacon" where
  "example_beacon slot = \<lparr>bn_GetProposerDuties = (\<lambda>e. Some [(32 * e, ''0xa''), (32 * e + 1, ''0xb''), (32 * e + 2, ''0xc'')]),
     bn_GetBlockHead = Some (slot, ''0xhash'')\<rparr>"

lemma example_head_events:
  "snd (head_events [(example_beacon 32, 32), (example_beacon 32, 32), (example_beacon 33, 33)] initial_GetHeaderState) =
    [(33, ''0xhash'', ''0xb''), (34, ''0xhash'', ''0xc'')]"
  by (simp add: handleHeadEvent_def updateDuties_def initial_GetHeaderState_def example_beacon_def duty_def
      SlotsPerEpoch_def Let_def)

theorem head_events_increasing_witness:
  "sorted_wrt (<) (map fst (snd (head_events [(example_beacon 32, 32), (example_beacon 32, 32), (example_beacon 33, 33)]
     initial_GetHeaderState)))"
  using head_events_increasing [of "[(example_beacon 32, 32), (example_beacon 32, 32), (example_beacon 33, 33)]"
      initial_GetHeaderState] by simp

text \<open>When the beacon node answers the duty queries of the two epochs and has the head block, a new
  head polls the next slot with the proposer of that slot, also across the boundary of an epoch.\<close>

theorem handleHeadEvent_polls:
  assumes "headSlot st < slot" and "duties st = [] \<or> lastDutyUpdateEpoch st < slot div SlotsPerEpoch"
    and "bn_GetProposerDuties bn (slot div SlotsPerEpoch) = Some ds"
    and "bn_GetProposerDuties bn (slot div SlotsPerEpoch + 1) = Some ds'"
    and "bn_GetBlockHead bn = Some (slot, h)"
    and "map_of (rev (ds @ ds')) (slot + 1) = Some pk" and "pk \<noteq> []"
  shows "handleHeadEvent bn slot st =
    (\<lparr>headSlot = slot, lastDutyUpdateEpoch = slot div SlotsPerEpoch, duties = rev (ds @ ds')\<rparr>,
     Some (slot + 1, h, pk))"
  using assms by (auto simp: handleHeadEvent_def updateDuties_def duty_def Let_def)

theorem handleHeadEvent_polls_witness:
  "snd (handleHeadEvent (\<lparr>bn_GetProposerDuties = (\<lambda>e. Some [(32 * e, ''0xa'')]), bn_GetBlockHead = Some (63, ''0xh'')\<rparr>)
     63 initial_GetHeaderState) = Some (64, ''0xh'', ''0xa'')"
  using handleHeadEvent_polls [of initial_GetHeaderState 63
      "\<lparr>bn_GetProposerDuties = (\<lambda>e. Some [(32 * e, ''0xa'')]), bn_GetBlockHead = Some (63, ''0xh'')\<rparr>"
      "[(32, ''0xa'')]" "[(64, ''0xa'')]" "''0xh''" "''0xa''"]
  by (simp add: initial_GetHeaderState_def SlotsPerEpoch_def)

text \<open>When only the query for the next epoch fails, the epoch counts as updated, and the first slot of
  the next epoch has no proposer.\<close>

lemma handleHeadEvent_skips_boundary:
  "let bn = \<lparr>bn_GetProposerDuties = (\<lambda>e. if e = 1 then Some [(32, ''0xa'')] else None),
             bn_GetBlockHead = Some (63, ''0xh'')\<rparr>
   in snd (handleHeadEvent bn 63 initial_GetHeaderState) = None \<and>
      lastDutyUpdateEpoch (fst (handleHeadEvent bn 63 initial_GetHeaderState)) = 1"
  by (simp add: handleHeadEvent_def updateDuties_def duty_def SlotsPerEpoch_def initial_GetHeaderState_def Let_def)

section \<open>The stream's reconnects\<close>

lemma stream_run_Cons:
  "stream_run get (ev # evs) st =
    (fst (stream_run get evs (fst (stream_step get ev st))),
     snd (stream_step get ev st) @ snd (stream_run get evs (fst (stream_step get ev st))))"
  by (simp split: prod.splits)

declare stream_run.simps(2) [simp del]

definition backoff_values :: "int set" where
  "backoff_values = {5, 10, 20, 40, 80, 120}"

definition stream_ok :: "UltrasoundStreamConnection \<Rightarrow> bool" where
  "stream_ok st \<longleftrightarrow> backoffSec st \<in> backoff_values"

lemma stream_step_ok [go_intros]: "stream_ok st \<Longrightarrow> stream_ok (fst (stream_step get ev st))"
  by (auto simp: stream_ok_def backoff_values_def stream_step.simps InitialBackoffSec_def MaxBackoffSec_def Let_def
      split: stream_phase.splits stream_event.splits prod.splits option.splits)

lemma stream_step_sleep:
  "stream_ok st \<Longrightarrow> Sleep d \<in> set (snd (stream_step get ev st)) \<Longrightarrow> d \<in> backoff_values"
  by (auto simp: stream_ok_def stream_step.simps Let_def
      split: stream_phase.splits stream_event.splits prod.splits option.splits)

text \<open>Whatever the network does, the stream never sleeps less than 5 or more than 120 seconds before
  it reconnects: the waiting times are 5, 10, 20, 40, 80 and 120 seconds.\<close>

theorem stream_backoff_bounded:
  "backoffSec (fst (stream_run get evs NewUltrasoundStreamConnection)) \<in> backoff_values \<and>
   (\<forall>d. Sleep d \<in> set (snd (stream_run get evs NewUltrasoundStreamConnection)) \<longrightarrow> d \<in> backoff_values)"
proof -
  have "backoffSec (fst (stream_run get evs st)) \<in> backoff_values \<and>
    (\<forall>d. Sleep d \<in> set (snd (stream_run get evs st)) \<longrightarrow> d \<in> backoff_values)" if "stream_ok st" for st
    using that
  proof (induction evs arbitrary: st)
    case (Cons ev evs)
    obtain st' out where 1: "stream_step get ev st = (st', out)" by fastforce
    with stream_step_ok [OF Cons.prems, of get ev] have "stream_ok st'" by simp
    with Cons.IH [of st'] stream_step_sleep [OF Cons.prems, of _ get ev] show ?case
      by (auto simp: stream_run_Cons 1)
  qed (simp add: stream_ok_def)
  moreover have "stream_ok NewUltrasoundStreamConnection"
    by (simp add: stream_ok_def NewUltrasoundStreamConnection_def InitialBackoffSec_def backoff_values_def)
  ultimately show ?thesis by blast
qed

theorem stream_backoff_bounded_witness:
  "backoffSec (fst (stream_run le_UnmarshallUint64 [DialFailed, SleepOver, DialFailed] NewUltrasoundStreamConnection))
    \<in> backoff_values"
  using stream_backoff_bounded [of le_UnmarshallUint64 "[DialFailed, SleepOver, DialFailed]"] by blast

text \<open>While dialing keeps failing, the waiting times double from 5 seconds up to the cap of 120.\<close>

theorem stream_backoff_doubles:
  "snd (stream_run get (concat (replicate n [DialFailed, SleepOver])) NewUltrasoundStreamConnection) =
    map (\<lambda>i. Sleep (min (5 * 2 ^ i) 120)) [0..<n]"
proof -
  have "snd (stream_run get (concat (replicate n [DialFailed, SleepOver]))
      \<lparr>phase = Dialing, backoffSec = min (5 * 2 ^ k) 120\<rparr>) = map (\<lambda>i. Sleep (min (5 * 2 ^ (i + k)) 120)) [0..<n]" for k
  proof (induction n arbitrary: k)
    case (Suc n)
    have double: "(if min (5 * 2 ^ k) 120 * 2 > MaxBackoffSec then MaxBackoffSec else min (5 * 2 ^ k) 120 * 2) =
        min (5 * 2 ^ Suc k) (120 :: int)" by (auto simp: MaxBackoffSec_def min_def)
    have "[0..<Suc n] = 0 # map Suc [0..<n]" by (simp add: map_Suc_upt upt_conv_Cons)
    with Suc.IH [of "Suc k"] show ?case
      by (simp add: stream_run_Cons stream_step.simps Let_def double del: upt_Suc)
  qed simp
  from this [of 0] show ?thesis by (simp add: NewUltrasoundStreamConnection_def InitialBackoffSec_def)
qed

text \<open>The message buffer is reused, but nothing of a message leaks into the next: on a connection,
  the bids sent are the decodings of the 188-byte messages, each on its own.\<close>

theorem stream_messages_independent:
  assumes "phase st = Streaming b" and "us_bid_wf b"
  shows "snd (stream_run get (map (\<lambda>(msg, now). Message msg now) msgs) st) =
    map (\<lambda>(msg, now). Send \<lparr>um_Bid = fst (UnmarshalSSZ get zero_bid msg), um_Relay = ''relay.ultrasound.money'',
        um_ReceivedAt = now\<rparr>) (filter (\<lambda>(msg, now). length msg = 188) msgs)"
  using assms
proof (induction msgs arbitrary: st b)
  case (Cons m msgs)
  obtain msg now where m: "m = (msg, now)" by fastforce
  show ?case
  proof (cases "length msg = 188")
    case True
    have same: "UnmarshalSSZ get b msg = UnmarshalSSZ get zero_bid msg"
      using Cons.prems(2) True
      by (simp add: UnmarshalSSZ_def us_bid_wf_def zero_bid_def copy_bytes_def go_slice_def Let_def)
    obtain b' where b': "UnmarshalSSZ get zero_bid msg = (b', None)" "us_bid_wf b'"
      using True by (simp add: UnmarshalSSZ_def us_bid_wf_def zero_bid_def copy_bytes_def go_slice_def Let_def)
    have "stream_step get (Message msg now) st = (st\<lparr>phase := Streaming b'\<rparr>,
        [Send \<lparr>um_Bid = b', um_Relay = ''relay.ultrasound.money'', um_ReceivedAt = now\<rparr>])"
      using Cons.prems(1) by (simp add: stream_step.simps same b')
    with Cons.IH [of "st\<lparr>phase := Streaming b'\<rparr>" b'] b' True m show ?thesis
      by (simp add: stream_run_Cons)
  next
    case False
    then have "stream_step get (Message msg now) st = (st\<lparr>phase := Streaming b\<rparr>, [])"
      using Cons.prems(1) by (simp add: stream_step.simps UnmarshalSSZ_def)
    with Cons.IH [of "st\<lparr>phase := Streaming b\<rparr>" b] Cons.prems False m show ?thesis
      by (simp add: stream_run_Cons)
  qed
qed simp

theorem stream_messages_independent_witness:
  "snd (stream_run le_UnmarshallUint64 [Message [] (GoTime 0 0)] \<lparr>phase = Streaming zero_bid, backoffSec = 5\<rparr>) = []"
  using stream_messages_independent [of "\<lparr>phase = Streaming zero_bid, backoffSec = 5\<rparr>" zero_bid
      le_UnmarshallUint64 "[([], GoTime 0 0)]"]
  by (simp add: us_bid_wf_def zero_bid_def)

end
