(* ===== verification/BidCollector.thy ===== *)
theory BidCollector
  imports BidSources
begin

text \<open>
  \<open>services/bidcollect/bidcollector.go\<close>: the sources put messages on three bounded channels, and
  one loop takes them off, converts them and hands them to the bid processor, while housekeeping
  runs beside it.  The step relation has one rule per kind of step, in any interleaving; the
  histories of sent and handled messages are auxiliary variables.
\<close>

section \<open>State and steps\<close>

record BidCollectorOpts =
  co_UID :: string
  co_OutDir :: string
  co_OutputTSV :: bool
  co_RedisAddr :: string
  co_UseRedis :: bool

datatype 'pk message =
    UltrasoundMsg UltrasoundStreamBidsMsg
  | DataAPIMsg "'pk DataAPIPollerBidsMsg"
  | GetHeaderMsg "'pk GetHeaderPollerBidsMsg"

datatype source = UltrasoundC | DataAPIC | GetHeaderC

fun source_of :: "'pk message \<Rightarrow> source" where
  "source_of (UltrasoundMsg _) = UltrasoundC"
| "source_of (DataAPIMsg _) = DataAPIC"
| "source_of (GetHeaderMsg _) = GetHeaderC"

text \<open>The bids that a case of the select loop passes to \<open>processBids\<close>.\<close>

fun message_bids :: "(byte list \<Rightarrow> string) \<Rightarrow> 'pk message \<Rightarrow> CommonBid list" where
  "message_bids hex (UltrasoundMsg m) = [UltrasoundStreamToCommonBid hex m]"
| "message_bids hex (DataAPIMsg m) = DataAPIToCommonBids m"
| "message_bids hex (GetHeaderMsg m) = [GetHeaderToCommonBid m]"

record 'pk BidCollector =
  channels :: "source \<Rightarrow> 'pk message list"
  processor :: BidProcessor
  sent :: "'pk message list"
  handled :: "'pk message list"

text \<open>\<open>NewBidCollector\<close>: without an output directory the process ends, and the error of the processor
  is the caller's (which ends the process too).\<close>

definition NewBidCollector :: "io_env \<Rightarrow> (string \<rightharpoonup> string) \<Rightarrow> BidCollectorOpts \<Rightarrow> 'pk BidCollector option" where
  "NewBidCollector env fs os =
     (if co_OutDir os = [] then None
      else map_option (\<lambda>p. \<lparr>channels = (\<lambda>_. []), processor = p, sent = [], handled = []\<rparr>)
        (NewBidProcessor env fs \<lparr>UID = co_UID os, OutDir = co_OutDir os, OutputTSV = co_OutputTSV os,
           RedisAddr = co_RedisAddr os, UseRedis = co_UseRedis os\<rparr>))"

inductive collector_step :: "(byte list \<Rightarrow> string) \<Rightarrow> i64 \<Rightarrow> 'pk BidCollector \<Rightarrow> 'pk BidCollector \<Rightarrow> bool" for hex g where
  send: "length (channels c (source_of m)) < BidCollectorInputChannelSize \<Longrightarrow>
    collector_step hex g c
      (c\<lparr>channels := (channels c)(source_of m := channels c (source_of m) @ [m]), sent := sent c @ [m]\<rparr>)"
| handle: "channels c s = m # ms \<Longrightarrow> processBids env g (message_bids hex m) (processor c) = (p, True) \<Longrightarrow>
    collector_step hex g c
      (c\<lparr>channels := (channels c)(s := ms), processor := p, handled := handled c @ [m]\<rparr>)"
| clean_up: "housekeeping g t1 t2 (processor c) = (p, l) \<Longrightarrow> collector_step hex g c (c\<lparr>processor := p\<rparr>)"

inductive_cases collector_stepE: "collector_step hex g c c'"

section \<open>Channels\<close>

text \<open>Each channel holds the messages of its source that were sent and not yet handled, in order.\<close>

definition channels_ok :: "'pk BidCollector \<Rightarrow> bool" where
  "channels_ok c \<longleftrightarrow> (\<forall>s. length (channels c s) \<le> BidCollectorInputChannelSize \<and>
     filter (\<lambda>m. source_of m = s) (sent c) = filter (\<lambda>m. source_of m = s) (handled c) @ channels c s)"

lemma channels_ok_step [go_intros]:
  assumes "collector_step hex g c c'" "channels_ok c"
  shows "channels_ok c'"
  using assms(1)
proof (rule collector_stepE)
  fix m
  assume "c' = c\<lparr>channels := (channels c)(source_of m := channels c (source_of m) @ [m]), sent := sent c @ [m]\<rparr>"
    "length (channels c (source_of m)) < BidCollectorInputChannelSize"
  with assms(2) show ?thesis by (simp add: channels_ok_def)
next
  fix s m ms env p
  assume c': "c' = c\<lparr>channels := (channels c)(s := ms), processor := p, handled := handled c @ [m]\<rparr>"
    and s: "channels c s = m # ms"
  from assms(2) have "filter (\<lambda>m. source_of m = s) (sent c) = filter (\<lambda>m. source_of m = s) (handled c) @ m # ms"
    "length (m # ms) \<le> BidCollectorInputChannelSize"
    using s by (auto simp: channels_ok_def dest: spec [of _ s])
  moreover from this(1) have "m \<in> set (filter (\<lambda>m. source_of m = s) (sent c))" by simp
  then have "source_of m = s" by simp
  ultimately show ?thesis using assms(2) by (simp add: channels_ok_def c')
next
  fix t1 t2 p l
  assume "c' = c\<lparr>processor := p\<rparr>"
  with assms(2) show ?thesis by (simp add: channels_ok_def)
qed


section \<open>Refinement of the processor's runs\<close>

text \<open>The abstraction to the processor: a step of the collector is a step of the processor or nothing.\<close>

lemma collector_step_refines:
  "collector_step hex g c c' \<Longrightarrow> processor c' = processor c \<or> bp_step g (processor c) (processor c')"
  by (erule collector_stepE) (auto intro: bp_step.intros)

lemma collector_run_refines:
  "(collector_step hex g)\<^sup>*\<^sup>* c c' \<Longrightarrow> (bp_step g)\<^sup>*\<^sup>* (processor c) (processor c')"
proof (induction rule: rtranclp_induct)
  case (step x y)
  from collector_step_refines [OF step.hyps(2)] step.IH show ?case by (metis rtranclp.rtrancl_into_rtrancl)
qed simp

lemma new_collector_processor:
  "NewBidCollector env fs os = Some c \<Longrightarrow> \<exists>os'. NewBidProcessor env fs os' = Some (processor c) \<and> handled c = []"
  by (auto simp: NewBidCollector_def split: if_splits)

lemma bp_run_top:
  "(bp_step g)\<^sup>*\<^sup>* c c' \<Longrightarrow> topValue c s = Some v \<Longrightarrow> \<exists>w. topValue c' s = Some w \<and> v \<le> w"
proof (induction rule: rtranclp_induct)
  case (step x y)
  then obtain w where w: "topValue x s = Some w" "v \<le> w" by blast
  from step.hyps(2) show ?case
  proof (rule bp_stepE)
    fix env bids assume "processBids env g bids x = (y, True)"
    then have "y = fold (afterBid env g) bids x" using processBids_fold [of env g bids x] by simp
    with top_cache.best_mono [OF w(1), of env g bids] w(2) show ?thesis by force
  next
    fix t1 t2 l assume "housekeeping g t1 t2 x = (y, l)"
    with w show ?thesis by (auto simp: housekeeping_def topValue_def Let_def)
  qed
qed auto

definition tops_cover :: "(byte list \<Rightarrow> string) \<Rightarrow> 'pk BidCollector \<Rightarrow> bool" where
  "tops_cover hex c \<longleftrightarrow> (\<forall>m \<in> set (handled c). \<forall>b \<in> set (message_bids hex m).
     \<exists>v. topValue (processor c) (Slot b) = Some v \<and> ValueAsBigInt b \<le> v)"

lemma tops_cover_step:
  assumes "collector_step hex g c c'" "tops_cover hex c"
  shows "tops_cover hex c'"
proof -
  have run: "(bp_step g)\<^sup>*\<^sup>* (processor c) (processor c')"
    using collector_run_refines [OF r_into_rtranclp [of "collector_step hex g", OF assms(1)]] .
  have old: "\<exists>v. topValue (processor c') (Slot b) = Some v \<and> ValueAsBigInt b \<le> v"
    if "m \<in> set (handled c)" "b \<in> set (message_bids hex m)" for m b
    using assms(2) that bp_run_top [OF run] by (fastforce simp: tops_cover_def)
  from assms(1) show ?thesis
  proof (rule collector_stepE)
    fix s m ms env p
    assume c': "c' = c\<lparr>channels := (channels c)(s := ms), processor := p, handled := handled c @ [m]\<rparr>"
      and p: "processBids env g (message_bids hex m) (processor c) = (p, True)"
    have "\<exists>v. topValue p (Slot b) = Some v \<and> ValueAsBigInt b \<le> v" if "b \<in> set (message_bids hex m)" for b
      using top_cache.best_bound [OF that, of env g "processor c"] processBids_fold [of env g "message_bids hex m" "processor c"] p
      by simp
    with old show ?thesis by (auto simp: tops_cover_def c')
  qed (use old in \<open>auto simp: tops_cover_def\<close>)
qed

text \<open>C3. The collector as a whole: over any interleaving of the sources, the loop and housekeeping, and
  with any outcome of the external calls, the processor is one reached by its own steps, its
  invariants hold, and the top bid of a slot is worth at least every bid handled for the slot,
  from whichever source.\<close>

theorem collector_run_correct:
  assumes "NewBidCollector env fs os = Some c0" and "(collector_step hex g)\<^sup>*\<^sup>* c0 c"
  shows "(bp_step g)\<^sup>*\<^sup>* (processor c0) (processor c) \<and> bp_inv (processor c) \<and>
    (\<forall>m \<in> set (handled c). \<forall>b \<in> set (message_bids hex m).
      \<exists>v. topValue (processor c) (Slot b) = Some v \<and> ValueAsBigInt b \<le> v)"
proof -
  obtain os' where new: "NewBidProcessor env fs os' = Some (processor c0)" "handled c0 = []"
    using new_collector_processor [OF assms(1)] by blast
  note run = collector_run_refines [OF assms(2)]
  have "bp_inv (processor c)"
    using run
  proof (induction rule: rtranclp_induct)
    case base
    then show ?case by (rule bp_inv_new [OF new(1)])
  next
    case (step x y)
    from step.hyps(2) show ?case
      by (rule bp_stepE) (use step.IH bp_inv_batch bp_inv_clean in \<open>metis fst_conv\<close>)+
  qed
  moreover from assms(2) have "tops_cover hex c"
  proof (induction rule: rtranclp_induct)
    case base
    then show ?case by (simp add: tops_cover_def new)
  qed (rule tops_cover_step)
  ultimately show ?thesis using run by (simp add: tops_cover_def)
qed

section \<open>One batch or many\<close>

lemma processBids_append:
  "processBids env g (as @ bs) c =
    (case processBids env g as c of (c', True) \<Rightarrow> processBids env g bs c' | (c', False) \<Rightarrow> (c', False))"
  by (induction as arbitrary: c) (auto split: prod.splits bool.splits)

text \<open>The loop over a list of messages, in a fixed environment.\<close>

fun handle_messages :: "(byte list \<Rightarrow> string) \<Rightarrow> io_env \<Rightarrow> i64 \<Rightarrow> 'pk message list \<Rightarrow> BidProcessor \<Rightarrow> BidProcessor \<times> bool" where
  "handle_messages hex env g [] p = (p, True)"
| "handle_messages hex env g (m # ms) p =
     (case processBids env g (message_bids hex m) p of
        (p', True) \<Rightarrow> handle_messages hex env g ms p'
      | (p', False) \<Rightarrow> (p', False))"

text \<open>How bids are grouped into messages does not matter: handling messages one by one is processing
  all their bids as one batch, so the theorems about batches speak of the whole input.\<close>

theorem handle_messages_batch:
  "handle_messages hex env g ms p = processBids env g (concat (map (message_bids hex) ms)) p"
  by (induction ms arbitrary: p) (auto simp: processBids_append split: prod.splits bool.splits)

definition example_collector_opts :: BidCollectorOpts where
  "example_collector_opts = \<lparr>co_UID = ''u1'', co_OutDir = ''out'', co_OutputTSV = False, co_RedisAddr = [], co_UseRedis = False\<rparr>"

definition example_collector :: "unit BidCollector" where
  "example_collector = the (NewBidCollector healthy_env Map.empty example_collector_opts)"

definition example_message :: "unit message" where
  "example_message = UltrasoundMsg \<lparr>um_Bid = zero_bid, um_Relay = ''r'', um_ReceivedAt = GoTime 0 0\<rparr>"

lemma example_collector_new: "NewBidCollector healthy_env Map.empty example_collector_opts = Some example_collector"
  by (simp add: example_collector_def NewBidCollector_def example_collector_opts_def NewBidProcessor_def)

lemma example_collector_sends:
  "collector_step hex g example_collector
    (example_collector\<lparr>channels := (\<lambda>_. [])(UltrasoundC := [example_message]), sent := [example_message]\<rparr>)"
  using collector_step.send [of example_collector example_message hex g]
  by (simp add: example_collector_def NewBidCollector_def example_collector_opts_def NewBidProcessor_def
      example_message_def BidCollectorInputChannelSize_def)


theorem collector_run_correct_witness:
  "bp_inv (processor (example_collector\<lparr>channels := (\<lambda>_. [])(UltrasoundC := [example_message]), sent := [example_message]\<rparr>))"
  using collector_run_correct [OF example_collector_new
        r_into_rtranclp [of "collector_step (\<lambda>_. []) 0", OF example_collector_sends]] by blast

end
