(* ===== verification/SseServer.thy ===== *)
theory SseServer
  imports BidTypes "HOL-Library.Sublist"
begin

text \<open>
  \<open>services/bidcollect/webserver\<close>: the server that streams the bids published on Redis to its
  subscribers.  Every subscriber has a bounded channel that is written without blocking and a
  handler that copies the channel to the connection.  The histories of what was published
  since a subscription and what its handler delivered are auxiliary variables.
\<close>

section \<open>State\<close>

record SSESubscription =
  msgC :: "string list"
  written :: string
  since :: "string list"
  delivered :: "string list"

record Server =
  sseConnectionMap :: "string \<rightharpoonup> SSESubscription"
  closed :: "string \<rightharpoonup> SSESubscription"

definition msgC_capacity :: nat where
  "msgC_capacity = 100"

definition New_Server :: Server where
  "New_Server = \<lparr>sseConnectionMap = Map.empty, closed = Map.empty\<rparr>"

section \<open>Operations\<close>

definition helloMsg :: string where
  "helloMsg = strings_Join CommonBidCSVFields '','' @ [CHR 0x0A]"

text \<open>The start of \<open>handleSSESubscription\<close>: register, then write the header of the stream.\<close>

definition addSubscriber :: "string \<Rightarrow> Server \<Rightarrow> Server" where
  "addSubscriber uid srv = srv\<lparr>sseConnectionMap := (sseConnectionMap srv)
     (uid \<mapsto> \<lparr>msgC = [], written = helloMsg, since = [], delivered = []\<rparr>)\<rparr>"

definition removeSubscriber :: "string \<Rightarrow> Server \<Rightarrow> Server" where
  "removeSubscriber uid srv = srv\<lparr>sseConnectionMap := (sseConnectionMap srv)(uid := None),
     closed := (case sseConnectionMap srv uid of None \<Rightarrow> closed srv | Some sub \<Rightarrow> (closed srv)(uid \<mapsto> sub))\<rparr>"

text \<open>The non-blocking send of \<open>SendToSubscribers\<close> to one subscriber.\<close>

definition offer_msg :: "string \<Rightarrow> SSESubscription \<Rightarrow> SSESubscription" where
  "offer_msg msg sub =
     (let sub = sub\<lparr>since := since sub @ [msg]\<rparr>
      in if length (msgC sub) < msgC_capacity then sub\<lparr>msgC := msgC sub @ [msg]\<rparr> else sub)"

definition SendToSubscribers :: "string \<Rightarrow> Server \<Rightarrow> Server" where
  "SendToSubscribers msg srv = srv\<lparr>sseConnectionMap := map_option (offer_msg msg) \<circ> sseConnectionMap srv\<rparr>"

text \<open>One iteration of a subscriber's loop that finds a message.\<close>

definition deliver :: "string \<Rightarrow> Server \<Rightarrow> Server" where
  "deliver uid srv =
     (case sseConnectionMap srv uid of
        Some sub \<Rightarrow>
          (case msgC sub of
             msg # rest \<Rightarrow> srv\<lparr>sseConnectionMap := (sseConnectionMap srv)
               (uid \<mapsto> sub\<lparr>msgC := rest, written := written sub @ msg @ [CHR 0x0A], delivered := delivered sub @ [msg]\<rparr>)\<rparr>
           | [] \<Rightarrow> srv)
      | None \<Rightarrow> srv)"

text \<open>Subscriber ids are fresh: they are random UUIDs.\<close>

inductive sse_step :: "Server \<Rightarrow> Server \<Rightarrow> bool" where
  connect: "sseConnectionMap srv uid = None \<Longrightarrow> closed srv uid = None \<Longrightarrow> sse_step srv (addSubscriber uid srv)"
| publish: "sse_step srv (SendToSubscribers msg srv)"
| consume: "sse_step srv (deliver uid srv)"
| disconnect: "sse_step srv (removeSubscriber uid srv)"

text \<open>\<open>MustSubscribeToRedis\<close>: without an address or an answer the process ends; then every message of the channel
  is sent on.\<close>

definition MustSubscribeToRedis :: "string \<Rightarrow> bool \<Rightarrow> string list \<Rightarrow> Server \<Rightarrow> Server option" where
  "MustSubscribeToRedis redisAddr pong messages srv =
     (if redisAddr = [] then None else if \<not> pong then None else Some (fold SendToSubscribers messages srv))"

section \<open>What a subscriber sees\<close>

definition sub_ok :: "SSESubscription \<Rightarrow> bool" where
  "sub_ok sub \<longleftrightarrow> length (msgC sub) \<le> msgC_capacity \<and>
     written sub = helloMsg @ concat (map (\<lambda>m. m @ [CHR 0x0A]) (delivered sub)) \<and>
     subseq (delivered sub @ msgC sub) (since sub) \<and>
     (length (since sub) \<le> msgC_capacity \<longrightarrow> delivered sub @ msgC sub = since sub)"

definition subs_ok :: "Server \<Rightarrow> bool" where
  "subs_ok srv \<longleftrightarrow> (\<forall>sub \<in> ran (sseConnectionMap srv) \<union> ran (closed srv). sub_ok sub)"

lemma sub_ok_new: "sub_ok \<lparr>msgC = [], written = helloMsg, since = [], delivered = []\<rparr>"
  by (simp add: sub_ok_def)

lemma sub_ok_offer: "sub_ok sub \<Longrightarrow> sub_ok (offer_msg msg sub)"
proof -
  assume sub: "sub_ok sub"
  then have seq: "subseq (delivered sub @ msgC sub) (since sub)" by (simp add: sub_ok_def)
  show ?thesis
  proof (cases "length (msgC sub) < msgC_capacity")
    case True
    have "subseq ((delivered sub @ msgC sub) @ [msg]) (since sub @ [msg])"
      using seq by (rule list_emb_append_mono) simp
    with sub True show ?thesis by (simp add: sub_ok_def offer_msg_def)
  next
    case False
    have "subseq (delivered sub @ msgC sub) (since sub @ [msg])" using seq by (rule subseq_rev_drop_many)
    moreover have "length (since sub) \<ge> msgC_capacity"
      using list_emb_length [OF seq] False by simp
    ultimately show ?thesis using sub False by (simp add: sub_ok_def offer_msg_def)
  qed
qed

lemma sub_ok_deliver:
  "sub_ok sub \<Longrightarrow> msgC sub = msg # rest \<Longrightarrow>
    sub_ok (sub\<lparr>msgC := rest, written := written sub @ msg @ [CHR 0x0A], delivered := delivered sub @ [msg]\<rparr>)"
  by (simp add: sub_ok_def)

lemma subs_ok_step [go_intros]:
  assumes "sse_step srv srv'" "subs_ok srv"
  shows "subs_ok srv'"
  using assms
proof (induction rule: sse_step.induct)
  case (connect srv uid)
  then show ?case by (auto simp: subs_ok_def addSubscriber_def ran_def sub_ok_new)
next
  case (publish srv msg)
  then show ?case by (auto simp: subs_ok_def SendToSubscribers_def ran_def intro: sub_ok_offer)
next
  case (consume srv uid)
  then show ?case
    by (auto simp: subs_ok_def deliver_def ran_def intro: sub_ok_deliver split: option.splits list.splits)
next
  case (disconnect srv uid)
  then show ?case by (auto simp: subs_ok_def removeSubscriber_def ran_def split: option.splits)
qed

text \<open>C31. Every subscriber, in any interleaving of connections, publications and deliveries, has been
  written the CSV header followed by whole messages, one per line, in publication order; messages
  are only dropped when its channel of 100 is full, so none is lost among the first hundred
  published since it connected, however slow it or any other subscriber is.\<close>

theorem sse_streams_correct:
  assumes "sse_step\<^sup>*\<^sup>* New_Server srv" and "sseConnectionMap srv uid = Some sub"
  shows "length (msgC sub) \<le> 100 \<and>
    written sub = helloMsg @ concat (map (\<lambda>m. m @ [CHR 0x0A]) (delivered sub)) \<and>
    subseq (delivered sub @ msgC sub) (since sub) \<and>
    (length (since sub) \<le> 100 \<longrightarrow> delivered sub @ msgC sub = since sub)"
proof -
  from assms(1) have "subs_ok srv"
  proof (induction rule: rtranclp_induct)
    case base
    then show ?case by (simp add: subs_ok_def New_Server_def)
  qed (rule subs_ok_step)
  with assms(2) have "sub_ok sub" by (auto simp: subs_ok_def intro: ranI)
  then show ?thesis by (simp add: sub_ok_def msgC_capacity_def)
qed

theorem sse_streams_correct_witness:
  "\<exists>sub. sseConnectionMap (deliver ''a'' (SendToSubscribers ''x,y'' (addSubscriber ''a'' New_Server))) ''a'' = Some sub \<and>
    written sub = helloMsg @ ''x,y'' @ [CHR 0x0A]"
proof -
  let ?s1 = "addSubscriber ''a'' New_Server"
  let ?s3 = "deliver ''a'' (SendToSubscribers ''x,y'' ?s1)"
  have "sse_step New_Server ?s1" by (rule connect) (simp_all add: New_Server_def)
  moreover have "sse_step ?s1 (SendToSubscribers ''x,y'' ?s1)" by (rule publish)
  moreover have "sse_step (SendToSubscribers ''x,y'' ?s1) ?s3" by (rule consume)
  ultimately have "sse_step\<^sup>*\<^sup>* New_Server ?s3" by (rule converse_rtranclp_into_rtranclp [OF _ converse_rtranclp_into_rtranclp [OF _ r_into_rtranclp]])
  moreover obtain sub where "sseConnectionMap ?s3 ''a'' = Some sub" "delivered sub = [''x,y'']"
    by (simp add: addSubscriber_def New_Server_def SendToSubscribers_def deliver_def offer_msg_def msgC_capacity_def Let_def)
  ultimately show ?thesis using sse_streams_correct [of ?s3 "''a''" sub] by simp
qed

end
