(* ===== verification/BidStream.thy ===== *)
theory BidStream
  imports BidCollector SseServer
begin

text \<open>
  The bid stream end to end: the collector handles messages and publishes their bids on Redis, the SSE server
  subscribes and sends them to its subscribers.  Redis hands on what is published, in order.
\<close>

section \<open>What the collector publishes\<close>

definition csv_line :: "i64 \<Rightarrow> CommonBid \<Rightarrow> string" where
  "csv_line g bid = ToCSVLine g bid '',''"

lemma processBid_publishes:
  assumes "redisClient c" "\<forall>n. publish_ok env n"
  shows "redisLog (fst (processBid env g bid c)) = redisLog c @ [csv_line g bid]"
proof -
  obtain c1 isTop where 1: "updateTopBid bid c = (c1, isTop)" by fastforce
  obtain c2 isNew where 2: "updateBidCache bid c1 = (c2, isNew)" by fastforce
  obtain c4 ok where 3: "writeBidToFile env g bid isNew isTop (publishBid env g bid c2) = (c4, ok)" by fastforce
  have "redisLog c2 = redisLog c" "redisClient c2 = redisClient c"
    using 1 2 by (auto simp: updateTopBid_def updateBidCache_def Let_def split: option.splits if_splits)
  then have "redisLog (publishBid env g bid c2) = redisLog c @ [csv_line g bid]"
    using assms by (simp add: publishBid_def csv_line_def)
  moreover have "redisLog c4 = redisLog (publishBid env g bid c2)"
    using core_writeBidToFile [OF 3] by (simp add: core_def)
  ultimately show ?thesis by (simp add: processBid_def 1 2 3)
qed

lemma processBids_publishes:
  assumes "processBids env g bids c = (c', True)" "redisClient c" "\<forall>n. publish_ok env n"
  shows "redisLog c' = redisLog c @ map (csv_line g) bids"
  using assms
proof (induction bids arbitrary: c)
  case (Cons bid bids)
  then have "processBids env g bids (afterBid env g bid c) = (c', True)"
    by (auto split: prod.splits bool.splits)
  from Cons.IH [OF this] Cons.prems processBid_publishes [of c env g bid] show ?case
    by (simp add: processBid_caches)
qed simp

section \<open>What a subscriber receives\<close>

lemma fold_SendToSubscribers:
  assumes "sseConnectionMap srv uid = Some sub" "length (msgC sub) + length msgs \<le> msgC_capacity"
  shows "\<exists>h. sseConnectionMap (fold SendToSubscribers msgs srv) uid = Some (sub\<lparr>msgC := msgC sub @ msgs, since := h\<rparr>)"
  using assms
proof (induction msgs arbitrary: srv sub)
  case Nil
  then show ?case by (auto intro!: exI [of _ "since sub"])
next
  case (Cons msg msgs)
  let ?sub = "sub\<lparr>msgC := msgC sub @ [msg], since := since sub @ [msg]\<rparr>"
  have "sseConnectionMap (SendToSubscribers msg srv) uid = Some ?sub"
    using Cons.prems by (simp add: SendToSubscribers_def offer_msg_def Let_def)
  from Cons.IH [OF this] Cons.prems(2) show ?case by auto
qed

lemma deliver_all:
  assumes "sseConnectionMap srv uid = Some sub" "msgC sub = msgs"
  shows "\<exists>sub'. sseConnectionMap ((deliver uid ^^ length msgs) srv) uid = Some sub' \<and> msgC sub' = [] \<and>
    written sub' = written sub @ concat (map (\<lambda>m. m @ [CHR 0x0A]) msgs)"
  using assms
proof (induction msgs arbitrary: srv sub)
  case (Cons msg msgs)
  let ?sub = "sub\<lparr>msgC := msgs, written := written sub @ msg @ [CHR 0x0A], delivered := delivered sub @ [msg]\<rparr>"
  have "sseConnectionMap (deliver uid srv) uid = Some ?sub" using Cons.prems by (simp add: deliver_def)
  from Cons.IH [OF this] show ?case by (simp add: funpow_Suc_right del: funpow.simps(2))
qed simp


definition example_publisher :: BidProcessor where
  "example_publisher = example_processor\<lparr>redisClient := True\<rparr>"

lemma example_publisher_runs:
  "snd (handle_messages hex healthy_env GenesisDefault [example_message] example_publisher)"
proof -
  have "io_part example_publisher = io_part example_processor" by (simp add: io_part_def example_publisher_def)
  from io_part_cong(4,5) [OF this] have "handles_ok example_publisher" "names_ok example_publisher"
    using example_processor_ok by simp_all
  from processBids_runs [OF example_processor_ok(1) this] show ?thesis by (simp add: handle_messages_batch)
qed

definition example_log :: "string list" where
  "example_log = redisLog (fst (handle_messages (\<lambda>_. []) healthy_env GenesisDefault [example_message] example_publisher))"


end
