(* ===== verification/BidcollectCmd.thy ===== *)
theory BidcollectCmd
  imports BidCollector
begin

text \<open>
  \<open>cmd/service/bidcollect.go\<close>: the command that chooses what the process runs from its flags, and the relays
  that a collector polls.  The servers, the generator and the collector it starts are the other components.
\<close>

section \<open>Flags and modes\<close>

record bidcollect_flags =
  collectUltrasoundStream :: bool
  collectGetHeader :: bool
  collectDataAPI :: bool
  useAllRelays :: bool
  beaconNodeURI :: string
  outDir :: string
  outputTSV :: bool
  uid :: string
  useRedis :: bool
  redisAddr :: string
  runWebserverOnly :: bool
  WebserverListenAddr :: string
  runDevServerOnly :: bool
  devServerListenAddr :: string
  buildWebsite :: bool
  buildWebsiteUpload :: bool
  buildWebsiteOutDir :: string

text \<open>The defaults of the flags; the beacon node's is a variable of the environment.\<close>

definition default_flags :: "string \<Rightarrow> bidcollect_flags" where
  "default_flags beacon =
     \<lparr>collectUltrasoundStream = False, collectGetHeader = False, collectDataAPI = False, useAllRelays = False,
      beaconNodeURI = beacon, outDir = ''csv'', outputTSV = False, uid = [], useRedis = False, redisAddr = ''localhost:6379'',
      runWebserverOnly = False, WebserverListenAddr = ''localhost:8080'', runDevServerOnly = False,
      devServerListenAddr = ''localhost:8095'', buildWebsite = False, buildWebsiteUpload = False, buildWebsiteOutDir = ''build''\<rparr>"

record 'pk collect_opts =
  cl_Collector :: BidCollectorOpts
  cl_Relays :: "'pk RelayEntry list"
  cl_CollectUltrasoundStream :: bool
  cl_CollectGetHeader :: bool
  cl_CollectDataAPI :: bool
  cl_BeaconNodeURI :: string

datatype 'pk bidcollect_mode =
    SseServerMode string string
  | DevServerMode string
  | BuildSiteMode string bool
  | CollectMode "'pk collect_opts"

text \<open>\<open>MustNewRelayEntry\<close> and \<open>MustGetRelays\<close> end the process on a bad relay: \<open>None\<close>.\<close>

definition bidcollect_relays :: "(string \<Rightarrow> 'pk option) \<Rightarrow> bool \<Rightarrow> 'pk RelayEntry list option" where
  "bidcollect_relays decode allRelays =
     (case MustNewRelayEntry decode RelayFlashbots False of
        None \<Rightarrow> None
      | Some flashbots \<Rightarrow>
          (case MustNewRelayEntry decode RelayUltrasound False of
             None \<Rightarrow> None
           | Some ultrasound \<Rightarrow> if allRelays then GetRelays decode else Some [flashbots, ultrasound]))"

definition bidcollect_run :: "(string \<Rightarrow> 'pk option) \<Rightarrow> string \<Rightarrow> bidcollect_flags \<Rightarrow> 'pk bidcollect_mode option" where
  "bidcollect_run decode shortuuid_New f =
     (if runWebserverOnly f then Some (SseServerMode (WebserverListenAddr f) (redisAddr f))
      else if runDevServerOnly f then Some (DevServerMode (devServerListenAddr f))
      else if buildWebsite f then Some (BuildSiteMode (buildWebsiteOutDir f) (buildWebsiteUpload f))
      else let u = (if uid f = [] then take 6 shortuuid_New else uid f) in
        (case bidcollect_relays decode (useAllRelays f) of
           None \<Rightarrow> None
         | Some relays \<Rightarrow> Some (CollectMode
             \<lparr>cl_Collector = \<lparr>co_UID = u, co_OutDir = outDir f, co_OutputTSV = outputTSV f, co_RedisAddr = redisAddr f, co_UseRedis = useRedis f\<rparr>,
              cl_Relays = relays, cl_CollectUltrasoundStream = collectUltrasoundStream f, cl_CollectGetHeader = collectGetHeader f,
              cl_CollectDataAPI = collectDataAPI f, cl_BeaconNodeURI = beaconNodeURI f\<rparr>)))"

text \<open>The sources \<open>MustStart\<close> of the collector starts beside the processor.\<close>

definition started_sources :: "'pk collect_opts \<Rightarrow> source set" where
  "started_sources os =
     (if cl_CollectGetHeader os then {GetHeaderC} else {}) \<union> (if cl_CollectDataAPI os then {DataAPIC} else {}) \<union>
     (if cl_CollectUltrasoundStream os then {UltrasoundC} else {})"

section \<open>The relays\<close>

definition relay_keys :: "(string \<times> string) list" where
  "relay_keys =
    [(''0xac6e77dfe25ecd6110b8e780608cce0dab71fdd5ebea22a16c0205200f2f8e2e3ad3b71d3499c54ad14d6c21b41a37ae'', ''boost-relay.flashbots.net''),
     (''0xa1559ace749633b997cb3fdacffb890aeebdb0f5a3b6aaa7eeeaf1a38af0a8fe88b9e4b1f61f236d2e64d95733327a62'', ''relay.ultrasound.money''),
     (''0x8b5d2e73e2a3a55c6c87b8b6eb92e0149a125c852751db1422fa951e42a09b82c142c3ea98d0d9930b056a3bc9896b8f'', ''bloxroute.max-profit.blxrbdn.com''),
     (''0xb0b07cd0abef743db4260b0ed50619cf6ad4d82064cb4fbec9d3ec530f7c5e6793d9f286c4e082c0244ffb9f2658fe88'', ''bloxroute.regulated.blxrbdn.com''),
     (''0xb3ee7afcf27f1f1259ac1787876318c6584ee353097a50ed84f51a1f21a323b3736f271a895c7ce918c038e4265918be'', ''relay.edennetwork.io''),
     (''0xa7ab7a996c8584251c8f925da3170bdfd6ebc75d50f5ddc4050a6fdc77f2a3b5fce2cc750d0865e05d7228af97d69561'', ''agnostic-relay.net''),
     (''0xa15b52576bcbf1072f4a011c0f99f9fb6c66f3e1ff321f11f461d15e31b1cb359caa092c71bbded0bae5b5ea401aab7e'', ''aestus.live''),
     (''0x8c4ed5e24fe5c6ae21018437bde147693f68cda427cd1122cf20819c30eda7ed74f72dece09bb313f2a1855595ab677d'', ''titanrelay.xyz''),
     (''0x88ef3061f598101ca713d556cf757763d9be93d33c3092d3ab6334a36855b6b4a4020528dd533a62d25ea6648251e62e'', ''relay.ethgas.com''),
     (''0xb66921e917a8f4cfc3c52e10c1e5c77b1255693d9e6ed6f5f444b71ca4bb610f2eff4fa98178efbf4dd43a30472c497e'', ''relay.btcs.com'')]"

lemma RelayURLs_keys: "RelayURLs = map (\<lambda>(key, host). relay_url key host) relay_keys"
  by (simp add: RelayURLs_def relay_keys_def RelayFlashbots_def RelayUltrasound_def relay_url_def)

lemma relay_keys_plain: "list_all (\<lambda>(key, host). plain_text key \<and> key \<noteq> [] \<and> plain_text host \<and> host \<noteq> []) relay_keys"
  by code_simp

definition relay_entry :: "'pk \<Rightarrow> string \<Rightarrow> string \<Rightarrow> 'pk RelayEntry" where
  "relay_entry pk key host = \<lparr>PublicKey = Some pk,
     RelayURL = empty_URL\<lparr>Scheme := ''https'', User := Some \<lparr>username = key, password = None\<rparr>, Host := host\<rparr>\<rparr>"

lemma NewRelayEntry_relay_url:
  assumes "plain_text key" "key \<noteq> []" "plain_text host" "host \<noteq> []" "decode key = Some pk"
  shows "NewRelayEntry decode (relay_url key host) requireUser = RelayOk (relay_entry pk key host)"
  using assms parse_relay_url [of key host]
  by (simp add: NewRelayEntry_def relay_entry_def relay_url_def strings_HasPrefix_def Username_def Let_def)

lemma Hostname_relay_entry:
  "plain_text host \<Longrightarrow> host \<noteq> [] \<Longrightarrow> RelayEntry_Hostname (relay_entry pk key host) = host"
  by (cases host) (auto simp: relay_entry_def RelayEntry_Hostname_def Hostname_def cut_last_none strings_HasPrefix_def plain_text_def)

lemma parse_relays_hosts:
  assumes "list_all (\<lambda>(key, host). plain_text key \<and> key \<noteq> [] \<and> plain_text host \<and> host \<noteq> []) ks"
    and "\<forall>key \<in> fst ` set ks. decode key \<noteq> None"
  shows "\<exists>es. parse_relays decode (map (\<lambda>(key, host). relay_url key host) ks) = Some es \<and> RelayEntriesToHostnameStrings es = map snd ks"
  using assms
proof (induction ks)
  case (Cons k ks)
  then obtain es where es: "parse_relays decode (map (\<lambda>(key, host). relay_url key host) ks) = Some es" "RelayEntriesToHostnameStrings es = map snd ks"
    by auto
  obtain key host pk where k: "k = (key, host)" "decode key = Some pk" using Cons.prems(2) by (cases k) auto
  with Cons.prems(1) have plain: "plain_text key" "key \<noteq> []" "plain_text host" "host \<noteq> []" by auto
  show ?case
    using es k NewRelayEntry_relay_url [of key host decode pk True, OF plain k(2)] Hostname_relay_entry [of host pk key, OF plain(3,4)]
    by (simp add: RelayEntriesToHostnameStrings_def)
qed (simp add: RelayEntriesToHostnameStrings_def)

lemma known_relay:
  assumes "i < length relay_keys" and "\<forall>key \<in> fst ` set relay_keys. decode key \<noteq> None"
  shows "\<exists>e. MustNewRelayEntry decode (RelayURLs ! i) False = Some e \<and> RelayEntry_Hostname e = map snd relay_keys ! i"
proof -
  obtain key host where k: "relay_keys ! i = (key, host)" by fastforce
  have mem: "(key, host) \<in> set relay_keys" using assms(1) k nth_mem by metis
  then have plain: "plain_text key" "key \<noteq> []" "plain_text host" "host \<noteq> []"
    using relay_keys_plain by (auto simp: list_all_iff)
  obtain pk where "decode key = Some pk" using assms(2) mem by force
  then show ?thesis
    using NewRelayEntry_relay_url [of key host decode pk False, OF plain] Hostname_relay_entry [of host pk key, OF plain(3,4)] assms(1) k
    by (simp add: MustNewRelayEntry_def RelayURLs_keys)
qed

text \<open>A process started to collect bids, with keys that decode, collects from the Flashbots and the Ultrasound
  relay, or from all ten known relays when asked to, in the order of the list; it starts exactly the sources
  its flags name.\<close>

theorem bidcollect_polls_relays:
  assumes "\<not> runWebserverOnly f" "\<not> runDevServerOnly f" "\<not> buildWebsite f"
    and "\<forall>key \<in> fst ` set relay_keys. decode key \<noteq> None"
  shows "\<exists>os. bidcollect_run decode new f = Some (CollectMode os) \<and>
    RelayEntriesToHostnameStrings (cl_Relays os) =
      (if useAllRelays f then map snd relay_keys else [''boost-relay.flashbots.net'', ''relay.ultrasound.money'']) \<and>
    (GetHeaderC \<in> started_sources os) = collectGetHeader f \<and> (DataAPIC \<in> started_sources os) = collectDataAPI f \<and>
    (UltrasoundC \<in> started_sources os) = collectUltrasoundStream f"
proof -
  have len: "0 < length relay_keys" "1 < length relay_keys" by (simp_all add: relay_keys_def)
  have urls: "RelayURLs ! 0 = RelayFlashbots" "RelayURLs ! 1 = RelayUltrasound" by (simp_all add: RelayURLs_def)
  have hosts: "map snd relay_keys ! 0 = ''boost-relay.flashbots.net''" "map snd relay_keys ! 1 = ''relay.ultrasound.money''"
    by (simp_all add: relay_keys_def)
  obtain fb us where two: "MustNewRelayEntry decode RelayFlashbots False = Some fb" "RelayEntry_Hostname fb = ''boost-relay.flashbots.net''"
      "MustNewRelayEntry decode RelayUltrasound False = Some us" "RelayEntry_Hostname us = ''relay.ultrasound.money''"
    using known_relay [OF len(1) assms(4)] known_relay [OF len(2) assms(4)] unfolding urls hosts by blast
  obtain es where all: "GetRelays decode = Some es" "RelayEntriesToHostnameStrings es = map snd relay_keys"
    using parse_relays_hosts [OF relay_keys_plain assms(4)] by (auto simp: GetRelays_def RelayURLs_keys)
  have "\<exists>rs. bidcollect_relays decode (useAllRelays f) = Some rs \<and> RelayEntriesToHostnameStrings rs =
      (if useAllRelays f then map snd relay_keys else [''boost-relay.flashbots.net'', ''relay.ultrasound.money''])"
    using two all by (simp add: bidcollect_relays_def RelayEntriesToHostnameStrings_def)
  then show ?thesis using assms(1-3) by (auto simp: bidcollect_run_def started_sources_def Let_def)
qed

theorem bidcollect_polls_relays_witness:
  "\<exists>os. bidcollect_run Some ''sHtKyVGtmFDrAXwy9XNnpT'' (default_flags ''http://localhost:3500'') = Some (CollectMode os) \<and>
    RelayEntriesToHostnameStrings (cl_Relays os) = [''boost-relay.flashbots.net'', ''relay.ultrasound.money''] \<and>
    DataAPIC \<notin> started_sources os"
  using bidcollect_polls_relays [of "default_flags ''http://localhost:3500''" Some "''sHtKyVGtmFDrAXwy9XNnpT''"]
  by (auto simp: default_flags_def)

end
