(* ===== verification/EthNode.thy ===== *)
theory EthNode
  imports GoStrings
begin

text \<open>
  \<open>common/eth_node.go\<close>: calls to a list of Ethereum clients, the next one tried when one fails.
  A client is a parameter: what it answers to \<open>BlockByNumber\<close>, \<open>BlockByHash\<close> and \<open>BalanceAt\<close>, with
  \<open>Inl\<close> for an error.  A Go result \<open>(value, err)\<close> is a pair of options.
\<close>

record ('block, 'err) eth_client =
  client_BlockByNumber :: "int \<Rightarrow> 'err + 'block"
  client_BlockByHash :: "string \<Rightarrow> 'err + 'block"
  client_BalanceAt :: "string \<Rightarrow> int \<Rightarrow> 'err + int"

record ('block, 'err) EthNode =
  Clients :: "('block, 'err) eth_client list"

section \<open>Construction\<close>

datatype 'err node_error = ErrURLEmpty | ErrDial 'err

fun dial_all :: "(string \<Rightarrow> 'err + ('block, 'err) eth_client) \<Rightarrow> string list \<Rightarrow> 'err + ('block, 'err) eth_client list" where
  "dial_all dial [] = Inr []"
| "dial_all dial (uri # uris) =
     (case dial uri of
        Inl e \<Rightarrow> Inl e
      | Inr c \<Rightarrow> (case dial_all dial uris of Inl e \<Rightarrow> Inl e | Inr cs \<Rightarrow> Inr (c # cs)))"

definition NewEthNode ::
    "(string \<Rightarrow> 'err + ('block, 'err) eth_client) \<Rightarrow> string list \<Rightarrow> 'err node_error + ('block, 'err) EthNode" where
  "NewEthNode dial uris =
     (if uris = [] then Inl ErrURLEmpty
      else case dial_all dial uris of
        Inl e \<Rightarrow> Inl (ErrDial e)
      | Inr cs \<Rightarrow> Inr \<lparr>Clients = cs\<rparr>)"

section \<open>Calls\<close>

text \<open>The loop of \<open>BlockByNumber\<close> and \<open>BlockByHash\<close>: the error of the last client tried is kept.\<close>

fun try_clients :: "('c \<Rightarrow> 'err + 'a) \<Rightarrow> 'err option \<Rightarrow> 'c list \<Rightarrow> 'a option \<times> 'err option" where
  "try_clients call err [] = (None, err)"
| "try_clients call err (c # cs) =
     (case call c of Inr b \<Rightarrow> (Some b, None) | Inl e \<Rightarrow> try_clients call (Some e) cs)"

definition BlockByNumber :: "('block, 'err) EthNode \<Rightarrow> int \<Rightarrow> 'block option \<times> 'err option" where
  "BlockByNumber n blockNumber = try_clients (\<lambda>c. client_BlockByNumber c blockNumber) None (Clients n)"

definition BlockByHash :: "('block, 'err) EthNode \<Rightarrow> string \<Rightarrow> 'block option \<times> 'err option" where
  "BlockByHash n blockHash = try_clients (\<lambda>c. client_BlockByHash c blockHash) None (Clients n)"

text \<open>In \<open>GetBalanceDiff\<close> the errors are assigned to variables of the loop body, so the named result
  \<open>err\<close> stays nil.\<close>

fun balance_diff_loop :: "string \<Rightarrow> int \<Rightarrow> ('block, 'err) eth_client list \<Rightarrow> int option \<times> 'err option" where
  "balance_diff_loop address blockNumber [] = (None, None)"
| "balance_diff_loop address blockNumber (c # cs) =
     (case client_BalanceAt c address (blockNumber - 1) of
        Inl _ \<Rightarrow> balance_diff_loop address blockNumber cs
      | Inr before \<Rightarrow>
          (case client_BalanceAt c address blockNumber of
             Inl _ \<Rightarrow> balance_diff_loop address blockNumber cs
           | Inr after \<Rightarrow> (Some (after - before), None)))"

definition GetBalanceDiff :: "('block, 'err) EthNode \<Rightarrow> string \<Rightarrow> int \<Rightarrow> int option \<times> 'err option" where
  "GetBalanceDiff n address blockNumber = balance_diff_loop address blockNumber (Clients n)"

section \<open>Fallback\<close>

text \<open>What callers rely on: the answer of the first client that succeeds, and otherwise an error.\<close>

locale fallback =
  fixes run :: "'c list \<Rightarrow> 'a option \<times> 'err option" and call :: "'c \<Rightarrow> 'err + 'a"
  assumes run_Nil: "run [] = (None, None)"
    and run_ok: "call c = Inr a \<Longrightarrow> run (c # cs) = (Some a, None)"
    and run_err: "call c = Inl e \<Longrightarrow> run (c # cs) = (if cs = [] then (None, Some e) else run cs)"
begin

lemma run_first:
  "(\<forall>c \<in> set pre. isl (call c)) \<Longrightarrow> call c = Inr a \<Longrightarrow> run (pre @ c # suf) = (Some a, None)"
proof (induction pre)
  case (Cons d pre)
  then obtain e where "call d = Inl e" by (cases "call d") auto
  with Cons show ?case by (simp add: run_err)
qed (simp add: run_ok)

lemma run_all_fail: "cs \<noteq> [] \<Longrightarrow> (\<forall>c \<in> set cs. isl (call c)) \<Longrightarrow> run cs = (None, Some (projl (call (last cs))))"
proof (induction cs)
  case (Cons d cs)
  then obtain e where "call d = Inl e" by (cases "call d") auto
  with Cons show ?case by (auto simp: run_err)
qed simp

end

lemma try_clients_err: "cs \<noteq> [] \<Longrightarrow> try_clients call e cs = try_clients call None cs"
  by (cases cs) (simp_all split: sum.splits)

interpretation block_fallback: fallback "try_clients call None" call for call
proof unfold_locales
  fix c e cs
  assume "call c = Inl e"
  then show "try_clients call None (c # cs) = (if cs = [] then (None, Some e) else try_clients call None cs)"
    using try_clients_err [of cs call "Some e"] by auto
qed simp_all

text \<open>A node answers with the block of the first client that has it, whatever the clients before it
  failed with; when every client of a non-empty list fails, the error of the last one is returned.\<close>

theorem BlockByHash_fallback:
  assumes "\<forall>c \<in> set pre. isl (client_BlockByHash c h)"
  shows "(client_BlockByHash c h = Inr b \<longrightarrow> BlockByHash \<lparr>Clients = pre @ c # suf\<rparr> h = (Some b, None)) \<and>
    (pre \<noteq> [] \<longrightarrow> BlockByHash \<lparr>Clients = pre\<rparr> h = (None, Some (projl (client_BlockByHash (last pre) h))))"
proof -
  let ?call = "\<lambda>c. client_BlockByHash c h"
  have "try_clients ?call None (pre @ c # suf) = (Some b, None)" if "?call c = Inr b"
    by (rule block_fallback.run_first) (use assms that in simp_all)
  moreover have "try_clients ?call None pre = (None, Some (projl (?call (last pre))))" if "pre \<noteq> []"
    by (rule block_fallback.run_all_fail) (use assms that in simp_all)
  ultimately show ?thesis by (simp add: BlockByHash_def)
qed

definition down_client :: "(nat, string) eth_client" where
  "down_client = \<lparr>client_BlockByNumber = (\<lambda>_. Inl ''down''), client_BlockByHash = (\<lambda>_. Inl ''down''),
     client_BalanceAt = (\<lambda>_ _. Inl ''down'')\<rparr>"

definition up_client :: "(nat, string) eth_client" where
  "up_client = \<lparr>client_BlockByNumber = (\<lambda>n. Inr (nat n)), client_BlockByHash = (\<lambda>h. Inr (length h)),
     client_BalanceAt = (\<lambda>_ n. Inr (10 * n))\<rparr>"

theorem BlockByHash_fallback_witness:
  "BlockByHash \<lparr>Clients = [down_client, up_client]\<rparr> ''0xab'' = (Some 4, None) \<and>
   BlockByHash \<lparr>Clients = [down_client]\<rparr> ''0xab'' = (None, Some ''down'')"
  using BlockByHash_fallback [of "[down_client]" "''0xab''" up_client 4 "[]"]
  by (simp add: down_client_def up_client_def)

text \<open>When every client fails, \<open>GetBalanceDiff\<close> returns neither a difference nor an error: the caller
  that only checks the error goes on with a nil difference.\<close>

theorem GetBalanceDiff_swallows_errors:
  assumes "\<forall>c \<in> set (Clients n). isl (client_BalanceAt c a (b - 1)) \<or> isl (client_BalanceAt c a b)"
  shows "GetBalanceDiff n a b = (None, None)"
proof -
  have "balance_diff_loop a b cs = (None, None)"
    if "\<forall>c \<in> set cs. isl (client_BalanceAt c a (b - 1)) \<or> isl (client_BalanceAt c a b)"
    for cs :: "('a, 'b) eth_client list"
    using that by (induction cs) (auto split: sum.splits)
  with assms show ?thesis by (simp add: GetBalanceDiff_def)
qed

theorem GetBalanceDiff_swallows_errors_witness:
  "GetBalanceDiff \<lparr>Clients = [down_client]\<rparr> ''0xab'' 7 = (None, None)"
  using GetBalanceDiff_swallows_errors [of "\<lparr>Clients = [down_client]\<rparr>" "''0xab''" 7]
  by (simp add: down_client_def)

lemma GetBalanceDiff_example: "GetBalanceDiff \<lparr>Clients = [down_client, up_client]\<rparr> ''0xab'' 7 = (Some 10, None)"
  by (simp add: GetBalanceDiff_def down_client_def up_client_def)

end
