(* ===== verification/GoFloat.thy ===== *)
theory GoFloat
  imports Complex_Main GoStrings
begin

text \<open>
  Binary floating point as the source uses it: \<open>float64\<close> quotients of counters and
  \<open>big.Float\<close> amounts (64 bits of mantissa), both rounded to nearest, ties to even, and
  printed in decimal.  A number is a sign, a mantissa and a binary exponent; everything is
  computed on integers, and the lemmas bound the rounding error.  Exponents are unbounded: the
  amounts and ratios of the source are far from overflow and underflow.
\<close>

section \<open>Rounding\<close>

fun bitlen :: "nat \<Rightarrow> nat" where
  "bitlen n = (if n = 0 then 0 else Suc (bitlen (n div 2)))"

declare bitlen.simps [simp del]

text \<open>The integer nearest to a quotient, the even one of two.\<close>

definition half_even :: "nat \<Rightarrow> nat \<Rightarrow> nat" where
  "half_even n d =
     (let q = n div d; r = n mod d
      in if 2 * r < d then q else if d < 2 * r then q + 1 else q + q mod 2)"

datatype bigfloat = BF (bf_neg: bool) (bf_mant: nat) (bf_exp: int)

text \<open>A quotient divided by a power of two, as a quotient.\<close>

definition scale_num :: "nat \<Rightarrow> int \<Rightarrow> nat" where
  "scale_num n e = (if e < 0 then n * 2 ^ nat (- e) else n)"

definition scale_den :: "nat \<Rightarrow> int \<Rightarrow> nat" where
  "scale_den d e = (if e < 0 then d else d * 2 ^ nat e)"

definition round_exp :: "nat \<Rightarrow> nat \<Rightarrow> nat \<Rightarrow> int" where
  "round_exp prec n d =
     (let e = int (bitlen n) - int (bitlen d) - int prec
      in if scale_num n e div scale_den d e < 2 ^ prec then e else e + 1)"

definition round_quot :: "nat \<Rightarrow> bool \<Rightarrow> nat \<Rightarrow> nat \<Rightarrow> bigfloat" where
  "round_quot prec neg n d =
     (if n = 0 then BF neg 0 0
      else let e = round_exp prec n d
           in BF neg (half_even (scale_num n e) (scale_den d e)) e)"

section \<open>Arithmetic\<close>

text \<open>The mantissa of a number brought to a lower exponent.\<close>

definition mant_at :: "bigfloat \<Rightarrow> int \<Rightarrow> int" where
  "mant_at x e = (if bf_neg x then - 1 else 1) * int (bf_mant x) * 2 ^ nat (bf_exp x - e)"

definition bf_of_int_quot :: "nat \<Rightarrow> bool \<Rightarrow> int \<Rightarrow> int \<Rightarrow> bigfloat" where
  "bf_of_int_quot prec zero_neg m e =
     (if m = 0 then BF zero_neg 0 0
      else if e < 0 then round_quot prec (m < 0) (nat \<bar>m\<bar>) (2 ^ nat (- e))
      else round_quot prec (m < 0) (nat \<bar>m\<bar> * 2 ^ nat e) 1)"

definition bf_add :: "nat \<Rightarrow> bigfloat \<Rightarrow> bigfloat \<Rightarrow> bigfloat" where
  "bf_add prec x y =
     (let e = min (bf_exp x) (bf_exp y)
      in bf_of_int_quot prec (bf_neg x \<and> bf_neg y) (mant_at x e + mant_at y e) e)"

definition bf_quo :: "nat \<Rightarrow> bigfloat \<Rightarrow> bigfloat \<Rightarrow> bigfloat" where
  "bf_quo prec x y =
     (let neg = (bf_neg x \<noteq> bf_neg y); e = bf_exp x - bf_exp y
      in if bf_mant x = 0 then BF neg 0 0
         else round_quot prec neg (scale_num (bf_mant x) (- e)) (scale_den (bf_mant y) (- e)))"

definition bf_less :: "bigfloat \<Rightarrow> bigfloat \<Rightarrow> bool" where
  "bf_less x y \<longleftrightarrow> (let e = min (bf_exp x) (bf_exp y) in mant_at x e < mant_at y e)"

section \<open>Printing\<close>

text \<open>A magnitude times a power of ten, rounded to an integer.\<close>

definition decimal_int :: "bigfloat \<Rightarrow> nat \<Rightarrow> nat" where
  "decimal_int x k = half_even (scale_num (bf_mant x * 10 ^ k) (- bf_exp x)) (scale_den 1 (- bf_exp x))"

definition pad_left :: "nat \<Rightarrow> string \<Rightarrow> string" where
  "pad_left w s = replicate (w - length s) (CHR ''0'') @ s"

definition fixed_str :: "bool \<Rightarrow> nat \<Rightarrow> nat \<Rightarrow> string" where
  "fixed_str neg k N =
     (if neg then ''-'' else []) @ nat_str (N div 10 ^ k) @
     (if k = 0 then [] else ''.'' @ pad_left k (nat_str (N mod 10 ^ k)))"

text \<open>\<open>Text('f', k)\<close>, also the verb \<open>%.kf\<close> of a \<open>float64\<close>.\<close>

definition bf_Text_f :: "bigfloat \<Rightarrow> nat \<Rightarrow> string" where
  "bf_Text_f x k = fixed_str (bf_neg x) k (decimal_int x k)"

text \<open>\<open>Text('g', 10)\<close>, which is \<open>String()\<close>: ten significant digits, trailing zeros removed, and an
  exponent when it is below \<open>-4\<close> or at least the number of digits.\<close>

definition strip_zeros :: "string \<Rightarrow> string" where
  "strip_zeros s = rev (dropWhile (\<lambda>c. c = CHR ''0'') (rev s))"

definition bf_dexp :: "bigfloat \<Rightarrow> int" where
  "bf_dexp x =
     (let n = scale_num (bf_mant x) (- bf_exp x); d = scale_den 1 (- bf_exp x)
      in if d \<le> n then int (length (nat_str (n div d)))
         else 1 - int (length (nat_str ((d - 1) div n))))"

definition digits_10 :: "bigfloat \<Rightarrow> string \<times> int" where
  "digits_10 x =
     (let n = scale_num (bf_mant x) (- bf_exp x); d = scale_den 1 (- bf_exp x); dexp = bf_dexp x;
          N = (if dexp \<le> 10 then half_even (n * 10 ^ nat (10 - dexp)) d
               else half_even n (d * 10 ^ nat (dexp - 10)))
      in if N = 10 ^ 10 then (''1'', dexp + 1) else (strip_zeros (nat_str N), dexp))"

definition exp_str :: "int \<Rightarrow> string" where
  "exp_str e = (if e < 0 then ''-'' else ''+'') @ pad_left 2 (nat_str (nat \<bar>e\<bar>))"

definition bf_String :: "bigfloat \<Rightarrow> string" where
  "bf_String x =
     (let sign = (if bf_neg x then ''-'' else []) in
      if bf_mant x = 0 then sign @ ''0''
      else case digits_10 x of (mant, dexp) \<Rightarrow>
        let len = int (length mant);
            eprec = (if 10 > len \<and> len \<ge> dexp then len else 10);
            exp = dexp - 1
        in sign @
          (if exp < - 4 \<or> exp \<ge> eprec
           then take 1 mant @ (if len > 1 then ''.'' @ tl mant else []) @ ''e'' @ exp_str exp
           else if dexp \<le> 0 then ''0.'' @ replicate (nat (- dexp)) (CHR ''0'') @ mant
           else if len \<le> dexp then mant @ replicate (nat (dexp - len)) (CHR ''0'')
           else take (nat dexp) mant @ ''.'' @ drop (nat dexp) mant))"

section \<open>Parsing\<close>

text \<open>Decimal numbers, with an optional sign, fraction and exponent; \<open>None\<close> is a failed \<open>SetString\<close>.\<close>

definition parse_exponent :: "string \<Rightarrow> int option" where
  "parse_exponent s =
     (case s of
        [] \<Rightarrow> Some 0
      | c # t \<Rightarrow>
          (if c = CHR ''e'' \<or> c = CHR ''E'' then
             (case scan_sign t of (neg, u) \<Rightarrow>
                if u \<noteq> [] \<and> list_all is_digit u then Some ((if neg then - 1 else 1) * int (digits_val u)) else None)
           else None))"

definition bf_SetString :: "nat \<Rightarrow> string \<Rightarrow> bigfloat option" where
  "bf_SetString prec s =
     (case scan_sign s of (neg, t) \<Rightarrow>
        let whole = takeWhile is_digit t;
            rest = dropWhile is_digit t;
            frac = (case rest of c # u \<Rightarrow> if c = CHR ''.'' then takeWhile is_digit u else [] | [] \<Rightarrow> []);
            tail = (case rest of c # u \<Rightarrow> if c = CHR ''.'' then dropWhile is_digit u else rest | [] \<Rightarrow> [])
        in if whole @ frac = [] then None
           else case parse_exponent tail of
             None \<Rightarrow> None
           | Some x \<Rightarrow>
               let e = x - int (length frac); m = digits_val (whole @ frac)
               in Some (if e < 0 then round_quot prec neg m (10 ^ nat (- e))
                        else round_quot prec neg (m * 10 ^ nat e) 1))"

section \<open>The rounding error\<close>

definition bf_val :: "bigfloat \<Rightarrow> real" where
  "bf_val x = (if bf_neg x then - 1 else 1) * real (bf_mant x) * 2 powi bf_exp x"

lemma bitlen_bounds: "0 < n \<Longrightarrow> 2 ^ (bitlen n - 1) \<le> n \<and> n < 2 ^ bitlen n \<and> 0 < bitlen n"
proof (induction n rule: bitlen.induct)
  case (1 n)
  show ?case
  proof (cases "n div 2 = 0")
    case True
    with "1.prems" have "n = 1" by linarith
    then show ?thesis by (simp add: bitlen.simps [of "Suc 0"] bitlen.simps [of 0])
  next
    case False
    define k where "k = bitlen (n div 2)"
    have "2 ^ (k - 1) \<le> n div 2" "n div 2 < 2 ^ k" "0 < k"
      using "1.IH" "1.prems" False by (simp_all add: k_def)
    moreover have "(2::nat) ^ k = 2 * 2 ^ (k - 1)" using \<open>0 < k\<close> by (cases k) simp_all
    ultimately have "2 ^ k \<le> n" "n < 2 ^ Suc k" by simp_all
    moreover have "bitlen n = Suc k" using "1.prems" by (subst bitlen.simps) (simp add: k_def)
    ultimately show ?thesis by simp
  qed
qed

lemma scale_quot:
  "0 < d \<Longrightarrow> real (scale_num n e) / real (scale_den d e) = real n / real d / 2 powi e"
  by (cases "e < 0") (simp_all add: scale_num_def scale_den_def power_int_def field_simps)

lemma scale_den_pos [simp]: "0 < d \<Longrightarrow> 0 < scale_den d e"
  by (simp add: scale_den_def)

lemma half_even_error:
  assumes "0 < d"
  shows "\<bar>real (half_even n d) - real n / real d\<bar> \<le> 1 / 2"
proof -
  define q r where "q = n div d" and "r = n mod d"
  have n: "n = d * q + r" and r: "r < d" using assms by (simp_all add: q_def r_def)
  have quot: "real n / real d = real q + real r / real d" using assms by (simp add: n field_simps)
  have "half_even n d = q \<and> 2 * r \<le> d \<or> half_even n d = q + 1 \<and> d \<le> 2 * r"
    unfolding half_even_def q_def [symmetric] r_def [symmetric] Let_def
    by (cases "even q") (auto simp: odd_iff_mod_2_eq_one)
  then show ?thesis
  proof
    assume h: "half_even n d = q \<and> 2 * r \<le> d"
    then have "real r / real d \<le> 1 / 2" using assms by (simp add: field_simps)
    moreover have "0 \<le> real r / real d" by simp
    ultimately show ?thesis unfolding quot using h by linarith
  next
    assume h: "half_even n d = q + 1 \<and> d \<le> 2 * r"
    then have "1 / 2 \<le> real r / real d" "real r / real d < 1" using assms r by (simp_all add: field_simps)
    then show ?thesis unfolding quot using h by linarith
  qed
qed

lemma powi_mono_exp: "(2::real) powi a * 2 powi b = 2 powi (a + b)"
  by (simp add: power_int_add)

text \<open>The scaled quotient has exactly \<open>prec\<close> bits before the binary point.\<close>

lemma bitlen_real:
  assumes "0 < n"
  shows "(2::real) ^ (bitlen n - 1) \<le> real n" "real n < 2 ^ bitlen n" "(2::real) ^ bitlen n = 2 * 2 ^ (bitlen n - 1)"
proof -
  show "(2::real) ^ (bitlen n - 1) \<le> real n" "real n < 2 ^ bitlen n"
    using bitlen_bounds [OF assms] by (metis numeral_power_le_of_nat_cancel_iff, metis of_nat_less_numeral_power_cancel_iff)
  show "(2::real) ^ bitlen n = 2 * 2 ^ (bitlen n - 1)" using bitlen_bounds [OF assms] by (simp flip: power_Suc)
qed

text \<open>Scaled by the difference of the lengths, a quotient has \<open>prec\<close> or one more bit before its point.\<close>

lemma bitlen_quot_bounds:
  assumes "0 < n" "0 < d" "0 < prec"
  defines "e \<equiv> int (bitlen n) - int (bitlen d) - int prec"
  shows "2 ^ (prec - 1) \<le> real n / real d / 2 powi e" "real n / real d / 2 powi e < 2 * 2 ^ prec"
proof -
  note bn = bitlen_real [OF assms(1)] and bd = bitlen_real [OF assms(2)]
  have pe: "2 powi e * 2 ^ bitlen d * 2 ^ prec = (2::real) ^ bitlen n"
    by (simp add: e_def power_int_diff flip: power_int_of_nat)
  have pos: "0 < real d" "(0::real) < 2 powi e" using \<open>0 < d\<close> by simp_all
  have pprec: "(2::real) ^ prec = 2 * 2 ^ (prec - 1)"
    using \<open>0 < prec\<close> by (simp flip: power_Suc)
  have "2 ^ (prec - 1) * (real d * 2 powi e) \<le> 2 ^ (prec - 1) * (2 ^ bitlen d * 2 powi e)"
    using bd(2) by (intro mult_left_mono mult_right_mono) simp_all
  also have "\<dots> = 2 ^ (bitlen n - 1)" using pe bn(3) pprec by (simp add: algebra_simps)
  also have "\<dots> \<le> real n" by (rule bn(1))
  finally show "2 ^ (prec - 1) \<le> real n / real d / 2 powi e" using pos by (simp add: pos_le_divide_eq mult.commute mult.left_commute)
  have "real n < 2 ^ bitlen n" by (rule bn(2))
  also have "\<dots> = 2 * 2 ^ prec * (2 ^ (bitlen d - 1) * 2 powi e)" using pe bd(3) by (simp add: algebra_simps)
  also have "\<dots> \<le> 2 * 2 ^ prec * (real d * 2 powi e)"
    using bd(1) by (intro mult_left_mono mult_right_mono) simp_all
  finally show "real n / real d / 2 powi e < 2 * 2 ^ prec" using pos by (simp add: pos_divide_less_eq mult.commute mult.left_commute)
qed

lemma scaled_floor_less:
  assumes "0 < d"
  shows "scale_num n e div scale_den d e < 2 ^ prec \<longleftrightarrow> real n / real d / 2 powi e < 2 ^ prec"
proof -
  have "scale_num n e div scale_den d e < 2 ^ prec \<longleftrightarrow> scale_num n e < 2 ^ prec * scale_den d e"
    using assms by (simp add: div_less_iff_less_mult)
  also have "\<dots> \<longleftrightarrow> real (scale_num n e) < real (2 ^ prec * scale_den d e)" by (rule of_nat_less_iff [symmetric])
  also have "\<dots> \<longleftrightarrow> real (scale_num n e) / real (scale_den d e) < 2 ^ prec" using assms by (simp add: pos_divide_less_eq)
  also have "\<dots> \<longleftrightarrow> real n / real d / 2 powi e < 2 ^ prec" by (simp only: scale_quot [OF assms, of n e])
  finally show ?thesis .
qed

lemma round_exp_range:
  assumes "0 < n" "0 < d" "0 < prec"
  defines "v \<equiv> real n / real d / 2 powi round_exp prec n d"
  shows "2 ^ (prec - 1) \<le> v \<and> v < 2 ^ prec"
proof -
  define e where "e = int (bitlen n) - int (bitlen d) - int prec"
  define w where "w = real n / real d / 2 powi e"
  note bounds = bitlen_quot_bounds [OF assms(1-3), folded e_def w_def]
  have floor: "scale_num n e div scale_den d e < 2 ^ prec \<longleftrightarrow> w < 2 ^ prec"
    unfolding w_def by (rule scaled_floor_less [OF \<open>0 < d\<close>])
  have pprec: "(2::real) ^ prec = 2 * 2 ^ (prec - 1)"
    using \<open>0 < prec\<close> by (simp flip: power_Suc)
  show ?thesis
  proof (cases "w < 2 ^ prec")
    case True
    then have "v = w" using floor by (simp add: v_def w_def round_exp_def e_def [symmetric] Let_def)
    with bounds True show ?thesis by simp
  next
    case False
    then have "v = w / 2"
      using floor by (simp add: v_def w_def round_exp_def e_def [symmetric] Let_def power_int_add_1)
    with False bounds pprec show ?thesis by simp
  qed
qed

text \<open>A rounded quotient differs from the exact one by at most one part in \<open>2 ^ prec\<close>.\<close>

lemma round_quot_error:
  assumes "0 < d" "0 < prec"
  shows "\<bar>bf_val (round_quot prec neg n d) - (if neg then - 1 else 1) * (real n / real d)\<bar> \<le> real n / real d / 2 ^ prec"
proof (cases "n = 0")
  case False
  define e where "e = round_exp prec n d"
  define v where "v = real n / real d / 2 powi e"
  define m where "m = real (half_even (scale_num n e) (scale_den d e))"
  have "2 ^ (prec - 1) \<le> v" using round_exp_range [of n d prec] False assms by (simp add: v_def e_def)
  then have half: "1 / 2 \<le> v / 2 ^ prec" using \<open>0 < prec\<close> by (cases prec) (simp_all add: field_simps)
  have "\<bar>m - v\<bar> \<le> 1 / 2"
    using half_even_error [of "scale_den d e" "scale_num n e"] assms(1) by (simp add: m_def v_def scale_quot)
  with half have "\<bar>m - v\<bar> \<le> v / 2 ^ prec" by linarith
  then have "\<bar>m - v\<bar> * 2 powi e \<le> v / 2 ^ prec * 2 powi e" by (intro mult_right_mono) simp_all
  moreover have "v * 2 powi e = real n / real d" by (simp add: v_def)
  moreover have "\<bar>m - v\<bar> * 2 powi e = \<bar>m * 2 powi e - v * 2 powi e\<bar>"
    by (simp add: abs_mult flip: left_diff_distrib)
  ultimately have "\<bar>m * 2 powi e - real n / real d\<bar> \<le> real n / real d / 2 ^ prec" by (simp add: field_simps)
  moreover have "bf_val (round_quot prec neg n d) = (if neg then - 1 else 1) * (m * 2 powi e)"
    using False by (simp add: bf_val_def round_quot_def e_def m_def Let_def)
  ultimately show ?thesis by (cases neg) (simp_all add: abs_if split: if_splits)
qed (simp add: bf_val_def round_quot_def)

end
