(* ===== verification/EthValues.thy ===== *)
theory EthValues
  imports GoFloat
begin

text \<open>
  The conversions of \<open>common/utils.go\<close> between wei and ether, over Go's \<open>big.Float\<close>.  A float built from an
  integer by \<open>SetInt\<close> has at least 64 bits of precision (as many as the integer has); one built by
  \<open>SetString\<close> has 64; one built by \<open>NewFloat\<close> has 53.  A result takes the larger precision of its operands.
\<close>

definition set_int_prec :: "int \<Rightarrow> nat" where
  "set_int_prec x = max (bitlen (nat \<bar>x\<bar>)) 64"

definition bf_SetInt :: "int \<Rightarrow> bigfloat" where
  "bf_SetInt x = round_quot (set_int_prec x) (x < 0) (nat \<bar>x\<bar>) 1"

definition params_Ether :: int where
  "params_Ether = 10 ^ 18"

text \<open>The argument is an amount in wei, whatever the name says.\<close>

definition EthToWei :: "int option \<Rightarrow> bigfloat" where
  "EthToWei eth =
     (case eth of
        None \<Rightarrow> BF False 0 0
      | Some e \<Rightarrow> bf_quo (max (set_int_prec e) (set_int_prec params_Ether)) (bf_SetInt e) (bf_SetInt params_Ether))"

text \<open>A quotient by zero is an infinity, and zero by zero panics in \<open>big.Float\<close>.\<close>

datatype float_outcome = Finite bigfloat | Infinite bool | ErrNaN

definition PercentDiff :: "int \<Rightarrow> int \<Rightarrow> float_outcome" where
  "PercentDiff x y =
     (if x = 0 then (if y = 0 then ErrNaN else Infinite (y < 0))
      else let prec = max (set_int_prec y) (set_int_prec x);
               r = bf_quo prec (bf_SetInt y) (bf_SetInt x)
           in Finite (bf_add prec r (BF True 1 0)))"

definition WeiToEth :: "int \<Rightarrow> bigfloat" where
  "WeiToEth wei =
     (let fbalance = (case bf_SetString 64 (int_str wei) of Some x \<Rightarrow> x | None \<Rightarrow> BF False 0 0)
      in bf_quo 64 fbalance (BF False (10 ^ 18) 0))"

definition WeiStrToEthStr :: "string \<Rightarrow> nat \<Rightarrow> string" where
  "WeiStrToEthStr wei decimals = bf_Text_f (WeiToEth (fst (big_SetString wei))) decimals"

definition WeiToEthStr :: "int \<Rightarrow> string" where
  "WeiToEthStr wei = bf_Text_f (WeiToEth wei) 6"

section \<open>Accuracy\<close>

lemma bf_SetString_int_str: "bf_SetString prec (int_str z) = Some (round_quot prec (z < 0) (nat \<bar>z\<bar>) 1)"
proof -
  have drop: "dropWhile is_digit (nat_str n) = []" for n
    by (simp add: dropWhile_eq_Nil_conv nat_str_digits)
  have sign: "scan_sign (int_str z) = (z < 0, nat_str (nat \<bar>z\<bar>))"
    by (cases "z < 0") (simp_all add: int_str_def scan_sign_digits hd_nat_str_digit scan_sign_def [of "CHR ''-'' # _"])
  then show ?thesis by (simp add: bf_SetString_def drop parse_exponent_def Let_def)
qed

lemma bf_quo_error:
  assumes "bf_mant y \<noteq> 0" "0 < prec"
  shows "\<bar>bf_val (bf_quo prec x y) - bf_val x / bf_val y\<bar> \<le> \<bar>bf_val x / bf_val y\<bar> / 2 ^ prec"
proof (cases "bf_mant x = 0")
  case False
  define e where "e = bf_exp x - bf_exp y"
  define n d where "n = scale_num (bf_mant x) (- e)" and "d = scale_den (bf_mant y) (- e)"
  define neg where "neg = (bf_neg x \<noteq> bf_neg y)"
  have "0 < d" using assms by (simp add: d_def)
  have "real n / real d = real (bf_mant x) / real (bf_mant y) / 2 powi (- e)"
    unfolding n_def d_def using assms by (intro scale_quot) simp
  also have "\<dots> = real (bf_mant x) * 2 powi bf_exp x / (real (bf_mant y) * 2 powi bf_exp y)"
    by (simp add: e_def power_int_diff)
  finally have quot: "real n / real d = \<bar>bf_val x / bf_val y\<bar>"
    by (simp add: bf_val_def abs_mult)
  have sign: "bf_val x / bf_val y = (if neg then - 1 else 1) * \<bar>bf_val x / bf_val y\<bar>"
    by (auto simp: bf_val_def neg_def abs_mult)
  have "bf_val (bf_quo prec x y) = bf_val (round_quot prec neg n d)"
    using False by (simp add: bf_quo_def neg_def n_def d_def e_def Let_def)
  moreover have "\<bar>bf_val (round_quot prec neg n d) - (if neg then - 1 else 1) * (real n / real d)\<bar> \<le> real n / real d / 2 ^ prec"
    using \<open>0 < d\<close> assms(2) by (rule round_quot_error)
  ultimately show ?thesis by (simp only: quot sign [symmetric])
qed (simp add: bf_quo_def bf_val_def Let_def)

text \<open>Two roundings, of the amount to 64 bits and of the quotient.\<close>

lemma two_roundings:
  fixes v :: real
  assumes "\<bar>a - v\<bar> \<le> \<bar>v\<bar> * u" "\<bar>r - a\<bar> \<le> \<bar>a\<bar> * u" "0 \<le> u" "u \<le> 1"
  shows "\<bar>r - v\<bar> \<le> \<bar>v\<bar> * (3 * u)"
proof -
  have "\<bar>a\<bar> \<le> \<bar>v\<bar> + \<bar>v\<bar> * u" using assms(1) by linarith
  then have "\<bar>a\<bar> * u \<le> (\<bar>v\<bar> + \<bar>v\<bar> * u) * u" using assms(3) by (rule mult_right_mono)
  also have "\<dots> \<le> \<bar>v\<bar> * u + \<bar>v\<bar> * u"
  proof -
    have "u * u \<le> 1 * u" using assms(3,4) by (rule mult_right_mono [rotated])
    then have "\<bar>v\<bar> * (u * u) \<le> \<bar>v\<bar> * u" using mult_left_mono [of "u * u" u "\<bar>v\<bar>"] by simp
    then show ?thesis by (simp add: algebra_simps)
  qed
  finally have "\<bar>a\<bar> * u \<le> \<bar>v\<bar> * u + \<bar>v\<bar> * u" .
  then have "\<bar>r - v\<bar> \<le> \<bar>v\<bar> * u + \<bar>v\<bar> * u + \<bar>v\<bar> * u" using assms(1,2) by linarith
  then show ?thesis by (simp add: algebra_simps)
qed

text \<open>\<open>WeiToEth\<close> is the amount divided by ten to the eighteen up to a relative error of
  \<open>3 / 2 ^ 64\<close>, for every amount, and the text with \<open>k\<close> decimals is the decimal numeral of an integer
  within half a unit of the last place of that float.\<close>

theorem WeiToEth_accurate:
  "\<bar>bf_val (WeiToEth wei) - real_of_int wei / 10 ^ 18\<bar> \<le> \<bar>real_of_int wei / 10 ^ 18\<bar> * (3 / 2 ^ 64) \<and>
   (\<exists>N. bf_Text_f (WeiToEth wei) k = fixed_str (bf_neg (WeiToEth wei)) k N \<and>
      \<bar>real N - \<bar>bf_val (WeiToEth wei)\<bar> * 10 ^ k\<bar> \<le> 1 / 2)"
proof
  define u where "u = (1 :: real) / 2 ^ 64"
  define f where "f = round_quot 64 (wei < 0) (nat \<bar>wei\<bar>) 1"
  define y where "y = BF False (10 ^ 18) 0"
  have w: "WeiToEth wei = bf_quo 64 f y"
    by (simp add: WeiToEth_def bf_SetString_int_str f_def y_def Let_def)
  have y: "bf_val y = 10 ^ 18" by (simp add: bf_val_def y_def)
  have wei: "(if wei < 0 then - 1 else 1) * (real (nat \<bar>wei\<bar>) / real 1) = real_of_int wei" by simp
  have "\<bar>bf_val f - real_of_int wei\<bar> \<le> real (nat \<bar>wei\<bar>) / real 1 / 2 ^ 64"
    using round_quot_error [of 1 64 "wei < 0" "nat \<bar>wei\<bar>"] unfolding wei f_def by simp
  then have "\<bar>bf_val f - real_of_int wei\<bar> / 10 ^ 18 \<le> \<bar>real_of_int wei\<bar> * u / 10 ^ 18"
    by (intro divide_right_mono) (simp_all add: u_def)
  then have 1: "\<bar>bf_val f / 10 ^ 18 - real_of_int wei / 10 ^ 18\<bar> \<le> \<bar>real_of_int wei / 10 ^ 18\<bar> * u"
    by (simp add: abs_mult flip: diff_divide_distrib)
  have "\<bar>bf_val (bf_quo 64 f y) - bf_val f / bf_val y\<bar> \<le> \<bar>bf_val f / bf_val y\<bar> / 2 ^ 64"
    by (rule bf_quo_error) (simp_all add: y_def)
  then have 2: "\<bar>bf_val (WeiToEth wei) - bf_val f / 10 ^ 18\<bar> \<le> \<bar>bf_val f / 10 ^ 18\<bar> * u"
    by (simp add: w y u_def)
  from two_roundings [OF 1 2] show
    "\<bar>bf_val (WeiToEth wei) - real_of_int wei / 10 ^ 18\<bar> \<le> \<bar>real_of_int wei / 10 ^ 18\<bar> * (3 / 2 ^ 64)"
    by (simp add: u_def)
next
  let ?x = "WeiToEth wei"
  have "real (scale_num (bf_mant ?x * 10 ^ k) (- bf_exp ?x)) / real (scale_den 1 (- bf_exp ?x)) =
      \<bar>bf_val ?x\<bar> * 10 ^ k"
    using scale_quot [of 1 "bf_mant ?x * 10 ^ k" "- bf_exp ?x"] by (simp add: bf_val_def abs_mult power_int_minus divide_inverse ac_simps)
  then have "\<bar>real (decimal_int ?x k) - \<bar>bf_val ?x\<bar> * 10 ^ k\<bar> \<le> 1 / 2"
    using half_even_error [of "scale_den 1 (- bf_exp ?x)" "scale_num (bf_mant ?x * 10 ^ k) (- bf_exp ?x)"]
    by (simp add: decimal_int_def)
  then show "\<exists>N. bf_Text_f ?x k = fixed_str (bf_neg ?x) k N \<and> \<bar>real N - \<bar>bf_val ?x\<bar> * 10 ^ k\<bar> \<le> 1 / 2"
    unfolding bf_Text_f_def by blast
qed

end
