(* ===== verification/DbTypes.thy ===== *)
theory DbTypes
  imports EthValues CommonUtils
begin

text \<open>
  The rows of the database and the conversions into them: \<open>database/types.go\<close>,
  \<open>database/typesconv.go\<close> and the slot arithmetic of \<open>database/util.go\<close>.  A nullable column
  (\<open>sql.NullString\<close> and its siblings) is an option, a \<open>uint64\<close> or \<open>int64\<close> a word.
\<close>

section \<open>Rows\<close>

definition NewNullBool :: "bool \<Rightarrow> bool option" where "NewNullBool b = Some b"
definition NewNullInt64 :: "i64 \<Rightarrow> i64 option" where "NewNullInt64 i = Some i"
definition NewNullString :: "string \<Rightarrow> string option" where "NewNullString s = Some s"
definition NewNullTime :: "gotime \<Rightarrow> gotime option" where "NewNullTime t = Some t"

lemmas null_defs = NewNullBool_def NewNullInt64_def NewNullString_def NewNullTime_def

record DataAPIPayloadDeliveredEntry =
  pd_ID :: i64
  pd_InsertedAt :: gotime
  pd_Relay :: string
  pd_Epoch :: u64
  pd_Slot :: u64
  pd_ParentHash :: string
  pd_BlockHash :: string
  pd_BuilderPubkey :: string
  pd_ProposerPubkey :: string
  pd_ProposerFeeRecipient :: string
  pd_GasLimit :: u64
  pd_GasUsed :: u64
  pd_ValueClaimedWei :: string
  pd_ValueClaimedEth :: string
  pd_NumTx :: "i64 option"
  pd_BlockNumber :: "i64 option"
  pd_ExtraData :: string
  pd_FoundOnChain :: "bool option"
  pd_SlotWasMissed :: "bool option"
  pd_ValueCheckOk :: "bool option"
  pd_ValueCheckMethod :: "string option"
  pd_ValueDeliveredWei :: "string option"
  pd_ValueDeliveredEth :: "string option"
  pd_ValueDeliveredDiffWei :: "string option"
  pd_ValueDeliveredDiffEth :: "string option"
  pd_BlockCoinbaseAddress :: "string option"
  pd_BlockCoinbaseIsProposer :: "bool option"
  pd_CoinbaseDiffWei :: "string option"
  pd_CoinbaseDiffEth :: "string option"
  pd_Notes :: "string option"
  pd_NumBlobTxs :: "i64 option"
  pd_NumBlobs :: "i64 option"
  pd_BlockTimestamp :: "gotime option"

record DataAPIBuilderBidEntry =
  bb_ID :: i64
  bb_InsertedAt :: gotime
  bb_Relay :: string
  bb_Epoch :: u64
  bb_Slot :: u64
  bb_ParentHash :: string
  bb_BlockHash :: string
  bb_BuilderPubkey :: string
  bb_ProposerPubkey :: string
  bb_ProposerFeeRecipient :: string
  bb_GasLimit :: u64
  bb_GasUsed :: u64
  bb_Value :: string
  bb_NumTx :: "i64 option"
  bb_BlockNumber :: "i64 option"
  bb_Timestamp :: gotime

record SignedBuilderBidEntry =
  sb_ID :: i64
  sb_InsertedAt :: gotime
  sb_Relay :: string
  sb_RequestedAt :: gotime
  sb_ReceivedAt :: gotime
  sb_LatencyMS :: i64
  sb_Slot :: u64
  sb_ParentHash :: string
  sb_ProposerPubkey :: string
  sb_Pubkey :: string
  sb_Signature :: string
  sb_Value :: string
  sb_FeeRecipient :: string
  sb_BlockHash :: string
  sb_BlockNumber :: u64
  sb_GasLimit :: u64
  sb_GasUsed :: u64
  sb_ExtraData :: string
  sb_PrevRandao :: string
  sb_Timestamp :: u64
  sb_Epoch :: u64

record BlockBuilderEntry =
  be_ID :: i64
  be_InsertedAt :: gotime
  be_BuilderPubkey :: string
  be_Description :: string

record TopRelayEntry =
  tr_Relay :: string
  tr_NumPayloads :: u64
  tr_Percent :: string

record TopBuilderEntry =
  tb_ExtraData :: string
  tb_NumBlocks :: u64
  tb_Percent :: string
  tb_Aliases :: "string list"

record BuilderProfitEntry =
  bp_ExtraData :: string
  bp_Aliases :: "string list"
  bp_NumBlocks :: u64
  bp_NumBlocksProfit :: u64
  bp_NumBlocksSubsidised :: u64
  bp_ProfitPerBlockAvg :: string
  bp_ProfitPerBlockMedian :: string
  bp_ProfitTotal :: string
  bp_SubsidiesTotal :: string

record BuilderStatsEntry =
  st_ID :: i64
  st_InsertedAt :: gotime
  st_Type :: string
  st_Hours :: i64
  st_TimeStart :: gotime
  st_TimeEnd :: gotime
  st_BuilderName :: string
  st_ExtraData :: string
  st_BuilderPubkeys :: string
  st_BlocksIncluded :: i64

record TmpPayloadsForExtraDataEntry =
  tp_Slot :: u64
  tp_ExtraData :: string
  tp_InsertedAt :: gotime
  tp_BlockTimestamp :: "gotime option"

definition BuilderStatsEntryTypeExtraData :: string where
  "BuilderStatsEntryTypeExtraData = ''extra_data''"

definition BuilderStatsEntryTypeBuilderPubkey :: string where
  "BuilderStatsEntryTypeBuilderPubkey = ''builder_pubkey''"

text \<open>The zero value of \<open>time.Time\<close>, 1 January of the year 1, and the zero values of the rows.\<close>

definition zero_time :: gotime where
  "zero_time = GoTime (- 62135596800) 0"

definition zero_payload :: DataAPIPayloadDeliveredEntry where
  "zero_payload =
     \<lparr>pd_ID = 0, pd_InsertedAt = zero_time, pd_Relay = [], pd_Epoch = 0, pd_Slot = 0, pd_ParentHash = [],
      pd_BlockHash = [], pd_BuilderPubkey = [], pd_ProposerPubkey = [], pd_ProposerFeeRecipient = [],
      pd_GasLimit = 0, pd_GasUsed = 0, pd_ValueClaimedWei = [], pd_ValueClaimedEth = [], pd_NumTx = None,
      pd_BlockNumber = None, pd_ExtraData = [], pd_FoundOnChain = None, pd_SlotWasMissed = None,
      pd_ValueCheckOk = None, pd_ValueCheckMethod = None, pd_ValueDeliveredWei = None,
      pd_ValueDeliveredEth = None, pd_ValueDeliveredDiffWei = None, pd_ValueDeliveredDiffEth = None,
      pd_BlockCoinbaseAddress = None, pd_BlockCoinbaseIsProposer = None, pd_CoinbaseDiffWei = None,
      pd_CoinbaseDiffEth = None, pd_Notes = None, pd_NumBlobTxs = None, pd_NumBlobs = None,
      pd_BlockTimestamp = None\<rparr>"

definition zero_bid_entry :: DataAPIBuilderBidEntry where
  "zero_bid_entry =
     \<lparr>bb_ID = 0, bb_InsertedAt = zero_time, bb_Relay = [], bb_Epoch = 0, bb_Slot = 0, bb_ParentHash = [],
      bb_BlockHash = [], bb_BuilderPubkey = [], bb_ProposerPubkey = [], bb_ProposerFeeRecipient = [],
      bb_GasLimit = 0, bb_GasUsed = 0, bb_Value = [], bb_NumTx = None, bb_BlockNumber = None,
      bb_Timestamp = zero_time\<rparr>"

definition zero_stats :: BuilderStatsEntry where
  "zero_stats =
     \<lparr>st_ID = 0, st_InsertedAt = zero_time, st_Type = [], st_Hours = 0, st_TimeStart = zero_time,
      st_TimeEnd = zero_time, st_BuilderName = [], st_ExtraData = [], st_BuilderPubkeys = [], st_BlocksIncluded = 0\<rparr>"

section \<open>Slots\<close>

text \<open>The database package has slot functions of its own, for mainnet, whose division is unsigned.\<close>

definition slotToTime :: "u64 \<Rightarrow> gotime" where
  "slotToTime slot = (let timestamp = slot * 12 + 1606824023 in time_Unix timestamp 0)"

definition timeToSlot :: "gotime \<Rightarrow> u64" where
  "timeToSlot t = (unixSec t - 1606824023) div 12"

lemma slotToTime_SlotToTime: "slotToTime = SlotToTime GenesisDefault"
  by (rule ext) (simp add: slotToTime_def SlotToTime_def GenesisDefault_def)

lemma uint_timeToSlot:
  assumes "time_after_genesis GenesisDefault t"
  shows "uint (timeToSlot t) = (sint (unixSec t) - sint GenesisDefault) div 12"
proof -
  have "0 \<le> sint (unixSec t - GenesisDefault)" "sint (unixSec t - GenesisDefault) = sint (unixSec t) - sint GenesisDefault"
    using assms by (simp_all add: time_after_genesis_def sint_i64_sub)
  then have "uint (unixSec t - GenesisDefault) = sint (unixSec t) - sint GenesisDefault"
    by (metis sint_nonneg_uint)
  then show ?thesis by (simp add: timeToSlot_def GenesisDefault_def [symmetric] uint_div)
qed

interpretation db_clock: slot_clock timeToSlot slotToTime "slot_in_range GenesisDefault" "time_after_genesis GenesisDefault"
proof unfold_locales
  fix s t assume "slot_in_range GenesisDefault s" "time_after_genesis GenesisDefault t"
  then show "slotToTime s \<le> t \<longleftrightarrow> s \<le> timeToSlot t"
    unfolding slotToTime_SlotToTime using clock_galois uint_timeToSlot by blast
next
  fix s assume "slot_in_range GenesisDefault s"
  then show "time_after_genesis GenesisDefault (slotToTime s)"
    unfolding slotToTime_SlotToTime by (rule common_clock.ok_time_of_slot)
next
  fix t assume t: "time_after_genesis GenesisDefault t"
  then show "slot_in_range GenesisDefault (timeToSlot t)"
    unfolding slot_in_range_def uint_timeToSlot [OF t] by (auto simp: time_after_genesis_def)
qed (simp add: slotToTime_SlotToTime SlotToTime_strict)

text \<open>The two slot clocks of the program agree on every instant from genesis on, and disagree on the
  second before it: the signed division gives slot 0, the unsigned one a slot near the maximum.\<close>

theorem timeToSlot_agrees:
  assumes "time_after_genesis GenesisDefault t"
  shows "timeToSlot t = TimeToSlot GenesisDefault t \<and>
    TimeToSlot GenesisDefault (GoTime (GenesisDefault - 1) 0) = 0 \<and>
    2 ^ 60 < timeToSlot (GoTime (GenesisDefault - 1) 0)"
proof -
  have "timeToSlot t = TimeToSlot GenesisDefault t"
    using uint_timeToSlot [OF assms] uint_TimeToSlot [OF assms] by (simp add: word_uint_eq_iff)
  moreover have "TimeToSlot GenesisDefault (GoTime (GenesisDefault - 1) 0) = 0" by code_simp
  moreover have "2 ^ 60 < timeToSlot (GoTime (GenesisDefault - 1) 0)" by code_simp
  ultimately show ?thesis by simp
qed

theorem timeToSlot_agrees_witness:
  "timeToSlot (GoTime 1713640367 0) = TimeToSlot GenesisDefault (GoTime 1713640367 0)"
  using timeToSlot_agrees [of "GoTime 1713640367 0"] by (simp add: time_after_genesis_def GenesisDefault_def)

section \<open>Conversions\<close>

text \<open>The relay's answers (\<open>BidTraceV2JSON\<close> and \<open>BidTraceV2WithTimestampJSON\<close>), the fields the source reads.\<close>

record BidTraceV2 =
  bv_Slot :: u64
  bv_ParentHash :: string
  bv_BlockHash :: string
  bv_BuilderPubkey :: string
  bv_ProposerPubkey :: string
  bv_ProposerFeeRecipient :: string
  bv_GasLimit :: u64
  bv_GasUsed :: u64
  bv_Value :: string
  bv_NumTx :: u64
  bv_BlockNumber :: u64

record BidTraceV2WithTimestamp = BidTraceV2 +
  bv_Timestamp :: i64

definition BidTraceV2JSONToPayloadDeliveredEntry :: "string \<Rightarrow> BidTraceV2 \<Rightarrow> DataAPIPayloadDeliveredEntry" where
  "BidTraceV2JSONToPayloadDeliveredEntry relay entry =
     (let (w, ok) = big_SetString (bv_Value entry);
          wei = (if ok then w else 0);
          eth = WeiToEth wei;
          ret = zero_payload
            \<lparr>pd_Relay := relay, pd_Epoch := bv_Slot entry div 32, pd_Slot := bv_Slot entry,
             pd_ParentHash := bv_ParentHash entry, pd_BlockHash := bv_BlockHash entry,
             pd_BuilderPubkey := bv_BuilderPubkey entry, pd_ProposerPubkey := bv_ProposerPubkey entry,
             pd_ProposerFeeRecipient := bv_ProposerFeeRecipient entry, pd_GasLimit := bv_GasLimit entry,
             pd_GasUsed := bv_GasUsed entry, pd_ValueClaimedWei := bv_Value entry,
             pd_ValueClaimedEth := bf_String eth\<rparr>;
          ret = (if bv_NumTx entry > 0 then ret\<lparr>pd_NumTx := NewNullInt64 (bv_NumTx entry)\<rparr> else ret);
          ret = (if bv_BlockNumber entry > 0 then ret\<lparr>pd_BlockNumber := NewNullInt64 (bv_BlockNumber entry)\<rparr> else ret)
      in ret)"

definition BidTraceV2WithTimestampJSONToBuilderBidEntry ::
    "string \<Rightarrow> BidTraceV2WithTimestamp \<Rightarrow> DataAPIBuilderBidEntry" where
  "BidTraceV2WithTimestampJSONToBuilderBidEntry relay entry =
     (let ret = zero_bid_entry
            \<lparr>bb_Relay := relay, bb_Epoch := bv_Slot entry div 32, bb_Slot := bv_Slot entry,
             bb_ParentHash := bv_ParentHash entry, bb_BlockHash := bv_BlockHash entry,
             bb_BuilderPubkey := bv_BuilderPubkey entry, bb_ProposerPubkey := bv_ProposerPubkey entry,
             bb_ProposerFeeRecipient := bv_ProposerFeeRecipient entry, bb_GasLimit := bv_GasLimit entry,
             bb_GasUsed := bv_GasUsed entry, bb_Value := bv_Value entry,
             bb_Timestamp := time_Unix (bv_Timestamp entry) 0\<rparr>;
          ret = (if bv_NumTx entry > 0 then ret\<lparr>bb_NumTx := NewNullInt64 (bv_NumTx entry)\<rparr> else ret);
          ret = (if bv_BlockNumber entry > 0 then ret\<lparr>bb_BlockNumber := NewNullInt64 (bv_BlockNumber entry)\<rparr> else ret)
      in ret)"

text \<open>\<open>utf8.Valid\<close>, over the table of well-formed byte sequences of Unicode.\<close>

definition utf8_cont :: "byte \<Rightarrow> bool" where
  "utf8_cont b \<longleftrightarrow> 0x80 \<le> b \<and> b \<le> 0xBF"

fun utf8_Valid :: "byte list \<Rightarrow> bool" where
  "utf8_Valid [] = True"
| "utf8_Valid (b # bs) =
     (if b < 0x80 then utf8_Valid bs
      else if 0xC2 \<le> b \<and> b \<le> 0xDF then
        (case bs of c # r \<Rightarrow> utf8_cont c \<and> utf8_Valid r | _ \<Rightarrow> False)
      else if 0xE0 \<le> b \<and> b \<le> 0xEF then
        (case bs of c # d # r \<Rightarrow> utf8_cont c \<and> (b = 0xE0 \<longrightarrow> 0xA0 \<le> c) \<and> (b = 0xED \<longrightarrow> c \<le> 0x9F) \<and> utf8_cont d \<and> utf8_Valid r
         | _ \<Rightarrow> False)
      else if 0xF0 \<le> b \<and> b \<le> 0xF4 then
        (case bs of c # d # e # r \<Rightarrow> utf8_cont c \<and> (b = 0xF0 \<longrightarrow> 0x90 \<le> c) \<and> (b = 0xF4 \<longrightarrow> c \<le> 0x8F) \<and> utf8_cont d \<and>
             utf8_cont e \<and> utf8_Valid r
         | _ \<Rightarrow> False)
      else False)"

definition byte_char :: "byte \<Rightarrow> char" where
  "byte_char b = char_of (unat b)"

text \<open>The replacement is in place: the caller's slice holds the second component afterwards.\<close>

definition ExtraDataToUtf8Str :: "byte list \<Rightarrow> string \<times> byte list" where
  "ExtraDataToUtf8Str extraData =
     (let extraData = map (\<lambda>b. if b < 32 \<or> b > 126 then 32 else b) extraData
      in (if \<not> utf8_Valid extraData then [] else map byte_char extraData, extraData))"

text \<open>The signed bid of the builder API, with its hex and decimal strings already rendered.\<close>

record SignedBuilderBid =
  msg_Pubkey :: string
  msg_Signature :: string
  msg_Value :: string
  hdr_FeeRecipient :: string
  hdr_BlockHash :: string
  hdr_BlockNumber :: u64
  hdr_GasLimit :: u64
  hdr_GasUsed :: u64
  hdr_ExtraData :: "byte list"
  hdr_Timestamp :: u64
  hdr_Random :: string

definition dur_Milliseconds :: "duration \<Rightarrow> i64" where
  "dur_Milliseconds d = i64_div d 1000000"

definition SignedBuilderBidToEntry ::
    "string \<Rightarrow> u64 \<Rightarrow> string \<Rightarrow> string \<Rightarrow> gotime \<Rightarrow> gotime \<Rightarrow> SignedBuilderBid \<Rightarrow> SignedBuilderBidEntry" where
  "SignedBuilderBidToEntry relay slot parentHash proposerPubkey timeRequestStart timeRequestEnd bid =
     \<lparr>sb_ID = 0, sb_InsertedAt = zero_time, sb_Relay = relay, sb_RequestedAt = timeRequestStart,
      sb_ReceivedAt = timeRequestEnd, sb_LatencyMS = dur_Milliseconds (time_Sub timeRequestEnd timeRequestStart),
      sb_Slot = slot, sb_ParentHash = parentHash, sb_ProposerPubkey = proposerPubkey,
      sb_Pubkey = msg_Pubkey bid, sb_Signature = msg_Signature bid, sb_Value = msg_Value bid,
      sb_FeeRecipient = hdr_FeeRecipient bid, sb_BlockHash = hdr_BlockHash bid, sb_BlockNumber = hdr_BlockNumber bid,
      sb_GasLimit = hdr_GasLimit bid, sb_GasUsed = hdr_GasUsed bid,
      sb_ExtraData = fst (ExtraDataToUtf8Str (hdr_ExtraData bid)), sb_PrevRandao = hdr_Random bid,
      sb_Timestamp = hdr_Timestamp bid, sb_Epoch = slot div 32\<rparr>"

section \<open>Extra data\<close>

lemma utf8_Valid_ascii: "\<forall>b \<in> set bs. b < 0x80 \<Longrightarrow> utf8_Valid bs"
  by (induction bs rule: utf8_Valid.induct) simp_all

definition printable_byte :: "byte \<Rightarrow> bool" where
  "printable_byte b \<longleftrightarrow> 32 \<le> b \<and> b \<le> 126"

text \<open>Extra data always converts, to a text of the same length in which every printable ASCII byte
  stands for itself and every other byte is a space; the fallback to the empty text is never taken.\<close>

theorem ExtraDataToUtf8Str_printable:
  "fst (ExtraDataToUtf8Str bs) = map (\<lambda>b. if printable_byte b then byte_char b else CHR '' '') bs"
proof -
  let ?f = "\<lambda>b :: byte. if b < 32 \<or> b > 126 then 32 else b"
  have small: "?f b < 0x80" for b :: byte
  proof -
    have "b \<le> 126 \<Longrightarrow> b < 0x80" by (rule le_less_trans [of _ 126]) simp_all
    then show ?thesis by (auto simp: not_less)
  qed
  have "utf8_Valid (map ?f bs)"
  proof (rule utf8_Valid_ascii, rule ballI)
    fix x assume "x \<in> set (map ?f bs)"
    then obtain b where "x = ?f b" unfolding set_map by (elim imageE)
    with small [of b] show "x < 0x80" by (simp only:)
  qed
  moreover have "byte_char 32 = CHR '' ''" by code_simp
  ultimately show ?thesis
    by (auto simp: ExtraDataToUtf8Str_def Let_def printable_byte_def not_less not_le)
qed

end
