(* ===== verification/Database.thy ===== *)
theory Database
  imports DbTypes
begin

text \<open>
  \<open>database/database.go\<close>: the tables and the statements the program runs on them, with the meaning SQL
  gives the statements.  A table is the list of its rows in insertion order; its unique index (created
  in \<open>database/migrations/001_init_database.go\<close>) is a key function.  What the server may decide is a
  parameter: \<open>fault\<close>, the error of a statement that fails for a reason outside the model, and \<open>plan\<close>,
  the order in which it produces rows that the statement does not order.
\<close>

section \<open>Tables\<close>

datatype sql_error = ErrNoRows | ErrTooManyParameters | ErrConflictTwice | ErrEmptyIn | ErrServer string

record DatabaseService =
  payloads :: "DataAPIPayloadDeliveredEntry list"
  builder_bids :: "DataAPIBuilderBidEntry list"
  signed_bids :: "SignedBuilderBidEntry list"
  block_builders :: "BlockBuilderEntry list"
  builder_stats :: "BuilderStatsEntry list"
  next_id :: nat

definition empty_db :: DatabaseService where
  "empty_db = \<lparr>payloads = [], builder_bids = [], signed_bids = [], block_builders = [], builder_stats = [], next_id = 1\<rparr>"

text \<open>The unique indexes.\<close>

definition payload_key :: "DataAPIPayloadDeliveredEntry \<Rightarrow> string \<times> u64 \<times> string \<times> string" where
  "payload_key r = (pd_Relay r, pd_Slot r, pd_ParentHash r, pd_BlockHash r)"

definition bid_row_key :: "DataAPIBuilderBidEntry \<Rightarrow> string \<times> u64 \<times> string \<times> string \<times> string" where
  "bid_row_key r = (bb_Relay r, bb_Slot r, bb_BuilderPubkey r, bb_ParentHash r, bb_BlockHash r)"

definition signed_bid_key :: "SignedBuilderBidEntry \<Rightarrow> string \<times> u64 \<times> string \<times> string" where
  "signed_bid_key r = (sb_Relay r, sb_Slot r, sb_ParentHash r, sb_BlockHash r)"

definition stats_key :: "BuilderStatsEntry \<Rightarrow> string \<times> i64 \<times> gotime \<times> gotime \<times> string" where
  "stats_key r = (st_Type r, st_Hours r, st_TimeStart r, st_TimeEnd r, st_BuilderName r)"

text \<open>The row a payload statement inserts: the columns it names, the defaults for the others.\<close>

definition payload_row :: "gotime \<Rightarrow> nat \<Rightarrow> DataAPIPayloadDeliveredEntry \<Rightarrow> DataAPIPayloadDeliveredEntry" where
  "payload_row now i e = zero_payload
     \<lparr>pd_ID := of_nat i, pd_InsertedAt := now, pd_Relay := pd_Relay e, pd_Epoch := pd_Epoch e, pd_Slot := pd_Slot e,
      pd_ParentHash := pd_ParentHash e, pd_BlockHash := pd_BlockHash e, pd_BuilderPubkey := pd_BuilderPubkey e,
      pd_ProposerPubkey := pd_ProposerPubkey e, pd_ProposerFeeRecipient := pd_ProposerFeeRecipient e,
      pd_GasLimit := pd_GasLimit e, pd_GasUsed := pd_GasUsed e, pd_ValueClaimedWei := pd_ValueClaimedWei e,
      pd_ValueClaimedEth := pd_ValueClaimedEth e, pd_NumTx := pd_NumTx e, pd_BlockNumber := pd_BlockNumber e,
      pd_ExtraData := pd_ExtraData e\<rparr>"

definition bid_row :: "gotime \<Rightarrow> nat \<Rightarrow> DataAPIBuilderBidEntry \<Rightarrow> DataAPIBuilderBidEntry" where
  "bid_row now i e = e\<lparr>bb_ID := of_nat i, bb_InsertedAt := now\<rparr>"

definition signed_bid_row :: "gotime \<Rightarrow> nat \<Rightarrow> SignedBuilderBidEntry \<Rightarrow> SignedBuilderBidEntry" where
  "signed_bid_row now i e = e\<lparr>sb_ID := of_nat i, sb_InsertedAt := now\<rparr>"

definition builder_row :: "gotime \<Rightarrow> nat \<Rightarrow> BlockBuilderEntry \<Rightarrow> BlockBuilderEntry" where
  "builder_row now i e = e\<lparr>be_ID := of_nat i, be_InsertedAt := now\<rparr>"

definition stats_row :: "gotime \<Rightarrow> nat \<Rightarrow> BuilderStatsEntry \<Rightarrow> BuilderStatsEntry" where
  "stats_row now i e = e\<lparr>st_ID := of_nat i, st_InsertedAt := now\<rparr>"

text \<open>\<open>INSERT ... ON CONFLICT DO NOTHING\<close>: a row whose key is taken is skipped, also when an earlier row of
  the same statement took it.  The identity sequence advances for skipped rows as well.\<close>

definition insert_row :: "('r \<Rightarrow> 'k) \<Rightarrow> (nat \<Rightarrow> 'r \<Rightarrow> 'r) \<Rightarrow> 'r \<Rightarrow> 'r list \<times> nat \<Rightarrow> 'r list \<times> nat" where
  "insert_row key row e t =
     (if key e \<in> key ` set (fst t) then (fst t, snd t + 1) else (fst t @ [row (snd t) e], snd t + 1))"

definition insert_rows :: "('r \<Rightarrow> 'k) \<Rightarrow> (nat \<Rightarrow> 'r \<Rightarrow> 'r) \<Rightarrow> 'r list \<Rightarrow> 'r list \<times> nat \<Rightarrow> 'r list \<times> nat" where
  "insert_rows key row es t = fold (insert_row key row) es t"

section \<open>Inserting\<close>

definition SaveSignedBuilderBid ::
    "sql_error option \<Rightarrow> gotime \<Rightarrow> SignedBuilderBidEntry \<Rightarrow> DatabaseService \<Rightarrow> DatabaseService \<times> sql_error option" where
  "SaveSignedBuilderBid fault now entry db =
     (case fault of
        Some e \<Rightarrow> (db, Some e)
      | None \<Rightarrow> (case insert_row signed_bid_key (signed_bid_row now) entry (signed_bids db, next_id db) of
          (t, n) \<Rightarrow> (db\<lparr>signed_bids := t, next_id := n\<rparr>, None)))"

definition SaveBuilder ::
    "sql_error option \<Rightarrow> gotime \<Rightarrow> BlockBuilderEntry \<Rightarrow> DatabaseService \<Rightarrow> DatabaseService \<times> sql_error option" where
  "SaveBuilder fault now entry db =
     (case fault of
        Some e \<Rightarrow> (db, Some e)
      | None \<Rightarrow> (case insert_row be_BuilderPubkey (builder_row now) entry (block_builders db, next_id db) of
          (t, n) \<Rightarrow> (db\<lparr>block_builders := t, next_id := n\<rparr>, None)))"

definition SaveDataAPIPayloadDelivered ::
    "sql_error option \<Rightarrow> gotime \<Rightarrow> DataAPIPayloadDeliveredEntry \<Rightarrow> DatabaseService \<Rightarrow> DatabaseService \<times> sql_error option" where
  "SaveDataAPIPayloadDelivered fault now entry db =
     (case fault of
        Some e \<Rightarrow> (db, Some e)
      | None \<Rightarrow> (case insert_row payload_key (payload_row now) entry (payloads db, next_id db) of
          (t, n) \<Rightarrow> (db\<lparr>payloads := t, next_id := n\<rparr>, None)))"

text \<open>A statement carries at most 65535 parameters; an entry of the payload table takes 15.\<close>

definition max_parameters :: nat where "max_parameters = 65535"
definition payload_columns :: nat where "payload_columns = 15"
definition bid_columns :: nat where "bid_columns = 14"
definition payload_batch :: nat where "payload_batch = 3000"

definition exec_payload_insert ::
    "sql_error option \<Rightarrow> gotime \<Rightarrow> DataAPIPayloadDeliveredEntry list \<Rightarrow> DatabaseService \<Rightarrow> DatabaseService \<times> (sql_error + nat)" where
  "exec_payload_insert fault now entries db =
     (if length entries * payload_columns > max_parameters then (db, Inl ErrTooManyParameters)
      else case fault of
        Some e \<Rightarrow> (db, Inl e)
      | None \<Rightarrow> (case insert_rows payload_key (payload_row now) entries (payloads db, next_id db) of
          (t, n) \<Rightarrow> (db\<lparr>payloads := t, next_id := n\<rparr>, Inr (length t - length (payloads db)))))"

text \<open>The loop over the slices \<open>entries[i:end]\<close>; \<open>fault i\<close> is the error of the statement for the slice at \<open>i\<close>.\<close>

function save_payload_chunks ::
    "(nat \<Rightarrow> sql_error option) \<Rightarrow> gotime \<Rightarrow> DataAPIPayloadDeliveredEntry list \<Rightarrow> nat \<Rightarrow> nat \<Rightarrow> DatabaseService \<Rightarrow>
     DatabaseService \<times> nat \<times> sql_error option" where
  "save_payload_chunks fault now entries i rowsAffected db =
     (if i < length entries then
        let end = (if i + payload_batch > length entries then length entries else i + payload_batch) in
        (case exec_payload_insert (fault i) now (take (end - i) (drop i entries)) db of
           (db', Inl e) \<Rightarrow> (db', 0, Some e)
         | (db', Inr n) \<Rightarrow> save_payload_chunks fault now entries (i + payload_batch) (rowsAffected + n) db')
      else (db, rowsAffected, None))"
  by pat_completeness auto
termination
  by (relation "measure (\<lambda>(_, _, entries, i, _, _). length entries - i)") (simp_all add: payload_batch_def)

declare save_payload_chunks.simps [simp del]

definition SaveDataAPIPayloadDeliveredBatch ::
    "(nat \<Rightarrow> sql_error option) \<Rightarrow> gotime \<Rightarrow> DataAPIPayloadDeliveredEntry list \<Rightarrow> DatabaseService \<Rightarrow>
     DatabaseService \<times> nat \<times> sql_error option" where
  "SaveDataAPIPayloadDeliveredBatch fault now entries db =
     (if length entries = 0 then (db, 0, None) else save_payload_chunks fault now entries 0 0 db)"

definition SaveDataAPIBid ::
    "sql_error option \<Rightarrow> gotime \<Rightarrow> DataAPIBuilderBidEntry \<Rightarrow> DatabaseService \<Rightarrow> DatabaseService \<times> sql_error option" where
  "SaveDataAPIBid fault now entry db =
     (case fault of
        Some e \<Rightarrow> (db, Some e)
      | None \<Rightarrow> (case insert_row bid_row_key (bid_row now) entry (builder_bids db, next_id db) of
          (t, n) \<Rightarrow> (db\<lparr>builder_bids := t, next_id := n\<rparr>, None)))"

definition SaveDataAPIBids ::
    "sql_error option \<Rightarrow> gotime \<Rightarrow> DataAPIBuilderBidEntry list \<Rightarrow> DatabaseService \<Rightarrow> DatabaseService \<times> sql_error option" where
  "SaveDataAPIBids fault now entries db =
     (if length entries = 0 then (db, None)
      else if length entries * bid_columns > max_parameters then (db, Some ErrTooManyParameters)
      else case fault of
        Some e \<Rightarrow> (db, Some e)
      | None \<Rightarrow> (case insert_rows bid_row_key (bid_row now) entries (builder_bids db, next_id db) of
          (t, n) \<Rightarrow> (db\<lparr>builder_bids := t, next_id := n\<rparr>, None)))"

text \<open>\<open>ON CONFLICT ... DO UPDATE\<close>: a row whose key is taken overwrites three columns of the row that has it;
  the statement fails as a whole when it would write a row twice.\<close>

definition update_stats :: "BuilderStatsEntry \<Rightarrow> BuilderStatsEntry \<Rightarrow> BuilderStatsEntry" where
  "update_stats e r = r\<lparr>st_BuilderPubkeys := st_BuilderPubkeys e, st_ExtraData := st_ExtraData e,
     st_BlocksIncluded := st_BlocksIncluded e\<rparr>"

definition upsert_stats :: "gotime \<Rightarrow> BuilderStatsEntry \<Rightarrow> BuilderStatsEntry list \<times> nat \<Rightarrow> BuilderStatsEntry list \<times> nat" where
  "upsert_stats now e t =
     (if stats_key e \<in> stats_key ` set (fst t)
      then (map (\<lambda>r. if stats_key r = stats_key e then update_stats e r else r) (fst t), snd t + 1)
      else (fst t @ [stats_row now (snd t) e], snd t + 1))"

definition SaveBuilderStats ::
    "sql_error option \<Rightarrow> gotime \<Rightarrow> BuilderStatsEntry list \<Rightarrow> DatabaseService \<Rightarrow> DatabaseService \<times> sql_error option" where
  "SaveBuilderStats fault now entries db =
     (if length entries = 0 then (db, None)
      else if \<not> distinct (map stats_key entries) then (db, Some ErrConflictTwice)
      else case fault of
        Some e \<Rightarrow> (db, Some e)
      | None \<Rightarrow> (case fold (upsert_stats now) entries (builder_stats db, next_id db) of
          (t, n) \<Rightarrow> (db\<lparr>builder_stats := t, next_id := n\<rparr>, None)))"

section \<open>Queries\<close>

text \<open>\<open>ORDER BY\<close>: a stable sort of the rows in the order the server's plan produces them.\<close>

definition order_desc :: "('r list \<Rightarrow> 'r list) \<Rightarrow> ('r \<Rightarrow> 'k::linorder) \<Rightarrow> 'r list \<Rightarrow> 'r list" where
  "order_desc plan key rows = rev (sort_key key (rev (plan rows)))"

definition order_asc :: "('r list \<Rightarrow> 'r list) \<Rightarrow> ('r \<Rightarrow> 'k::linorder) \<Rightarrow> 'r list \<Rightarrow> 'r list" where
  "order_asc plan key rows = sort_key key (plan rows)"

definition row_order :: "('r list \<Rightarrow> 'r list) \<Rightarrow> bool" where
  "row_order plan \<longleftrightarrow> (\<forall>rows. mset (plan rows) = mset rows)"

text \<open>\<open>Get\<close> scans the first row, if there is one, into a zero value; \<open>Select\<close> returns all of them.\<close>

definition sql_Get :: "'r \<Rightarrow> sql_error option \<Rightarrow> 'r list \<Rightarrow> 'r \<times> sql_error option" where
  "sql_Get zero fault rows =
     (case fault of Some e \<Rightarrow> (zero, Some e)
      | None \<Rightarrow> (case rows of [] \<Rightarrow> (zero, Some ErrNoRows) | r # _ \<Rightarrow> (r, None)))"

definition sql_Select :: "sql_error option \<Rightarrow> 'r list \<Rightarrow> sql_error + 'r list" where
  "sql_Select fault rows = (case fault of Some e \<Rightarrow> Inl e | None \<Rightarrow> Inr rows)"

text \<open>The columns a query names; the others keep their zero values.\<close>

definition claim_columns :: "DataAPIPayloadDeliveredEntry \<Rightarrow> DataAPIPayloadDeliveredEntry" where
  "claim_columns r = zero_payload
     \<lparr>pd_ID := pd_ID r, pd_InsertedAt := pd_InsertedAt r, pd_Relay := pd_Relay r, pd_Epoch := pd_Epoch r,
      pd_Slot := pd_Slot r, pd_ParentHash := pd_ParentHash r, pd_BlockHash := pd_BlockHash r,
      pd_BuilderPubkey := pd_BuilderPubkey r, pd_ProposerPubkey := pd_ProposerPubkey r,
      pd_ProposerFeeRecipient := pd_ProposerFeeRecipient r, pd_GasLimit := pd_GasLimit r, pd_GasUsed := pd_GasUsed r,
      pd_ValueClaimedWei := pd_ValueClaimedWei r, pd_ValueClaimedEth := pd_ValueClaimedEth r,
      pd_NumTx := pd_NumTx r, pd_BlockNumber := pd_BlockNumber r\<rparr>"

definition GetDataAPILatestPayloadDelivered ::
    "sql_error option \<Rightarrow> (DataAPIPayloadDeliveredEntry list \<Rightarrow> DataAPIPayloadDeliveredEntry list) \<Rightarrow> DatabaseService \<Rightarrow> string \<Rightarrow>
     DataAPIPayloadDeliveredEntry \<times> sql_error option" where
  "GetDataAPILatestPayloadDelivered fault plan db relay =
     sql_Get zero_payload fault
       (map (\<lambda>r. r\<lparr>pd_NumBlobTxs := None, pd_NumBlobs := None, pd_BlockTimestamp := None\<rparr>)
         (take 1 (order_desc plan pd_Slot (filter (\<lambda>r. pd_Relay r = relay) (payloads db)))))"

definition GetDataAPILatestBid ::
    "sql_error option \<Rightarrow> (DataAPIBuilderBidEntry list \<Rightarrow> DataAPIBuilderBidEntry list) \<Rightarrow> DatabaseService \<Rightarrow> string \<Rightarrow>
     DataAPIBuilderBidEntry \<times> sql_error option" where
  "GetDataAPILatestBid fault plan db relay =
     sql_Get zero_bid_entry fault
       (take 1 (order_desc (order_desc plan bb_Timestamp) bb_Slot (filter (\<lambda>r. bb_Relay r = relay) (builder_bids db))))"

definition checked_between :: "u64 \<Rightarrow> u64 \<Rightarrow> DatabaseService \<Rightarrow> DataAPIPayloadDeliveredEntry list" where
  "checked_between startSlot endSlot db =
     filter (\<lambda>r. pd_ValueCheckOk r \<noteq> None \<and> startSlot \<le> pd_Slot r \<and> pd_Slot r \<le> endSlot) (payloads db)"

text \<open>\<open>GROUP BY\<close>: the distinct keys, each with its rows.\<close>

definition group_by :: "('r \<Rightarrow> 'k) \<Rightarrow> 'r list \<Rightarrow> ('k \<times> 'r list) list" where
  "group_by key rows = map (\<lambda>k. (k, filter (\<lambda>r. key r = k) rows)) (remdups (map key rows))"

definition GetTopRelays ::
    "sql_error option \<Rightarrow> (TopRelayEntry list \<Rightarrow> TopRelayEntry list) \<Rightarrow> DatabaseService \<Rightarrow> gotime \<Rightarrow> gotime \<Rightarrow>
     sql_error + TopRelayEntry list" where
  "GetTopRelays fault plan db since until =
     (let startSlot = timeToSlot since; endSlot = timeToSlot until
      in sql_Select fault (order_desc plan tr_NumPayloads
           (map (\<lambda>(relay, rows). \<lparr>tr_Relay = relay, tr_NumPayloads = of_nat (length rows), tr_Percent = []\<rparr>)
             (group_by pd_Relay (checked_between startSlot endSlot db)))))"

text \<open>The relay is spliced into the statement between quotes: one that has a quote changes the statement,
  to something this model leaves to the parameter \<open>injected\<close>.\<close>

definition GetTopBuilders ::
    "sql_error option \<Rightarrow> (string \<Rightarrow> sql_error + TopBuilderEntry list) \<Rightarrow> (TopBuilderEntry list \<Rightarrow> TopBuilderEntry list) \<Rightarrow>
     DatabaseService \<Rightarrow> gotime \<Rightarrow> gotime \<Rightarrow> string \<Rightarrow> sql_error + TopBuilderEntry list" where
  "GetTopBuilders fault injected plan db since until relay =
     (let startSlot = timeToSlot since; endSlot = timeToSlot until;
          rows = filter (\<lambda>r. relay \<noteq> [] \<longrightarrow> pd_Relay r = relay) (checked_between startSlot endSlot db);
          x = remdups (map (\<lambda>r. (pd_Slot r, pd_ExtraData r)) rows)
      in if CHR 0x27 \<in> set relay then injected relay
         else sql_Select fault (order_desc plan tb_NumBlocks
           (map (\<lambda>(extra, g). \<lparr>tb_ExtraData = extra, tb_NumBlocks = of_nat (length g), tb_Percent = [], tb_Aliases = []\<rparr>)
             (group_by snd x))))"

text \<open>
  The amounts of a payload in ether are columns of type \<open>NUMERIC(16, 8)\<close>: integers in units of
  \<open>10 ^ -8\<close>, read off the stored text by the parameter \<open>eth8\<close>.  \<open>round(x, 4)\<close> is to the nearest
  multiple of \<open>10 ^ -4\<close>, halves away from zero, printed with four decimals.
\<close>

definition round_away :: "int \<Rightarrow> nat \<Rightarrow> int" where
  "round_away n d = (if n < 0 then - ((2 * - n + int d) div (2 * int d)) else (2 * n + int d) div (2 * int d))"

definition numeric4 :: "int \<Rightarrow> string" where
  "numeric4 v = fixed_str (v < 0) 4 (nat \<bar>v\<bar>)"

definition percentile_half :: "int list \<Rightarrow> int" where
  "percentile_half xs = sort xs ! ((length xs + 1) div 2 - 1)"

definition profit_group :: "string \<Rightarrow> int option list \<Rightarrow> BuilderProfitEntry" where
  "profit_group extra gains =
     (let vals = map (\<lambda>d. case d of Some v \<Rightarrow> v | None \<Rightarrow> 0) gains;
          losses = filter (\<lambda>v. v < 0) vals
      in \<lparr>bp_ExtraData = extra, bp_Aliases = [],
          bp_NumBlocks = of_nat (length gains),
          bp_NumBlocksProfit = of_nat (length (filter (\<lambda>v. 0 < v) vals)),
          bp_NumBlocksSubsidised = of_nat (length losses),
          bp_ProfitPerBlockAvg = numeric4 (round_away (sum_list vals) (10 ^ 4 * length vals)),
          bp_ProfitPerBlockMedian = numeric4 (round_away (percentile_half vals) (10 ^ 4)),
          bp_ProfitTotal = numeric4 (round_away (sum_list vals) (10 ^ 4)),
          bp_SubsidiesTotal = numeric4 (round_away \<bar>sum_list losses\<bar> (10 ^ 4))\<rparr>)"

definition GetBuilderProfits ::
    "sql_error option \<Rightarrow> (string \<Rightarrow> int) \<Rightarrow> ((string \<times> int option list) list \<Rightarrow> (string \<times> int option list) list) \<Rightarrow>
     DatabaseService \<Rightarrow> gotime \<Rightarrow> gotime \<Rightarrow> sql_error + BuilderProfitEntry list" where
  "GetBuilderProfits fault eth8 plan db since until =
     (let startSlot = timeToSlot since; endSlot = timeToSlot until;
          x = remdups (map (\<lambda>r. (pd_Slot r, pd_ExtraData r, map_option eth8 (pd_CoinbaseDiffEth r)))
                (checked_between startSlot endSlot db));
          groups = map (\<lambda>(extra, g). (extra, map (snd \<circ> snd) g)) (group_by (fst \<circ> snd) x);
          total = (\<lambda>(_, gains). round_away (sum_list (map (\<lambda>d. case d of Some v \<Rightarrow> v | None \<Rightarrow> 0) gains)) (10 ^ 4))
      in sql_Select fault (map (\<lambda>(extra, gains). profit_group extra gains) (order_desc plan total groups)))"

text \<open>What the three queries of a statistics page answer; the first error is returned.\<close>

definition GetStatsForTimerange ::
    "sql_error + TopRelayEntry list \<Rightarrow> sql_error + TopBuilderEntry list \<Rightarrow> sql_error + BuilderProfitEntry list \<Rightarrow>
     sql_error + TopRelayEntry list \<times> TopBuilderEntry list \<times> BuilderProfitEntry list" where
  "GetStatsForTimerange topRelays topBuilders profits =
     (case topRelays of Inl e \<Rightarrow> Inl e
      | Inr relays \<Rightarrow> (case topBuilders of Inl e \<Rightarrow> Inl e
          | Inr builders \<Rightarrow> (case profits of Inl e \<Rightarrow> Inl e
              | Inr builderProfits \<Rightarrow> Inr (relays, builders, builderProfits))))"

definition GetDeliveredPayloadsForSlot ::
    "sql_error option \<Rightarrow> (DataAPIPayloadDeliveredEntry list \<Rightarrow> DataAPIPayloadDeliveredEntry list) \<Rightarrow> DatabaseService \<Rightarrow> u64 \<Rightarrow>
     sql_error + DataAPIPayloadDeliveredEntry list" where
  "GetDeliveredPayloadsForSlot fault plan db slot =
     sql_Select fault (map claim_columns (plan (filter (\<lambda>r. pd_Slot r = slot) (payloads db))))"

definition GetLatestDeliveredPayload ::
    "sql_error option \<Rightarrow> (DataAPIPayloadDeliveredEntry list \<Rightarrow> DataAPIPayloadDeliveredEntry list) \<Rightarrow> DatabaseService \<Rightarrow>
     DataAPIPayloadDeliveredEntry \<times> sql_error option" where
  "GetLatestDeliveredPayload fault plan db =
     sql_Get zero_payload fault
       (map claim_columns (take 1 (order_desc plan pd_Slot (filter (\<lambda>r. pd_ValueCheckOk r \<noteq> None) (payloads db)))))"

definition GetDeliveredPayloadsForSlots ::
    "sql_error option \<Rightarrow> (DataAPIPayloadDeliveredEntry list \<Rightarrow> DataAPIPayloadDeliveredEntry list) \<Rightarrow> DatabaseService \<Rightarrow> u64 \<Rightarrow> u64 \<Rightarrow>
     sql_error + DataAPIPayloadDeliveredEntry list" where
  "GetDeliveredPayloadsForSlots fault plan db slotStart slotEnd =
     sql_Select fault (map (\<lambda>r. (claim_columns r)\<lparr>pd_ExtraData := pd_ExtraData r\<rparr>)
       (order_asc plan pd_Slot (filter (\<lambda>r. slotStart \<le> pd_Slot r \<and> pd_Slot r \<le> slotEnd) (payloads db))))"

definition GetSignedBuilderBidsForSlot ::
    "sql_error option \<Rightarrow> (SignedBuilderBidEntry list \<Rightarrow> SignedBuilderBidEntry list) \<Rightarrow> DatabaseService \<Rightarrow> u64 \<Rightarrow>
     sql_error + SignedBuilderBidEntry list" where
  "GetSignedBuilderBidsForSlot fault plan db slot =
     sql_Select fault (map (\<lambda>r. r\<lparr>sb_InsertedAt := zero_time\<rparr>) (plan (filter (\<lambda>r. sb_Slot r = slot) (signed_bids db))))"

definition GetLastDailyBuilderStatsEntry ::
    "sql_error option \<Rightarrow> (BuilderStatsEntry list \<Rightarrow> BuilderStatsEntry list) \<Rightarrow> DatabaseService \<Rightarrow> string \<Rightarrow>
     BuilderStatsEntry \<times> sql_error option" where
  "GetLastDailyBuilderStatsEntry fault plan db filterType =
     sql_Get zero_stats fault
       (map (\<lambda>r. r\<lparr>st_ID := 0, st_InsertedAt := zero_time\<rparr>)
         (take 1 (order_desc plan st_TimeEnd (filter (\<lambda>r. st_Hours r = 24 \<and> st_Type r = filterType) (builder_stats db)))))"

text \<open>\<open>DISTINCT ON (slot)\<close> keeps the first row of each slot; \<open>sqlx.In\<close> refuses an empty list.\<close>

definition GetRecentPayloadsForExtraData ::
    "sql_error option \<Rightarrow> (DataAPIPayloadDeliveredEntry list \<Rightarrow> DataAPIPayloadDeliveredEntry list) \<Rightarrow> DatabaseService \<Rightarrow>
     string list \<Rightarrow> nat \<Rightarrow> sql_error + TmpPayloadsForExtraDataEntry list" where
  "GetRecentPayloadsForExtraData fault plan db extraData limit =
     (if extraData = [] then Inl ErrEmptyIn
      else sql_Select fault (map (\<lambda>r. \<lparr>tp_Slot = pd_Slot r, tp_ExtraData = pd_ExtraData r,
              tp_InsertedAt = pd_InsertedAt r, tp_BlockTimestamp = pd_BlockTimestamp r\<rparr>)
         (take limit (firsts_by pd_Slot (\<lambda>_. False)
           (order_desc plan pd_Slot (filter (\<lambda>r. pd_ExtraData r \<in> set extraData) (payloads db)))))))"

section \<open>Facts about inserting\<close>

lemma payload_key_row [simp]: "payload_key (payload_row now i e) = payload_key e"
  by (simp add: payload_key_def payload_row_def)

lemma bid_row_key_row [simp]: "bid_row_key (bid_row now i e) = bid_row_key e"
  by (simp add: bid_row_key_def bid_row_def)

lemma stats_key_row [simp]: "stats_key (stats_row now i e) = stats_key e"
  by (simp add: stats_key_def stats_row_def)

lemma stats_key_update [simp]: "stats_key (update_stats e r) = stats_key r"
  by (simp add: stats_key_def update_stats_def)

text \<open>The contract of a table with a unique index: its keys stay distinct and the first row with a key wins.\<close>

locale unique_table =
  fixes key :: "'r \<Rightarrow> 'k" and row :: "nat \<Rightarrow> 'r \<Rightarrow> 'r"
  assumes key_row [simp]: "key (row i e) = key e"
begin

lemma insert_row_seen: "k \<in> key ` set (fst (insert_row key row e t)) \<longleftrightarrow> k \<in> key ` set (fst t) \<or> k = key e"
  by (auto simp: insert_row_def image_iff)

sublocale first_store "\<lambda>t k. k \<in> key ` set (fst t)" "insert_row key row" key
  by unfold_locales (rule insert_row_seen)

lemma insert_rows_Nil [simp]: "insert_rows key row [] t = t"
  by (simp add: insert_rows_def)

lemma insert_rows_append: "insert_rows key row (xs @ ys) t = insert_rows key row ys (insert_rows key row xs t)"
  by (simp add: insert_rows_def)

lemma insert_rows_keys: "k \<in> key ` set (fst (insert_rows key row es t)) \<longleftrightarrow> k \<in> key ` set (fst t) \<or> k \<in> key ` set es"
  unfolding insert_rows_def by (rule stored_keys)

lemma insert_rows_key_set: "key ` set (fst (insert_rows key row es t)) = key ` set (fst t) \<union> key ` set es"
  using insert_rows_keys [of _ es t] by (intro set_eqI) simp

lemma insert_rows_distinct:
  "distinct (map key (fst t)) \<Longrightarrow> distinct (map key (fst (insert_rows key row es t)))"
  unfolding insert_rows_def by (induction es arbitrary: t) (auto simp: insert_row_def)

text \<open>The rows a statement adds are the first entries of each new key, in order.\<close>

lemma insert_rows_firsts:
  "\<exists>new. fst (insert_rows key row es t) = fst t @ new \<and>
    map key new = map key (firsts_by key (\<lambda>k. k \<in> key ` set (fst t)) es) \<and>
    set new \<subseteq> (\<Union>i. row i ` set es)"
proof (induction es arbitrary: t)
  case (Cons e es)
  obtain new where new: "fst (insert_rows key row es (insert_row key row e t)) = fst (insert_row key row e t) @ new"
      "map key new = map key (firsts_by key (\<lambda>k. k \<in> key ` set (fst (insert_row key row e t))) es)"
      "set new \<subseteq> (\<Union>i. row i ` set es)"
    using Cons.IH by blast
  have first: "firsts_by key (\<lambda>k. k \<in> key ` set (fst t)) (e # es) =
      (if key e \<in> key ` set (fst t) then [] else [e]) @ firsts_by key (\<lambda>k. k \<in> key ` set (fst (insert_row key row e t))) es"
    by (rule firsts_step)
  have "insert_rows key row (e # es) t = insert_rows key row es (insert_row key row e t)"
    by (simp add: insert_rows_def)
  note step = this first
  have sub: "set new \<subseteq> (\<Union>i. row i ` set (e # es))" using new(3) by fastforce
  moreover have "row (snd t) e \<in> (\<Union>i. row i ` set (e # es))" by auto
  ultimately show ?case
  proof (cases "key e \<in> key ` set (fst t)")
    case True
    with new(1,2) sub show ?thesis unfolding step
      by (intro exI [of _ new]) (auto simp: insert_row_def)
  next
    case False
    with new(1,2) sub show ?thesis unfolding step
      by (intro exI [of _ "row (snd t) e # new"]) (auto simp: insert_row_def)
  qed
qed simp

lemma insert_rows_again: "\<forall>e \<in> set es. key e \<in> key ` set (fst t) \<Longrightarrow> fst (insert_rows key row es t) = fst t"
  unfolding insert_rows_def by (induction es arbitrary: t) (auto simp: insert_row_def)

end

interpretation payload_table: unique_table payload_key "payload_row now" for now
  by unfold_locales simp

interpretation bid_table: unique_table bid_row_key "bid_row now" for now
  by unfold_locales simp

interpretation signed_bid_table: unique_table signed_bid_key "signed_bid_row now" for now
  by unfold_locales (simp add: signed_bid_key_def signed_bid_row_def)

interpretation builder_table: unique_table be_BuilderPubkey "builder_row now" for now
  by unfold_locales (simp add: builder_row_def)

section \<open>Saving payloads\<close>

lemma insert_rows_grows: "length (fst t) \<le> length (fst (insert_rows payload_key (payload_row now) es t))"
  using payload_table.insert_rows_firsts [of now es t] by auto

lemma exec_payload_insert_slice:
  "i < length entries \<Longrightarrow> fault = None \<Longrightarrow>
   exec_payload_insert fault now (take payload_batch (drop i entries)) db =
     (case insert_rows payload_key (payload_row now) (take payload_batch (drop i entries)) (payloads db, next_id db) of
        (t, n) \<Rightarrow> (db\<lparr>payloads := t, next_id := n\<rparr>, Inr (length t - length (payloads db))))"
  by (simp add: exec_payload_insert_def payload_batch_def payload_columns_def max_parameters_def)

lemma chunk_end:
  "i < length entries \<Longrightarrow>
   take ((if i + payload_batch > length entries then length entries else i + payload_batch) - i) (drop i entries) =
   take payload_batch (drop i entries)"
  by (simp add: min_def)

lemma save_payload_chunks_unfold:
  "save_payload_chunks fault now entries i acc db =
     (if i < length entries then
        (case exec_payload_insert (fault i) now (take payload_batch (drop i entries)) db of
           (db', Inl e) \<Rightarrow> (db', 0, Some e)
         | (db', Inr n) \<Rightarrow> save_payload_chunks fault now entries (i + payload_batch) (acc + n) db')
      else (db, acc, None))"
  by (subst save_payload_chunks.simps) (simp add: chunk_end Let_def)

text \<open>Without a fault the slices insert what one statement over all entries would insert.\<close>

lemma save_payload_chunks_ok:
  assumes "\<forall>i. fault i = None"
  shows "save_payload_chunks fault now entries i acc db =
    (case insert_rows payload_key (payload_row now) (drop i entries) (payloads db, next_id db) of
       (t, n) \<Rightarrow> (db\<lparr>payloads := t, next_id := n\<rparr>, acc + (length t - length (payloads db)), None))"
proof (induction "length entries - i" arbitrary: i acc db rule: less_induct)
  case less
  show ?case
  proof (cases "i < length entries")
    case True
    obtain t n where 1: "insert_rows payload_key (payload_row now) (take payload_batch (drop i entries)) (payloads db, next_id db) = (t, n)"
      by fastforce
    obtain t' n' where 2: "insert_rows payload_key (payload_row now) (drop (i + payload_batch) entries) (t, n) = (t', n')"
      by fastforce
    have "drop i entries = take payload_batch (drop i entries) @ drop (i + payload_batch) entries"
      by (metis append_take_drop_id drop_drop add.commute)
    then have 3: "insert_rows payload_key (payload_row now) (drop i entries) (payloads db, next_id db) = (t', n')"
      by (metis 1 2 payload_table.insert_rows_append)
    have "length (payloads db) \<le> length t" "length t \<le> length t'"
      using insert_rows_grows [of "(payloads db, next_id db)"] insert_rows_grows [of "(t, n)"] 1 2 by (metis fst_conv)+
    moreover have "length entries - (i + payload_batch) < length entries - i"
      using True by (simp add: payload_batch_def)
    ultimately show ?thesis
      using True assms 1 2 3 less [of "i + payload_batch"]
      by (subst save_payload_chunks_unfold) (simp add: exec_payload_insert_slice)
  qed (simp add: save_payload_chunks_unfold)
qed

lemma SaveDataAPIPayloadDeliveredBatch_ok:
  assumes "\<forall>i. fault i = None"
  shows "SaveDataAPIPayloadDeliveredBatch fault now entries db =
    (case insert_rows payload_key (payload_row now) entries (payloads db, next_id db) of
       (t, n) \<Rightarrow> (db\<lparr>payloads := t, next_id := n\<rparr>, length t - length (payloads db), None))"
  by (simp add: SaveDataAPIPayloadDeliveredBatch_def save_payload_chunks_ok [OF assms])

text \<open>Whatever the faults, rows only come, and after a success every entry has a row with its key.\<close>

lemma exec_payload_insert_keys:
  "payload_key ` set (payloads db) \<subseteq> payload_key ` set (payloads (fst (exec_payload_insert fault now es db)))"
  "snd (exec_payload_insert fault now es db) = Inr n \<Longrightarrow>
    payload_key ` set es \<subseteq> payload_key ` set (payloads (fst (exec_payload_insert fault now es db)))"
  using payload_table.insert_rows_key_set [of now es "(payloads db, next_id db)"]
  by (auto simp: exec_payload_insert_def split: option.splits prod.splits if_splits)

lemma subset_glue:
  "G = E \<union> F \<Longrightarrow> A \<subseteq> B \<Longrightarrow> E \<subseteq> B \<Longrightarrow> B \<subseteq> D \<and> (p \<longrightarrow> F \<subseteq> D) \<Longrightarrow> A \<subseteq> D \<and> (p \<longrightarrow> G \<subseteq> D)"
  by blast

lemma save_payload_chunks_keys:
  assumes "save_payload_chunks fault now entries i acc db = (db', n, err)"
  shows "payload_key ` set (payloads db) \<subseteq> payload_key ` set (payloads db') \<and>
    (err = None \<longrightarrow> payload_key ` set (drop i entries) \<subseteq> payload_key ` set (payloads db'))"
  using assms
proof (induction "length entries - i" arbitrary: i acc db rule: less_induct)
  case less
  show ?case
  proof (cases "i < length entries")
    case True
    let ?es = "take payload_batch (drop i entries)"
    obtain db1 r where exec: "exec_payload_insert (fault i) now ?es db = (db1, r)" by fastforce
    show ?thesis
    proof (cases r)
      case (Inl e)
      then have "db' = db1" "err = Some e"
        using less.prems True exec by (subst (asm) save_payload_chunks_unfold, simp)+
      then show ?thesis using exec_payload_insert_keys(1) [of db "fault i" now ?es] exec by simp
    next
      case (Inr m)
      have "save_payload_chunks fault now entries (i + payload_batch) (acc + m) db1 = (db', n, err)"
        using less.prems True exec Inr by (subst (asm) save_payload_chunks_unfold) simp
      moreover have "length entries - (i + payload_batch) < length entries - i"
        using True by (simp add: payload_batch_def)
      ultimately have rest: "payload_key ` set (payloads db1) \<subseteq> payload_key ` set (payloads db') \<and>
          (err = None \<longrightarrow> payload_key ` set (drop (i + payload_batch) entries) \<subseteq> payload_key ` set (payloads db'))"
        by (intro less.hyps)
      have "set (drop i entries) = set ?es \<union> set (drop (i + payload_batch) entries)"
        by (metis append_take_drop_id drop_drop add.commute set_append)
      then have "payload_key ` set (drop i entries) = payload_key ` set ?es \<union> payload_key ` set (drop (i + payload_batch) entries)"
        by (simp only: image_Un)
      moreover have "payload_key ` set (payloads db) \<subseteq> payload_key ` set (payloads db1)"
          "payload_key ` set ?es \<subseteq> payload_key ` set (payloads db1)"
        using exec_payload_insert_keys(1) [of db "fault i" now ?es] exec_payload_insert_keys(2) [of "fault i" now ?es db]
          exec Inr by auto
      ultimately show ?thesis using rest by (rule subset_glue)
    qed
  qed (use less.prems in \<open>simp add: save_payload_chunks_unfold\<close>)
qed

lemma SaveDataAPIPayloadDeliveredBatch_keys:
  assumes "SaveDataAPIPayloadDeliveredBatch fault now entries db = (db', n, err)"
  shows "payload_key ` set (payloads db) \<subseteq> payload_key ` set (payloads db')"
    and "err = None \<Longrightarrow> payload_key ` set entries \<subseteq> payload_key ` set (payloads db')"
  using assms save_payload_chunks_keys [of fault now entries 0 0 db db' n err]
  by (auto simp: SaveDataAPIPayloadDeliveredBatch_def split: if_splits)


definition example_payload :: "string \<Rightarrow> u64 \<Rightarrow> DataAPIPayloadDeliveredEntry" where
  "example_payload relay s = zero_payload\<lparr>pd_Relay := relay, pd_Slot := s, pd_BlockHash := ''0xab'', pd_ValueClaimedWei := ''1000''\<rparr>"


lemma drop_take_slice:
  assumes "i + n \<le> m"
  shows "drop i (take m xs) = take n (drop i xs) @ drop (i + n) (take m xs)"
proof -
  have "take n (drop i (take m xs)) = take n (drop i xs)" using assms by (simp add: take_drop min_def)
  then show ?thesis by (metis append_take_drop_id drop_drop add.commute)
qed

text \<open>When the server refuses the slice that starts at \<open>j\<close>, the call returns the error and 0 rows, but
  the entries of the slices before it stay in the table.\<close>

theorem SaveDataAPIPayloadDeliveredBatch_partial:
  assumes "\<forall>k < m. fault (k * payload_batch) = None" and "fault (m * payload_batch) = Some e"
    and "m * payload_batch < length entries"
  shows "\<exists>db'. SaveDataAPIPayloadDeliveredBatch fault now entries db = (db', 0, Some e) \<and>
    payload_key ` set (payloads db') = payload_key ` set (payloads db) \<union> payload_key ` set (take (m * payload_batch) entries)"
proof -
  have "\<exists>db'. save_payload_chunks fault now entries (k * payload_batch) acc db = (db', 0, Some e) \<and>
      payload_key ` set (payloads db') = payload_key ` set (payloads db) \<union>
        payload_key ` set (drop (k * payload_batch) (take (m * payload_batch) entries))" if "k \<le> m" for k acc db
    using that
  proof (induction "m - k" arbitrary: k acc db)
    case 0
    then have "k = m" by simp
    with assms show ?case
      by (subst save_payload_chunks_unfold)
        (simp add: exec_payload_insert_def payload_batch_def payload_columns_def max_parameters_def)
  next
    case (Suc d)
    let ?i = "k * payload_batch" and ?j = "Suc k * payload_batch"
    have "k < m" using Suc by simp
    then have fault: "fault ?i = None" using assms(1) by simp
    have jm: "?j \<le> m * payload_batch" using \<open>k < m\<close> by (intro mult_le_mono1) simp
    then have i: "?i < length entries" using assms(3) by (simp add: payload_batch_def)
    obtain t n where ins: "insert_rows payload_key (payload_row now) (take payload_batch (drop ?i entries)) (payloads db, next_id db) = (t, n)"
      by fastforce
    have step: "save_payload_chunks fault now entries ?i acc db =
        save_payload_chunks fault now entries ?j (acc + (length t - length (payloads db))) (db\<lparr>payloads := t, next_id := n\<rparr>)"
      using i fault ins by (subst save_payload_chunks_unfold) (simp add: exec_payload_insert_slice add.commute)
    have less: "d = m - Suc k" "Suc k \<le> m" using Suc.hyps(2) \<open>k < m\<close> by simp_all
    obtain db' where db': "save_payload_chunks fault now entries ?j (acc + (length t - length (payloads db)))
          (db\<lparr>payloads := t, next_id := n\<rparr>) = (db', 0, Some e)"
        "payload_key ` set (payloads db') = payload_key ` set t \<union> payload_key ` set (drop ?j (take (m * payload_batch) entries))"
      using Suc.hyps(1) [OF less(1,2), of "acc + (length t - length (payloads db))" "db\<lparr>payloads := t, next_id := n\<rparr>"]
      by auto
    have keys: "payload_key ` set t = payload_key ` set (payloads db) \<union> payload_key ` set (take payload_batch (drop ?i entries))"
      using payload_table.insert_rows_key_set [of now "take payload_batch (drop ?i entries)" "(payloads db, next_id db)"]
      by (simp add: ins)
    have "drop ?i (take (m * payload_batch) entries) =
        take payload_batch (drop ?i entries) @ drop ?j (take (m * payload_batch) entries)"
      using jm drop_take_slice [of ?i payload_batch "m * payload_batch" entries] by (simp add: add.commute)
    then have "set (drop ?i (take (m * payload_batch) entries)) =
        set (take payload_batch (drop ?i entries)) \<union> set (drop ?j (take (m * payload_batch) entries))" by (metis set_append)
    with db' keys step show ?case by (auto simp: image_Un)
  qed
  from this [of 0 0 db] assms(3) show ?thesis by (auto simp: SaveDataAPIPayloadDeliveredBatch_def)
qed

theorem SaveDataAPIPayloadDeliveredBatch_partial_witness:
  "\<exists>db'. SaveDataAPIPayloadDeliveredBatch (\<lambda>i. if i = 3000 then Some (ErrServer ''gone'') else None) (GoTime 0 0)
      (map (example_payload ''a'' \<circ> of_nat) [0..<3001]) empty_db = (db', 0, Some (ErrServer ''gone'')) \<and>
    payload_key ` set (payloads db') = {} \<union> payload_key ` set (take 3000 (map (example_payload ''a'' \<circ> of_nat) [0..<3001]))"
  using SaveDataAPIPayloadDeliveredBatch_partial [of 1 "\<lambda>i. if i = 3000 then Some (ErrServer ''gone'') else None"
      "ErrServer ''gone''" "map (example_payload ''a'' \<circ> of_nat) [0..<3001]" "GoTime 0 0" empty_db]
  by (simp add: payload_batch_def empty_db_def del: upt_Suc)

text \<open>Bids are not saved in slices, and a statement with more than 4681 of them has more parameters
  than the server takes: nothing is saved.\<close>

theorem SaveDataAPIBids_limit:
  "snd (SaveDataAPIBids None now entries db) = (if 4681 < length entries then Some ErrTooManyParameters else None) \<and>
   (4681 < length entries \<longleftrightarrow> fst (SaveDataAPIBids None now entries db) = db \<and> snd (SaveDataAPIBids None now entries db) \<noteq> None)"
  by (auto simp: SaveDataAPIBids_def bid_columns_def max_parameters_def split: prod.splits)

text \<open>Whatever the server does, saving payloads keeps the unique index: no two rows of the table have the
  same relay, slot, parent hash and block hash.\<close>

theorem SaveDataAPIPayloadDeliveredBatch_unique:
  assumes "distinct (map payload_key (payloads db))"
  shows "distinct (map payload_key (payloads (fst (SaveDataAPIPayloadDeliveredBatch fault now entries db))))"
proof -
  have "distinct (map payload_key (payloads (fst (save_payload_chunks fault now entries i acc db))))"
    if "distinct (map payload_key (payloads db))" for i acc db
    using that
  proof (induction "length entries - i" arbitrary: i acc db rule: less_induct)
    case less
    let ?es = "take payload_batch (drop i entries)"
    have step: "distinct (map payload_key (payloads (fst (exec_payload_insert (fault i) now ?es db))))"
      using less.prems payload_table.insert_rows_distinct [of "(payloads db, next_id db)" now ?es]
      by (auto simp: exec_payload_insert_def split: option.splits prod.splits)
    have smaller: "i < length entries \<Longrightarrow> length entries - (i + payload_batch) < length entries - i"
      by (simp add: payload_batch_def)
    show ?case
      using less.hyps [OF smaller] step less.prems
      by (subst save_payload_chunks_unfold) (auto split: prod.splits sum.splits)
  qed
  with assms show ?thesis by (simp add: SaveDataAPIPayloadDeliveredBatch_def)
qed

theorem SaveDataAPIPayloadDeliveredBatch_unique_witness:
  "distinct (map payload_key (payloads (fst (SaveDataAPIPayloadDeliveredBatch (\<lambda>_. None) (GoTime 0 0)
      [example_payload ''a'' 1, example_payload ''a'' 1] empty_db))))"
  by (rule SaveDataAPIPayloadDeliveredBatch_unique) (simp add: empty_db_def)

section \<open>Facts about queries\<close>

lemma mset_order_desc: "row_order plan \<Longrightarrow> mset (order_desc plan key rows) = mset rows"
  by (simp add: order_desc_def row_order_def)

lemma set_order_desc: "row_order plan \<Longrightarrow> set (order_desc plan key rows) = set rows"
  by (metis mset_order_desc set_mset_mset)

lemma order_desc_sorted: "sorted_wrt (\<lambda>a b. key b \<le> key a) (order_desc plan key rows)"
  by (simp add: order_desc_def sorted_wrt_rev flip: sorted_wrt_map)

lemma mset_order_asc: "row_order plan \<Longrightarrow> mset (order_asc plan key rows) = mset rows"
  by (simp add: order_asc_def row_order_def)

lemma row_order_order_desc: "row_order plan \<Longrightarrow> row_order (order_desc plan key)"
  using mset_order_desc by (simp add: row_order_def) blast

lemma length_groups: "sum_list (map (\<lambda>(k, g). length g) (group_by key rows)) = length rows"
proof -
  have sum: "sum_list (map (\<lambda>k. length (filter (\<lambda>r. key r = k) rows)) ks) = length (filter (\<lambda>r. key r \<in> set ks) rows)"
    if "distinct ks" for ks
    using that
  proof (induction ks)
    case (Cons k ks)
    have "length (filter (\<lambda>r. key r = k \<or> key r \<in> set ks) rows) =
        length (filter (\<lambda>r. key r = k) rows) + length (filter (\<lambda>r. key r \<in> set ks) rows)"
      using Cons.prems by (induction rows) auto
    with Cons show ?case by simp
  qed simp
  have all: "filter (\<lambda>r. key r \<in> set (remdups (map key rows))) rows = rows" by simp
  show ?thesis using sum [of "remdups (map key rows)"] unfolding all by (simp add: group_by_def comp_def)
qed

lemma distinct_groups: "distinct (map fst (group_by key rows))"
  by (simp add: group_by_def comp_def)

lemma GetTopRelays_counts:
  assumes "row_order plan" and "GetTopRelays None plan db since until = Inr res" and "length (payloads db) < 2 ^ 64"
  defines "rows \<equiv> checked_between (timeToSlot since) (timeToSlot until) db"
  shows "sorted_wrt (\<lambda>a b. tr_NumPayloads b \<le> tr_NumPayloads a) res \<and> distinct (map tr_Relay res) \<and>
    set (map tr_Relay res) = pd_Relay ` set rows \<and>
    (\<forall>r \<in> set res. unat (tr_NumPayloads r) = length (filter (\<lambda>p. pd_Relay p = tr_Relay r) rows)) \<and>
    sum_list (map (\<lambda>r. unat (tr_NumPayloads r)) res) = length rows"
proof -
  define entry :: "string \<times> DataAPIPayloadDeliveredEntry list \<Rightarrow> TopRelayEntry"
    where "entry = (\<lambda>(relay, g). \<lparr>tr_Relay = relay, tr_NumPayloads = of_nat (length g), tr_Percent = []\<rparr>)"
  have res: "res = order_desc plan tr_NumPayloads (map entry (group_by pd_Relay rows))"
    using assms(2) by (simp add: GetTopRelays_def sql_Select_def rows_def entry_def)
  have count: "unat (tr_NumPayloads (entry (k, g))) = length g" if "(k, g) \<in> set (group_by pd_Relay rows)" for k g
  proof -
    have "length g \<le> length rows" using that by (auto simp: group_by_def)
    also have "\<dots> \<le> length (payloads db)" by (simp add: rows_def checked_between_def)
    finally show ?thesis using assms(3) by (simp add: entry_def unat_of_nat)
  qed
  have names: "map tr_Relay (map entry (group_by pd_Relay rows)) = map fst (group_by pd_Relay rows)"
    by (simp add: entry_def comp_def split_beta)
  have mset: "mset res = mset (map entry (group_by pd_Relay rows))"
    unfolding res by (rule mset_order_desc [OF assms(1)])
  then have perm: "mset (map tr_Relay res) = mset (map fst (group_by pd_Relay rows))"
    unfolding names [symmetric] mset_map by (rule arg_cong)
  have "distinct (map tr_Relay res)"
    using mset_eq_imp_distinct_iff [OF perm] distinct_groups by blast
  moreover have "set (map tr_Relay res) = pd_Relay ` set rows"
    using mset_eq_setD [OF perm] by (simp add: group_by_def image_image)
  moreover have "unat (tr_NumPayloads r) = length (filter (\<lambda>p. pd_Relay p = tr_Relay r) rows)" if "r \<in> set res" for r
  proof -
    have "r \<in> set (map entry (group_by pd_Relay rows))" using that mset_eq_setD [OF mset] by blast
    then obtain k g where kg: "(k, g) \<in> set (group_by pd_Relay rows)" "r = entry (k, g)" by auto
    then have "g = filter (\<lambda>p. pd_Relay p = k) rows" by (auto simp: group_by_def)
    with count [OF kg(1)] kg(2) show ?thesis by (simp add: entry_def)
  qed
  moreover have "sum_list (map (\<lambda>r. unat (tr_NumPayloads r)) res) = length rows"
  proof -
    have "sum_list (map (\<lambda>r. unat (tr_NumPayloads r)) res) =
        sum_list (map (\<lambda>r. unat (tr_NumPayloads r)) (map entry (group_by pd_Relay rows)))"
      by (rule sum_list_map_perm [OF mset])
    also have "map (\<lambda>r. unat (tr_NumPayloads r)) (map entry (group_by pd_Relay rows)) =
        map (\<lambda>(k, g). length g) (group_by pd_Relay rows)"
      using count by (auto simp: split_beta)
    finally show ?thesis by (simp only: length_groups)
  qed
  ultimately show ?thesis using order_desc_sorted res by blast
qed

text \<open>The relay statistics list every relay with a checked payload in the slots of the time range once,
  by decreasing number of its payloads, and the numbers add up to all checked payloads of the range.\<close>

theorem GetTopRelays_correct:
  assumes "row_order plan" and "GetTopRelays None plan db since until = Inr res" and "length (payloads db) < 2 ^ 64"
  defines "rows \<equiv> checked_between (timeToSlot since) (timeToSlot until) db"
  shows "sorted_wrt (\<lambda>a b. tr_NumPayloads b \<le> tr_NumPayloads a) res \<and> distinct (map tr_Relay res) \<and>
    set (map tr_Relay res) = pd_Relay ` set rows \<and>
    (\<forall>r \<in> set res. unat (tr_NumPayloads r) = length (filter (\<lambda>p. pd_Relay p = tr_Relay r) rows)) \<and>
    sum_list (map (\<lambda>r. unat (tr_NumPayloads r)) res) = length rows"
  unfolding rows_def using assms(1-3) by (rule GetTopRelays_counts)

definition example_db :: DatabaseService where
  "example_db = empty_db\<lparr>payloads := [example_payload ''a'' 10\<lparr>pd_ValueCheckOk := Some True\<rparr>, example_payload ''b'' 10,
     example_payload ''a'' 11\<lparr>pd_ValueCheckOk := Some False\<rparr>]\<rparr>"

theorem GetTopRelays_correct_witness:
  "case GetTopRelays None (\<lambda>rows. rows) example_db (GoTime 1606824023 0) (GoTime 1606825023 0) of
     Inr res \<Rightarrow> sum_list (map (\<lambda>r. unat (tr_NumPayloads r)) res) = 2 | Inl _ \<Rightarrow> False"
proof -
  obtain res where res: "GetTopRelays None (\<lambda>rows. rows) example_db (GoTime 1606824023 0) (GoTime 1606825023 0) = Inr res"
    by (simp add: GetTopRelays_def sql_Select_def Let_def)
  have "length (checked_between (timeToSlot (GoTime 1606824023 0)) (timeToSlot (GoTime 1606825023 0)) example_db) = 2"
    by code_simp
  moreover have plan: "row_order (\<lambda>rows. rows)" and small: "length (payloads example_db) < 2 ^ 64"
    by (simp_all add: row_order_def example_db_def)
  ultimately have "sum_list (map (\<lambda>r. unat (tr_NumPayloads r)) res) = 2"
    using GetTopRelays_correct [OF plan res small] by argo
  then show ?thesis by (simp add: res)
qed

text \<open>The recent payloads of a builder are its newest slots, one payload each, in descending order,
  at most as many as asked for; an empty list of aliases is an error and no query.\<close>

theorem GetRecentPayloadsForExtraData_newest:
  assumes "row_order plan" and "GetRecentPayloadsForExtraData None plan db extraData limit = Inr res"
  shows "sorted_wrt (>) (map tp_Slot res) \<and> length res \<le> limit \<and> extraData \<noteq> [] \<and>
    (\<forall>r \<in> set (payloads db). pd_ExtraData r \<in> set extraData \<and> pd_Slot r \<notin> tp_Slot ` set res \<longrightarrow>
       length res = limit \<and> (\<forall>t \<in> set res. pd_Slot r < tp_Slot t))"
proof -
  define rows where "rows = order_desc plan pd_Slot (filter (\<lambda>r. pd_ExtraData r \<in> set extraData) (payloads db))"
  define one where "one = firsts_by pd_Slot (\<lambda>_. False) rows"
  have res: "map tp_Slot res = take limit (map pd_Slot one)" and "extraData \<noteq> []"
    using assms(2) by (auto simp: GetRecentPayloadsForExtraData_def sql_Select_def rows_def one_def comp_def take_map split: if_splits)
  have "sorted_wrt (\<lambda>a b. pd_Slot b \<le> pd_Slot a) rows" unfolding rows_def by (rule order_desc_sorted)
  then have le: "sorted_wrt (\<lambda>a b. pd_Slot b \<le> pd_Slot a) (firsts_by pd_Slot seen rows)" for seen
  proof (induction rows arbitrary: seen)
    case (Cons a rows)
    then show ?case using set_firsts_by [of pd_Slot _ rows] by (auto 4 3)
  qed simp
  have "distinct (map pd_Slot one)" unfolding one_def by (rule distinct_firsts_by)
  with le [of "\<lambda>_. False"] have sorted: "sorted_wrt (>) (map pd_Slot one)"
    unfolding one_def [symmetric] by (induction one) (auto simp: order_less_le, metis imageI)
  have covered: "pd_Slot r \<in> set (map pd_Slot one)" if "r \<in> set (payloads db)" "pd_ExtraData r \<in> set extraData" for r
    unfolding one_def rows_def set_map key_firsts_by set_order_desc [OF assms(1)] using that by auto
  have late: "x \<in> set (drop limit ys) \<Longrightarrow> sorted_wrt (>) ys \<Longrightarrow> limit \<le> length ys \<and> (\<forall>y \<in> set (take limit ys). x < y)"
    for x :: u64 and ys
    by (metis append_take_drop_id drop_all empty_iff empty_set nat_le_linear sorted_wrt_append)
  have sorted_res: "sorted_wrt (>) (map tp_Slot res)"
    unfolding res using sorted by (metis append_take_drop_id sorted_wrt_append)
  have len: "length res \<le> limit" using arg_cong [OF res, of length] by simp
  have "length res = limit \<and> (\<forall>t \<in> set res. pd_Slot r < tp_Slot t)"
    if r: "r \<in> set (payloads db)" "pd_ExtraData r \<in> set extraData" and not: "pd_Slot r \<notin> tp_Slot ` set res" for r
  proof -
    have "pd_Slot r \<notin> set (take limit (map pd_Slot one))" using not res by (metis set_map)
    with covered [OF r] have "pd_Slot r \<in> set (drop limit (map pd_Slot one))"
      by (metis Un_iff append_take_drop_id set_append)
    from late [OF this sorted] have "limit \<le> length (map pd_Slot one)" "\<forall>y \<in> set (take limit (map pd_Slot one)). pd_Slot r < y"
      by blast+
    moreover have "length res = min (length one) limit" using arg_cong [OF res, of length] by simp
    ultimately show ?thesis unfolding res [symmetric] by auto
  qed
  with sorted_res len \<open>extraData \<noteq> []\<close> show ?thesis by blast
qed

theorem GetRecentPayloadsForExtraData_newest_witness:
  "case GetRecentPayloadsForExtraData None (\<lambda>rows. rows) example_db [[]] 2 of
     Inr res \<Rightarrow> length res \<le> 2 | Inl _ \<Rightarrow> False"
proof -
  obtain res where res: "GetRecentPayloadsForExtraData None (\<lambda>rows. rows) example_db [[]] 2 = Inr res"
    by (simp add: GetRecentPayloadsForExtraData_def sql_Select_def)
  from GetRecentPayloadsForExtraData_newest [OF _ res] show ?thesis by (simp add: res row_order_def)
qed

section \<open>The statistics table as a map\<close>

text \<open>The specification of the table of statistics: a map from its unique key to the updated columns.\<close>

definition stats_content :: "BuilderStatsEntry \<Rightarrow> string \<times> string \<times> i64" where
  "stats_content r = (st_ExtraData r, st_BuilderPubkeys r, st_BlocksIncluded r)"

definition stats_of :: "BuilderStatsEntry list \<Rightarrow> string \<times> i64 \<times> gotime \<times> gotime \<times> string \<rightharpoonup> string \<times> string \<times> i64" where
  "stats_of rows = map_of (map (\<lambda>r. (stats_key r, stats_content r)) rows)"

lemma stats_content_row [simp]: "stats_content (stats_row now i e) = stats_content e"
  and stats_content_update [simp]: "stats_content (update_stats e r) = stats_content e"
  by (simp_all add: stats_content_def stats_row_def update_stats_def)

lemma stats_of_upsert:
  "stats_of (fst (upsert_stats now e t)) = (stats_of (fst t))(stats_key e \<mapsto> stats_content e)"
proof (cases "stats_key e \<in> stats_key ` set (fst t)")
  case True
  have "stats_of (map (\<lambda>r. if stats_key r = stats_key e then update_stats e r else r) rows) =
      (stats_of rows)(stats_key e \<mapsto> stats_content e)" if "stats_key e \<in> stats_key ` set rows" for rows
    using that
  proof (induction rows)
    case (Cons r rows)
    have off: "stats_of (map (\<lambda>r. if stats_key r = stats_key e then update_stats e r else r) rows) k = stats_of rows k"
      if "k \<noteq> stats_key e" for k
      using that by (induction rows) (simp_all add: stats_of_def)
    show ?case
    proof (cases "stats_key r = stats_key e")
      case True
      then show ?thesis using off by (auto simp: stats_of_def fun_eq_iff)
    next
      case False
      with Cons.prems have "stats_key e \<in> stats_key ` set rows" by auto
      with Cons.IH False show ?thesis by (auto simp: stats_of_def)
    qed
  qed simp
  with True show ?thesis by (simp add: upsert_stats_def)
next
  case False
  then have "stats_key e \<notin> dom (stats_of (fst t))" by (auto simp: stats_of_def dom_map_of_conv_image_fst)
  with False show ?thesis
    by (auto simp: upsert_stats_def stats_of_def map_add_def fun_eq_iff dom_def split: option.splits)
qed

lemma stats_of_upserts:
  "distinct (map stats_key es) \<Longrightarrow>
   stats_of (fst (fold (upsert_stats now) es t)) = stats_of (fst t) ++ stats_of es"
proof (induction es arbitrary: t)
  case (Cons e es)
  have "stats_key e \<notin> dom (stats_of es)" using Cons.prems by (auto simp: stats_of_def dom_map_of_conv_image_fst)
  then have "(stats_of (fst t))(stats_key e \<mapsto> stats_content e) ++ stats_of es = stats_of (fst t) ++ stats_of (e # es)"
    by (auto simp: stats_of_def map_add_def fun_eq_iff dom_def split: option.splits)
  with Cons show ?case by (simp add: stats_of_upsert)
qed (simp add: stats_of_def)

lemma stats_of_append: "stats_of (xs @ ys) = stats_of ys ++ stats_of xs"
  by (simp add: stats_of_def)

lemma dom_stats_of: "dom (stats_of rows) = stats_key ` set rows"
  by (simp add: stats_of_def dom_map_of_conv_image_fst image_image)

lemma SaveBuilderStats_map:
  "distinct (map stats_key entries) \<Longrightarrow>
   snd (SaveBuilderStats None now entries db) = None \<and>
   stats_of (builder_stats (fst (SaveBuilderStats None now entries db))) = stats_of (builder_stats db) ++ stats_of entries"
  using stats_of_upserts [of entries now "(builder_stats db, next_id db)"]
  by (auto simp: SaveBuilderStats_def stats_of_def split: prod.splits)

text \<open>C19. Saving statistics refines the update of a map: the entries override what the table had under their
  keys and nothing else; when two entries of one statement have the same key, nothing is saved.\<close>

theorem SaveBuilderStats_refines:
  "stats_of (builder_stats (fst (SaveBuilderStats None now entries db))) =
     (if distinct (map stats_key entries) then stats_of (builder_stats db) ++ stats_of entries else stats_of (builder_stats db)) \<and>
   (snd (SaveBuilderStats None now entries db) = None \<longleftrightarrow> distinct (map stats_key entries))"
proof (cases "distinct (map stats_key entries)")
  case False
  then have "entries \<noteq> []" by auto
  with False show ?thesis by (simp add: SaveBuilderStats_def)
qed (use SaveBuilderStats_map in simp)

end
