(* ===== verification/Backfill.thy ===== *)
theory Backfill
  imports Database Relays HttpRequest
begin

text \<open>
  \<open>cmd/core/data-api-backfill.go\<close> and the cycle of \<open>cmd/service/backfill_runner.go\<close>: for each relay, pages of
  delivered payloads are requested with a falling cursor and saved, until a stop rule holds.  What the
  world answers is a record of functions of the number of the request: the relay's HTTP answers, the clock,
  the faults of the database and the iteration order of the map of builders.
\<close>

section \<open>The choice of relays\<close>

definition choose_relays :: "(string \<Rightarrow> 'pk option) \<Rightarrow> string \<Rightarrow> 'pk RelayEntry list option" where
  "choose_relays decode cliRelay =
     (if cliRelay \<noteq> [] then
        (case NewRelayEntry decode
            (if cliRelay = ''fb'' then RelayURLs ! 0 else if cliRelay = ''us'' then RelayURLs ! 1 else cliRelay) False of
           RelayOk entry \<Rightarrow> Some [entry]
         | _ \<Rightarrow> None)
      else GetRelays decode)"

section \<open>One page\<close>

record page_state =
  pg_slotFirst :: u64
  pg_slotLast :: u64
  pg_payloadsNew :: nat
  pg_slotsReceived :: "u64 set"
  pg_cursorSlot :: u64
  pg_builders :: "string list"

definition page_step :: "BidTraceV2 \<Rightarrow> page_state \<Rightarrow> page_state" where
  "page_step payload st =
     (let s = bv_Slot payload;
          isNew = s \<notin> pg_slotsReceived st
      in \<lparr>pg_slotFirst = (if pg_slotFirst st = 0 \<or> s < pg_slotFirst st then s else pg_slotFirst st),
          pg_slotLast = (if pg_slotLast st = 0 \<or> s > pg_slotLast st then s else pg_slotLast st),
          pg_payloadsNew = (if isNew then pg_payloadsNew st + 1 else pg_payloadsNew st),
          pg_slotsReceived = insert s (pg_slotsReceived st),
          pg_cursorSlot = (if pg_cursorSlot st = 0 \<or> pg_cursorSlot st > s then s else pg_cursorSlot st),
          pg_builders = List.insert (bv_BuilderPubkey payload) (pg_builders st)\<rparr>)"

definition process_page :: "BidTraceV2 list \<Rightarrow> u64 \<Rightarrow> u64 set \<Rightarrow> string list \<Rightarrow> page_state" where
  "process_page page cursorSlot slotsReceived builders =
     fold page_step page \<lparr>pg_slotFirst = 0, pg_slotLast = 0, pg_payloadsNew = 0, pg_slotsReceived = slotsReceived,
        pg_cursorSlot = cursorSlot, pg_builders = builders\<rparr>"

lemma page_step_new:
  "finite (pg_slotsReceived st) \<Longrightarrow>
   pg_payloadsNew (page_step p st) + card (pg_slotsReceived st) = pg_payloadsNew st + card (pg_slotsReceived (page_step p st))"
  by (simp add: page_step_def Let_def card_insert_if insert_absorb)

lemma process_page_new:
  "card (pg_slotsReceived (process_page page cursor received builders)) =
     card received + pg_payloadsNew (process_page page cursor received builders)"
proof -
  have "finite (pg_slotsReceived (fold page_step page st)) \<and>
      pg_payloadsNew (fold page_step page st) + card (pg_slotsReceived st) = pg_payloadsNew st + card (pg_slotsReceived (fold page_step page st))"
    for st :: page_state
  proof (induction page arbitrary: st)
    case (Cons p page)
    show ?case using Cons [of "page_step p st"] page_step_new [of st p] by simp
  qed simp
  from this [of "\<lparr>pg_slotFirst = 0, pg_slotLast = 0, pg_payloadsNew = 0, pg_slotsReceived = received,
        pg_cursorSlot = cursor, pg_builders = builders\<rparr>"]
  show ?thesis by (simp add: process_page_def)
qed

lemma process_page_received: "pg_slotsReceived (process_page page cursor received builders) = received \<union> bv_Slot ` set page"
proof -
  have "pg_slotsReceived (fold page_step page st) = pg_slotsReceived st \<union> bv_Slot ` set page" for st :: page_state
    by (induction page arbitrary: st) (simp_all add: page_step_def Let_def)
  then show ?thesis by (simp add: process_page_def)
qed

text \<open>The cursor falls to the smallest slot of the pages; slot 0 would read as no cursor.\<close>

lemma process_page_cursor:
  assumes "\<forall>p \<in> set page. bv_Slot p \<noteq> 0"
  shows "pg_cursorSlot (process_page page cursor received builders) =
    (if page = [] then cursor else if cursor = 0 then Min (bv_Slot ` set page) else min cursor (Min (bv_Slot ` set page)))"
proof -
  have "pg_cursorSlot (fold page_step page st) =
      (if page = [] then pg_cursorSlot st else if pg_cursorSlot st = 0 then Min (bv_Slot ` set page)
       else min (pg_cursorSlot st) (Min (bv_Slot ` set page)))" for st :: page_state
    using assms
  proof (induction page arbitrary: st)
    case (Cons p page)
    have c: "pg_cursorSlot (page_step p st) = (if pg_cursorSlot st = 0 then bv_Slot p else min (pg_cursorSlot st) (bv_Slot p))"
      by (auto simp: page_step_def Let_def min_def)
    have nz: "bv_Slot p \<noteq> 0" using Cons.prems by simp
    then have "min (pg_cursorSlot st) (bv_Slot p) = 0 \<longleftrightarrow> pg_cursorSlot st = 0" by (auto simp: min_def)
    with Cons nz c show ?case by (auto simp: min.assoc)
  qed simp
  then show ?thesis by (simp add: process_page_def)
qed

section \<open>The backfill of a relay\<close>

record backfill_env =
  bf_http :: "nat \<Rightarrow> (unit, BidTraceV2 list) http_env"
  bf_now :: "nat \<Rightarrow> gotime"
  bf_save_fault :: "nat \<Rightarrow> nat \<Rightarrow> sql_error option"
  bf_builder_fault :: "nat \<Rightarrow> string \<Rightarrow> sql_error option"
  bf_map_order :: "nat \<Rightarrow> string list \<Rightarrow> string list"
  bf_latest_fault :: "sql_error option"
  bf_plan :: "DataAPIPayloadDeliveredEntry list \<Rightarrow> DataAPIPayloadDeliveredEntry list"

record 'pk backfiller =
  bf_relay :: "'pk RelayEntry"
  bf_cursorSlot :: u64
  bf_minSlot :: u64

definition newBackfiller :: "'pk RelayEntry \<Rightarrow> u64 \<Rightarrow> u64 \<Rightarrow> 'pk backfiller" where
  "newBackfiller relay cursorSlot minSlot = \<lparr>bf_relay = relay, bf_cursorSlot = cursorSlot, bf_minSlot = minSlot\<rparr>"

record loop_state =
  ls_db :: DatabaseService
  ls_cursorSlot :: u64
  ls_slotsReceived :: "u64 set"
  ls_builders :: "string list"
  ls_requests :: nat

datatype backfill_outcome =
  NoNewPayloads | ReachedLatestInDB | ReachedMinSlot | RequestFailed http_error | SaveFatal sql_error | LatestFatal sql_error | RequestPanic

definition pageLimit :: nat where "pageLimit = 100"

definition backfill_url :: "string \<Rightarrow> u64 \<Rightarrow> string" where
  "backfill_url baseURL cursorSlot =
     (let url = baseURL @ ''?limit='' @ nat_str pageLimit
      in if cursorSlot > 0 then url @ ''&cursor='' @ u64_str cursorSlot else url)"

definition save_builders :: "(string \<Rightarrow> sql_error option) \<Rightarrow> gotime \<Rightarrow> string list \<Rightarrow> DatabaseService \<Rightarrow> DatabaseService" where
  "save_builders fault now builders db =
     fold (\<lambda>b db. fst (SaveBuilder (fault b) now
       \<lparr>be_ID = 0, be_InsertedAt = zero_time, be_BuilderPubkey = b, be_Description = []\<rparr> db)) builders db"

text \<open>One turn of the loop: the new state, and the outcome when it is the last turn.\<close>

definition backfill_round ::
    "backfill_env \<Rightarrow> string \<Rightarrow> string \<Rightarrow> u64 \<Rightarrow> u64 \<Rightarrow> loop_state \<Rightarrow> loop_state \<times> backfill_outcome option" where
  "backfill_round env host baseURL latestSlotInDB minSlot st =
     (let k = ls_requests st;
          sent = st\<lparr>ls_requests := k + 1\<rparr>
      in case SendHTTPRequest (bf_http env k) ''GET'' (backfill_url baseURL (ls_cursorSlot st)) None (Some []) of
        Panicked \<Rightarrow> (sent, Some RequestPanic)
      | Returned (code, Some e, dst) \<Rightarrow> (sent, Some (RequestFailed e))
      | Returned (code, None, dst) \<Rightarrow>
          (let page = (case dst of Some d \<Rightarrow> d | None \<Rightarrow> []);
               entries = map (BidTraceV2JSONToPayloadDeliveredEntry host) page;
               pg = process_page page (ls_cursorSlot st) (ls_slotsReceived st) (ls_builders st)
           in case SaveDataAPIPayloadDeliveredBatch (bf_save_fault env k) (bf_now env k) entries (ls_db st) of
                (db', n, Some e) \<Rightarrow> (sent\<lparr>ls_db := db'\<rparr>, Some (SaveFatal e))
              | (db', n, None) \<Rightarrow>
                  (let st' = sent\<lparr>ls_db := save_builders (bf_builder_fault env k) (bf_now env k) (bf_map_order env k (pg_builders pg)) db',
                         ls_cursorSlot := pg_cursorSlot pg, ls_slotsReceived := pg_slotsReceived pg, ls_builders := pg_builders pg\<rparr>
                   in (st', if pg_payloadsNew pg = 0 then Some NoNewPayloads
                            else if pg_cursorSlot pg < latestSlotInDB then Some ReachedLatestInDB
                            else if pg_cursorSlot pg < minSlot then Some ReachedMinSlot
                            else None))))"

lemma backfill_round_grows:
  assumes "backfill_round env host baseURL latest minSlot st = (st', None)"
  shows "card (ls_slotsReceived st) < card (ls_slotsReceived st')"
proof -
  obtain page where "ls_slotsReceived st' = pg_slotsReceived (process_page page (ls_cursorSlot st) (ls_slotsReceived st) (ls_builders st))"
      "pg_payloadsNew (process_page page (ls_cursorSlot st) (ls_slotsReceived st) (ls_builders st)) \<noteq> 0"
    using assms by (auto simp: backfill_round_def Let_def split: go_call.splits prod.splits option.splits if_splits)
  then show ?thesis by (simp add: process_page_new)
qed

lemma card_received_bound: "card (S :: u64 set) \<le> 2 ^ 64"
  using card_mono [of "UNIV :: u64 set" S] by (simp add: card_word)

text \<open>Every turn but the last receives a slot that was not received before, so the loop ends.\<close>

function backfill_loop ::
    "backfill_env \<Rightarrow> string \<Rightarrow> string \<Rightarrow> u64 \<Rightarrow> u64 \<Rightarrow> loop_state \<Rightarrow> loop_state \<times> backfill_outcome" where
  "backfill_loop env host baseURL latestSlotInDB minSlot st =
     (case backfill_round env host baseURL latestSlotInDB minSlot st of
        (st', Some outcome) \<Rightarrow> (st', outcome)
      | (st', None) \<Rightarrow> backfill_loop env host baseURL latestSlotInDB minSlot st')"
  by pat_completeness auto
termination
proof (relation "measure (\<lambda>(_, _, _, _, _, st). 2 ^ 64 - card (ls_slotsReceived st))")
  fix env host baseURL latest minSlot and st st' :: loop_state and outcome
  assume "(st', outcome) = backfill_round env host baseURL latest minSlot st" and "outcome = None"
  then have "card (ls_slotsReceived st) < card (ls_slotsReceived st')" using backfill_round_grows by metis
  with card_received_bound [of "ls_slotsReceived st'"]
  show "((env, host, baseURL, latest, minSlot, st'), (env, host, baseURL, latest, minSlot, st)) \<in>
      measure (\<lambda>(_, _, _, _, _, st). 2 ^ 64 - card (ls_slotsReceived st))" by simp
qed simp

declare backfill_loop.simps [simp del]

definition backfillPayloadsDelivered :: "backfill_env \<Rightarrow> 'pk backfiller \<Rightarrow> DatabaseService \<Rightarrow> loop_state \<times> backfill_outcome" where
  "backfillPayloadsDelivered env bf db =
     (let host = RelayEntry_Hostname (bf_relay bf);
          st = \<lparr>ls_db = db, ls_cursorSlot = bf_cursorSlot bf, ls_slotsReceived = {}, ls_builders = [], ls_requests = 0\<rparr>
      in case GetDataAPILatestPayloadDelivered (bf_latest_fault env) (bf_plan env) db host of
           (latestEntry, err) \<Rightarrow>
             (if err \<noteq> None \<and> err \<noteq> Some ErrNoRows then (st, LatestFatal (the err))
              else backfill_loop env host
                (RelayEntry_GetURI (bf_relay bf) ''/relay/v1/data/bidtraces/proposer_payload_delivered'')
                (pd_Slot latestEntry) (bf_minSlot bf) st))"

text \<open>All relays, one after the other; a relay that fails is logged and skipped, but a fatal error ends the
  process.  The minimum slot is signed on the command line and unsigned in the backfiller.\<close>

definition is_fatal :: "backfill_outcome \<Rightarrow> bool" where
  "is_fatal r \<longleftrightarrow> (case r of SaveFatal _ \<Rightarrow> True | LatestFatal _ \<Rightarrow> True | RequestPanic \<Rightarrow> True | _ \<Rightarrow> False)"

fun backfill_relays ::
    "(nat \<Rightarrow> backfill_env) \<Rightarrow> nat \<Rightarrow> u64 \<Rightarrow> u64 \<Rightarrow> 'pk RelayEntry list \<Rightarrow> DatabaseService \<Rightarrow> DatabaseService \<times> bool" where
  "backfill_relays envs i cursor minSlot [] db = (db, True)"
| "backfill_relays envs i cursor minSlot (relay # relays) db =
     (case backfillPayloadsDelivered (envs i) (newBackfiller relay cursor minSlot) db of
        (st, outcome) \<Rightarrow>
          if is_fatal outcome then (ls_db st, False)
          else backfill_relays envs (i + 1) cursor minSlot relays (ls_db st))"

definition effective_min_slot :: "u64 \<Rightarrow> i64 \<Rightarrow> u64" where
  "effective_min_slot latestSlotOnBeaconChain minSlot =
     (if i64_less minSlot 0 then latestSlotOnBeaconChain + minSlot else minSlot)"

definition RunBackfill ::
    "(nat \<Rightarrow> backfill_env) \<Rightarrow> u64 \<Rightarrow> 'pk RelayEntry list \<Rightarrow> u64 \<Rightarrow> i64 \<Rightarrow> DatabaseService \<Rightarrow> DatabaseService \<times> bool" where
  "RunBackfill envs latestSlotOnBeaconChain relays initCursor minSlot db =
     backfill_relays envs 0 initCursor (effective_min_slot latestSlotOnBeaconChain minSlot) relays db"

section \<open>Termination and the number of requests\<close>

lemma backfill_round_requests:
  "ls_requests (fst (backfill_round env host url latest minSlot st)) = ls_requests st + 1"
  by (simp add: backfill_round_def Let_def split: go_call.splits prod.splits option.splits)

lemma backfill_round_mono:
  "backfill_round env host url latest minSlot st = (st', r) \<Longrightarrow> card (ls_slotsReceived st) \<le> card (ls_slotsReceived st')"
  by (auto simp: backfill_round_def Let_def process_page_new split: go_call.splits prod.splits option.splits)

lemma backfill_loop_requests:
  "ls_requests (fst (backfill_loop env host url latest minSlot st)) + card (ls_slotsReceived st) \<le>
   ls_requests st + card (ls_slotsReceived (fst (backfill_loop env host url latest minSlot st))) + 1"
proof (induction env host url latest minSlot st rule: backfill_loop.induct)
  case (1 env host url latest minSlot st)
  obtain st' r where round: "backfill_round env host url latest minSlot st = (st', r)" by fastforce
  have requests: "ls_requests st' = ls_requests st + 1"
    using backfill_round_requests [of env host url latest minSlot st] round by simp
  show ?case
  proof (cases r)
    case None
    have "card (ls_slotsReceived st) < card (ls_slotsReceived st')" using backfill_round_grows round None by simp
    with "1.IH" [OF round [symmetric] None] requests show ?thesis
      by (subst (1 2) backfill_loop.simps) (simp add: round None)
  next
    case (Some outcome)
    then show ?thesis using requests backfill_round_mono [OF round]
      by (subst (1 2) backfill_loop.simps) (simp add: round)
  qed
qed

text \<open>C8. The backfill of a relay ends, whatever the relay answers, after at most one request more than the
  number of different slots it received payloads for.\<close>

theorem backfill_terminates:
  "ls_requests (fst (backfillPayloadsDelivered env bf db)) \<le> card (ls_slotsReceived (fst (backfillPayloadsDelivered env bf db))) + 1"
  using backfill_loop_requests [of env "RelayEntry_Hostname (bf_relay bf)"
      "RelayEntry_GetURI (bf_relay bf) ''/relay/v1/data/bidtraces/proposer_payload_delivered''" _ "bf_minSlot bf"
      "\<lparr>ls_db = db, ls_cursorSlot = bf_cursorSlot bf, ls_slotsReceived = {}, ls_builders = [], ls_requests = 0\<rparr>"]
  by (simp add: backfillPayloadsDelivered_def Let_def split: prod.splits)

section \<open>What is saved\<close>

definition relay_slots :: "string \<Rightarrow> DatabaseService \<Rightarrow> u64 set" where
  "relay_slots host db = pd_Slot ` set (filter (\<lambda>r. pd_Relay r = host) (payloads db))"

lemma relay_slots_keys: "relay_slots host db = (fst \<circ> snd) ` (payload_key ` set (payloads db) \<inter> {k. fst k = host})"
  unfolding relay_slots_def by (force simp: payload_key_def)

lemma relay_slots_mono:
  "payload_key ` set (payloads db) \<subseteq> payload_key ` set (payloads db') \<Longrightarrow> relay_slots host db \<subseteq> relay_slots host db'"
  unfolding relay_slots_keys by blast

lemma payloads_SaveBuilder [simp]: "payloads (fst (SaveBuilder fault now b db)) = payloads db"
  by (simp add: SaveBuilder_def split: option.splits prod.splits)

lemma payloads_save_builders [simp]: "payloads (save_builders fault now bs db) = payloads db"
  unfolding save_builders_def by (induction bs arbitrary: db) simp_all

lemma entry_slot [simp]: "pd_Slot (BidTraceV2JSONToPayloadDeliveredEntry host p) = bv_Slot p"
  and entry_relay [simp]: "pd_Relay (BidTraceV2JSONToPayloadDeliveredEntry host p) = host"
  by (simp_all add: BidTraceV2JSONToPayloadDeliveredEntry_def Let_def split: prod.splits)

lemma saved_page_slots:
  assumes "SaveDataAPIPayloadDeliveredBatch fault now (map (BidTraceV2JSONToPayloadDeliveredEntry host) page) db = (db', n, None)"
  shows "bv_Slot ` set page \<subseteq> relay_slots host db'"
proof
  fix s assume "s \<in> bv_Slot ` set page"
  then obtain p where p: "p \<in> set page" "s = bv_Slot p" by blast
  let ?e = "BidTraceV2JSONToPayloadDeliveredEntry host p"
  have "payload_key ?e \<in> payload_key ` set (payloads db')"
    using SaveDataAPIPayloadDeliveredBatch_keys(2) [OF assms refl] p by auto
  moreover have "fst (payload_key ?e) = host" "(fst \<circ> snd) (payload_key ?e) = s" by (simp_all add: payload_key_def p)
  ultimately show "s \<in> relay_slots host db'" unfolding relay_slots_keys by force
qed

definition saved_all :: "string \<Rightarrow> loop_state \<Rightarrow> bool" where
  "saved_all host st \<longleftrightarrow> ls_slotsReceived st \<subseteq> relay_slots host (ls_db st)"

lemma backfill_round_saves:
  assumes "backfill_round env host url latest minSlot st = (st', r)" and "saved_all host st"
  shows "saved_all host st' \<and> relay_slots host (ls_db st) \<subseteq> relay_slots host (ls_db st')"
proof -
  let ?send = "SendHTTPRequest (bf_http env (ls_requests st)) ''GET'' (backfill_url url (ls_cursorSlot st)) None (Some [])"
  consider (none) "ls_slotsReceived st' = ls_slotsReceived st" "ls_db st' = ls_db st"
    | (page) page db' n err
      where "SaveDataAPIPayloadDeliveredBatch (bf_save_fault env (ls_requests st)) (bf_now env (ls_requests st))
            (map (BidTraceV2JSONToPayloadDeliveredEntry host) page) (ls_db st) = (db', n, err)"
        "payloads (ls_db st') = payloads db'"
        "ls_slotsReceived st' = (if err = None then ls_slotsReceived st \<union> bv_Slot ` set page else ls_slotsReceived st)"
  proof (cases ?send)
    case (Returned res)
    obtain code e dst where res: "res = (code, e, dst)" by (metis prod_cases3)
    define pg where "pg = (case dst of Some d \<Rightarrow> d | None \<Rightarrow> [])"
    obtain db' n err where save: "SaveDataAPIPayloadDeliveredBatch (bf_save_fault env (ls_requests st)) (bf_now env (ls_requests st))
            (map (BidTraceV2JSONToPayloadDeliveredEntry host) pg) (ls_db st) = (db', n, err)" by (metis prod_cases3)
    show ?thesis
    proof (cases e)
      case (Some a)
      then show ?thesis using none assms(1) Returned res by (auto simp: backfill_round_def Let_def)
    next
      case None
      with assms(1) Returned res save show ?thesis
        by (intro page [of pg db' n err])
          (auto simp: backfill_round_def Let_def pg_def process_page_received split: option.splits)
    qed
  qed (use none assms(1) in \<open>auto simp: backfill_round_def Let_def\<close>)
  then show ?thesis
  proof cases
    case page
    have eq: "relay_slots host (ls_db st') = relay_slots host db'" by (simp add: relay_slots_def page(2))
    have "relay_slots host (ls_db st) \<subseteq> relay_slots host (ls_db st')"
      unfolding eq by (rule relay_slots_mono [OF SaveDataAPIPayloadDeliveredBatch_keys(1) [OF page(1)]])
    moreover have "err = None \<Longrightarrow> bv_Slot ` set page \<subseteq> relay_slots host (ls_db st')"
      unfolding eq using saved_page_slots page(1) by blast
    ultimately show ?thesis using assms(2) page(3) by (auto simp: saved_all_def)
  qed (use assms(2) in \<open>simp_all add: saved_all_def relay_slots_def\<close>)
qed

lemma backfill_loop_saves:
  "saved_all host st \<Longrightarrow>
   saved_all host (fst (backfill_loop env host url latest minSlot st)) \<and>
   relay_slots host (ls_db st) \<subseteq> relay_slots host (ls_db (fst (backfill_loop env host url latest minSlot st)))"
proof (induction env host url latest minSlot st rule: backfill_loop.induct)
  case (1 env host url latest minSlot st)
  obtain st' r where round: "backfill_round env host url latest minSlot st = (st', r)" by fastforce
  note saves = backfill_round_saves [OF round "1.prems"]
  show ?case
  proof (cases r)
    case None
    with "1.IH" [OF round [symmetric] None] saves show ?thesis
      by (subst (1 2) backfill_loop.simps) (auto simp: round)
  next
    case (Some outcome)
    with saves show ?thesis by (subst (1 2) backfill_loop.simps) (simp add: round)
  qed
qed


section \<open>The stop rules\<close>

lemma latest_payload_max:
  assumes "row_order plan" and "s \<in> relay_slots host db"
  shows "\<exists>r. GetDataAPILatestPayloadDelivered None plan db host = (r, None) \<and> s \<le> pd_Slot r"
proof -
  define rows where "rows = order_desc plan pd_Slot (filter (\<lambda>r. pd_Relay r = host) (payloads db))"
  have sorted: "sorted_wrt (\<lambda>a b. pd_Slot b \<le> pd_Slot a) rows" unfolding rows_def by (rule order_desc_sorted)
  have "s \<in> pd_Slot ` set rows"
    using assms(2) unfolding rows_def set_order_desc [OF assms(1)] relay_slots_def .
  then obtain q where q: "q \<in> set rows" "s = pd_Slot q" by blast
  then obtain r rest where rows: "rows = r # rest" by (cases rows) auto
  with sorted q have "s \<le> pd_Slot r" by auto
  then show ?thesis
    by (simp add: GetDataAPILatestPayloadDelivered_def sql_Get_def rows_def [symmetric] rows)
qed

text \<open>When the table already has a payload of the relay that is newer than the oldest one of the first
  page, the backfill stops after that page: slots below it that an earlier, interrupted backfill left out
  are not requested again.\<close>

theorem backfill_stops_at_newer_payload:
  assumes "row_order (bf_plan env)" "bf_latest_fault env = None" "s \<in> relay_slots (RelayEntry_Hostname (bf_relay bf)) db"
    and "SendHTTPRequest (bf_http env 0) ''GET'' (backfill_url (RelayEntry_GetURI (bf_relay bf)
           ''/relay/v1/data/bidtraces/proposer_payload_delivered'') 0) None (Some []) = Returned (200, None, Some page)"
    and "bf_cursorSlot bf = 0" "page \<noteq> []" "\<forall>p \<in> set page. bv_Slot p \<noteq> 0" "Min (bv_Slot ` set page) < s"
  shows "ls_requests (fst (backfillPayloadsDelivered env bf db)) = 1"
proof -
  let ?host = "RelayEntry_Hostname (bf_relay bf)"
  let ?url = "RelayEntry_GetURI (bf_relay bf) ''/relay/v1/data/bidtraces/proposer_payload_delivered''"
  let ?st = "\<lparr>ls_db = db, ls_cursorSlot = 0, ls_slotsReceived = {}, ls_builders = [], ls_requests = 0\<rparr>"
  obtain r where r: "GetDataAPILatestPayloadDelivered None (bf_plan env) db ?host = (r, None)" "s \<le> pd_Slot r"
    using latest_payload_max [OF assms(1,3)] by blast
  have cursor: "pg_cursorSlot (process_page page 0 {} []) < pd_Slot r"
    using process_page_cursor [OF assms(7)] assms(6,8) r(2) by simp
  have "snd (backfill_round env ?host ?url (pd_Slot r) (bf_minSlot bf) ?st) \<noteq> None"
    using assms(4) cursor by (simp add: backfill_round_def Let_def split: prod.splits option.splits)
  then obtain st' outcome where "backfill_round env ?host ?url (pd_Slot r) (bf_minSlot bf) ?st = (st', Some outcome)"
    by (metis not_None_eq prod.collapse)
  moreover from this have "ls_requests st' = 1"
    using backfill_round_requests [of env ?host ?url "pd_Slot r" "bf_minSlot bf" ?st] by simp
  ultimately have "ls_requests (fst (backfill_loop env ?host ?url (pd_Slot r) (bf_minSlot bf) ?st)) = 1"
    by (subst backfill_loop.simps) simp
  then show ?thesis using assms(2,5) r(1) by (simp add: backfillPayloadsDelivered_def Let_def)
qed

definition example_trace :: "u64 \<Rightarrow> BidTraceV2" where
  "example_trace s = \<lparr>bv_Slot = s, bv_ParentHash = ''0x01'', bv_BlockHash = ''0x02'', bv_BuilderPubkey = ''0x03'',
     bv_ProposerPubkey = ''0x04'', bv_ProposerFeeRecipient = ''0x05'', bv_GasLimit = 0, bv_GasUsed = 0,
     bv_Value = ''1000'', bv_NumTx = 0, bv_BlockNumber = 0\<rparr>"

definition example_env :: "BidTraceV2 list \<Rightarrow> backfill_env" where
  "example_env page = \<lparr>bf_http = (\<lambda>_. \<lparr>json_Marshal = (\<lambda>_. Inr []), invalid_request = (\<lambda>_ _. None),
       client_Do = (\<lambda>_. Inr \<lparr>StatusCode = 200, Body = Inr []\<rparr>), json_Unmarshal = (\<lambda>_ _. (page, None))\<rparr>),
     bf_now = (\<lambda>_. GoTime 0 0), bf_save_fault = (\<lambda>_ _. None), bf_builder_fault = (\<lambda>_ _. None),
     bf_map_order = (\<lambda>_ bs. bs), bf_latest_fault = None, bf_plan = (\<lambda>rows. rows)\<rparr>"

definition example_relay :: "unit RelayEntry" where
  "example_relay = \<lparr>PublicKey = None, RelayURL = empty_URL\<lparr>Host := ''a''\<rparr>\<rparr>"


theorem backfill_stops_at_newer_payload_witness:
  "ls_requests (fst (backfillPayloadsDelivered (example_env [example_trace 9, example_trace 7]) (newBackfiller example_relay 0 0)
     (empty_db\<lparr>payloads := [example_payload ''a'' 8]\<rparr>))) = 1"
proof -
  have "RelayEntry_Hostname example_relay = ''a''" by code_simp
  then show ?thesis
    by (intro backfill_stops_at_newer_payload [of _ 8 _ _ "[example_trace 9, example_trace 7]"])
      (simp_all add: example_env_def row_order_def newBackfiller_def relay_slots_def example_payload_def example_trace_def
        SendHTTPRequest_def execute_request_def handle_response_def)
qed

text \<open>A negative minimum slot that reaches back beyond slot 0 wraps to a slot number above all others: a
  relay is left after its first page instead of being filled completely.\<close>

theorem negative_min_slot_wraps:
  assumes "uint latest < 2 ^ 62" "sint minSlot < 0" "uint latest + sint minSlot < 0" "- (2 ^ 62) \<le> sint minSlot"
    and "backfill_round env host url latestInDB (effective_min_slot latest minSlot) st = (st', r)" "ls_cursorSlot st' < 2 ^ 63"
  shows "2 ^ 63 \<le> effective_min_slot latest minSlot \<and> r \<noteq> None"
proof -
  have eff: "effective_min_slot latest minSlot = latest + minSlot"
    using assms(2) by (simp add: effective_min_slot_def i64_less_def)
  have "sint latest = uint latest" using assms(1) by (intro sint_eq_uint_small) simp
  moreover have "0 + - (2 ^ 62) \<le> uint latest + sint minSlot" by (rule add_mono [OF uint_ge_0 assms(4)])
  then have "- (2 ^ 63) \<le> uint latest + sint minSlot" by (rule order_trans [rotated]) simp
  ultimately have sum: "sint (latest + minSlot) = uint latest + sint minSlot"
    using assms(3) by (subst sint_i64_add) simp_all
  have big: "2 ^ 63 \<le> latest + minSlot"
  proof (rule ccontr)
    assume "\<not> 2 ^ 63 \<le> latest + minSlot"
    then have "uint (latest + minSlot) < 2 ^ 63" by (simp add: not_le word_less_def)
    then have "sint (latest + minSlot) = uint (latest + minSlot)" by (intro sint_eq_uint_small) simp
    with sum assms(3) uint_ge_0 [of "latest + minSlot"] show False by linarith
  qed
  with assms(6) have "ls_cursorSlot st' < effective_min_slot latest minSlot" unfolding eff by (rule less_le_trans)
  with assms(5) have "r \<noteq> None"
    by (auto simp: backfill_round_def Let_def split: go_call.splits prod.splits option.splits if_splits)
  with big eff show ?thesis by simp
qed

theorem negative_min_slot_wraps_witness:
  "2 ^ 63 \<le> effective_min_slot 100 (- 200)"
proof -
  let ?st = "\<lparr>ls_db = empty_db, ls_cursorSlot = 0, ls_slotsReceived = {}, ls_builders = [], ls_requests = 0\<rparr>"
  obtain st' r where round: "backfill_round (example_env []) [] [] 0 (effective_min_slot 100 (- 200)) ?st = (st', r)" by fastforce
  then have "ls_cursorSlot st' < 2 ^ 63"
    by (auto simp: backfill_round_def example_env_def SendHTTPRequest_def execute_request_def handle_response_def
        process_page_def SaveDataAPIPayloadDeliveredBatch_def Let_def)
  moreover have "sint (- 200 :: i64) = - 200" by code_simp
  ultimately show ?thesis using negative_min_slot_wraps [OF _ _ _ _ round] by simp
qed

end
