(* ===== verification/CheckPayload.thy ===== *)
theory CheckPayload
  imports Database
begin

text \<open>
  \<open>cmd/core/check-payload-value.go\<close>: delivered payloads are compared with the chain and the result of the
  comparison is written back.  The Ethereum clients are parameters.  The worker's handling of one entry
  reads only the chain, so workers interleave as the order in which entries are saved.
\<close>

section \<open>The chain\<close>

text \<open>Addresses are the strings that \<open>Hex()\<close> returns, with the mixed case of its checksum; a hash is the
  value \<open>HexToHash\<close> reads off a string.  The sender of a transaction is what \<open>types.Sender\<close> recovers.\<close>

record transaction =
  tx_To :: "string option"
  tx_From :: string
  tx_Value :: int
  tx_ChainId :: u64
  tx_Type :: nat
  tx_BlobHashes :: nat

definition BlobTxType :: nat where "BlobTxType = 3"

record eth_block =
  blk_Number :: int
  blk_Coinbase :: string
  blk_Transactions :: "transaction list"
  blk_Extra :: "byte list"
  blk_Time :: u64

record 'h chain_client =
  cc_BlockByHash :: "'h \<Rightarrow> string + eth_block option"
  cc_HeaderByNumber :: "int \<Rightarrow> string + 'h option"
  cc_BalanceAt :: "string \<Rightarrow> int \<Rightarrow> string + int"

record 'h chain =
  ch_client :: "'h chain_client"
  ch_client2 :: "'h chain_client"
  ch_HexToHash :: "string \<Rightarrow> 'h"

definition getBalanceDiff_client :: "'h chain_client \<Rightarrow> string \<Rightarrow> int \<Rightarrow> string + int" where
  "getBalanceDiff_client c address blockNumber =
     (case cc_BalanceAt c address (blockNumber - 1) of
        Inl e \<Rightarrow> Inl ''couldn't get balance''
      | Inr balanceBefore \<Rightarrow>
          (case cc_BalanceAt c address blockNumber of
             Inl e \<Rightarrow> Inl ''couldn't get balance''
           | Inr balanceAfter \<Rightarrow> Inr (balanceAfter - balanceBefore)))"

definition getBalanceDiff :: "'h chain \<Rightarrow> string \<Rightarrow> int \<Rightarrow> string + int" where
  "getBalanceDiff ch address blockNumber =
     (case getBalanceDiff_client (ch_client ch) address blockNumber of
        Inl _ \<Rightarrow> getBalanceDiff_client (ch_client2 ch) address blockNumber
      | Inr d \<Rightarrow> Inr d)"

definition getBlockByHash :: "'h chain \<Rightarrow> string \<Rightarrow> string + eth_block option" where
  "getBlockByHash ch blockHashHex =
     (let blockHash = ch_HexToHash ch blockHashHex in
      case cc_BlockByHash (ch_client ch) blockHash of
        Inr (Some b) \<Rightarrow> Inr (Some b)
      | _ \<Rightarrow> cc_BlockByHash (ch_client2 ch) blockHash)"

definition getHeaderByNumber :: "'h chain \<Rightarrow> int \<Rightarrow> string + 'h option" where
  "getHeaderByNumber ch blockNumber =
     (case cc_HeaderByNumber (ch_client ch) blockNumber of
        Inr (Some h) \<Rightarrow> Inr (Some h)
      | _ \<Rightarrow> cc_HeaderByNumber (ch_client2 ch) blockNumber)"

section \<open>Known addresses of builders\<close>

definition BuilderAddresses :: "(string \<times> string list) list" where
  "BuilderAddresses =
     [(''0xdadb0d80178819f2319190d340ce9a924f783711'',
        [''0x59cadf9199248b50d40a6891c9e329ea13a88d31'',
         ''0x75cc09358f100583d66f5277138bfb476345dc1b'',
         ''0x397b28d85d77fef1576e129bb35b322c2bee1ba1'']),
      (''0x4838b106fce9647bdf1e7877bf73ce8b0bad5f97'',
        [''0x9fc3da866e7df3a1c57ade1a97c9f00a70f010c8'',
         ''0xb29b9fd58cdb2e3bb068bc8560d8c13b2454684d'']),
      (''0x1f9090aae28b8a3dceadf281b0f12828e676c326'',
        [''0x0affb0a96fbefaa97dce488dfd97512346cf3ab8'']),
      (''0x95222290dd7278aa3ddd389cc1e1d165cc4bafe5'',
        [''0xa83114a443da1cecefc50368531cace9f37fcccb'',
         ''0x28c74c0f29b686f21ea731bd2a8b88b6954475ba''])]"

section \<open>Checking one entry\<close>

datatype check_result =
    SaveEntry DataAPIPayloadDeliveredEntry
  | SkipEntry
  | CheckFatal string
  | CheckPanic

text \<open>The adjustment of \<open>--check-tx\<close>: \<open>None\<close> is the nil dereference on a transaction without recipient.\<close>

fun check_transfers :: "string \<Rightarrow> transaction list \<Rightarrow> int \<Rightarrow> int option" where
  "check_transfers recipient [] diff = Some diff"
| "check_transfers recipient (tx # txs) diff =
     (if tx_ChainId tx = 0 then check_transfers recipient txs diff
      else if tx_From tx = recipient then check_transfers recipient txs (diff + tx_Value tx)
      else case tx_To tx of
        None \<Rightarrow> None
      | Some _ \<Rightarrow> check_transfers recipient txs diff)"

text \<open>The difference from the claim and the method that found it; \<open>None\<close> is the nil dereference when the
  last transaction creates a contract.\<close>

definition payment_diff :: "string \<Rightarrow> int \<Rightarrow> int \<Rightarrow> transaction list \<Rightarrow> (int \<times> string) option" where
  "payment_diff recipient claimed balanceDiff txs =
     (let diff = claimed - balanceDiff in
      if diff = 0 then Some (diff, ''balanceDiff'')
      else if txs = [] then Some (diff, ''balanceDiff+txValue'')
      else case tx_To (last txs) of
        None \<Rightarrow> None
      | Some to \<Rightarrow> Some (if to = recipient then claimed - tx_Value (last txs) else diff, ''balanceDiff+txValue''))"

definition builder_diff :: "string \<Rightarrow> int \<Rightarrow> transaction list \<Rightarrow> int" where
  "builder_diff coinbase balanceDiff txs =
     (let owned = map_of BuilderAddresses (strings_ToLower coinbase)
      in fold (\<lambda>tx d.
           if tx_ChainId tx = 0 then d
           else let fromCoinbase = (tx_From tx = coinbase);
                    toOwned = (case (owned, tx_To tx) of (Some as, Some to) \<Rightarrow> strings_ToLower to \<in> set as | _ \<Rightarrow> False)
                in if fromCoinbase \<and> toOwned then d + tx_Value tx else d) txs balanceDiff)"

definition blob_txs :: "transaction list \<Rightarrow> transaction list" where
  "blob_txs txs = filter (\<lambda>tx. tx_Type tx = BlobTxType) txs"

text \<open>The columns of a payload whose block is on chain, and the payment check and builder columns after it.\<close>

definition found_columns :: "eth_block \<Rightarrow> DataAPIPayloadDeliveredEntry \<Rightarrow> DataAPIPayloadDeliveredEntry" where
  "found_columns block entry = entry
     \<lparr>pd_FoundOnChain := NewNullBool True,
      pd_BlockNumber := (case pd_BlockNumber entry of None \<Rightarrow> NewNullInt64 (word_of_int (blk_Number block)) | Some n \<Rightarrow> Some n),
      pd_BlockCoinbaseAddress := NewNullString (blk_Coinbase block),
      pd_BlockCoinbaseIsProposer := NewNullBool (strings_EqualFold (blk_Coinbase block) (pd_ProposerFeeRecipient entry))\<rparr>"

definition value_columns ::
    "eth_block \<Rightarrow> int \<Rightarrow> int \<Rightarrow> string \<Rightarrow> DataAPIPayloadDeliveredEntry \<Rightarrow> DataAPIPayloadDeliveredEntry" where
  "value_columns block balanceDiff diff checkMethod entry =
     (let blobTxs = blob_txs (blk_Transactions block) in entry
        \<lparr>pd_NumBlobTxs := NewNullInt64 (of_nat (length blobTxs)),
         pd_NumBlobs := NewNullInt64 (of_nat (sum_list (map tx_BlobHashes blobTxs))),
         pd_ExtraData := fst (ExtraDataToUtf8Str (blk_Extra block)),
         pd_ValueCheckOk := NewNullBool (diff = 0),
         pd_ValueCheckMethod := NewNullString checkMethod,
         pd_ValueDeliveredWei := NewNullString (int_str balanceDiff),
         pd_ValueDeliveredEth := NewNullString (bf_String (WeiToEth balanceDiff)),
         pd_ValueDeliveredDiffWei := NewNullString (int_str diff),
         pd_ValueDeliveredDiffEth := NewNullString (bf_String (WeiToEth diff)),
         pd_BlockTimestamp := NewNullTime (time_Unix (blk_Time block) 0)\<rparr>)"

definition coinbase_columns :: "int \<Rightarrow> DataAPIPayloadDeliveredEntry \<Rightarrow> DataAPIPayloadDeliveredEntry" where
  "coinbase_columns d entry = entry
     \<lparr>pd_CoinbaseDiffWei := NewNullString (int_str d), pd_CoinbaseDiffEth := NewNullString (bf_String (WeiToEth d))\<rparr>"

definition check_payment :: "'h chain \<Rightarrow> bool \<Rightarrow> int \<Rightarrow> eth_block \<Rightarrow> DataAPIPayloadDeliveredEntry \<Rightarrow> check_result" where
  "check_payment ch checkTx claimed block entry =
     (let txs = blk_Transactions block; recipient = pd_ProposerFeeRecipient entry in
      case getBalanceDiff ch recipient (blk_Number block) of
        Inl err \<Rightarrow> CheckFatal ''couldn't get balance diff''
      | Inr balanceDiff \<Rightarrow>
      case payment_diff recipient claimed balanceDiff txs of
        None \<Rightarrow> CheckPanic
      | Some (diff0, checkMethod) \<Rightarrow>
      case (if checkTx then check_transfers recipient txs diff0 else Some diff0) of
        None \<Rightarrow> CheckPanic
      | Some diff \<Rightarrow>
         (let entry = value_columns block balanceDiff diff checkMethod entry in
          if strings_EqualFold (blk_Coinbase block) recipient then SaveEntry entry
          else case getBalanceDiff ch (blk_Coinbase block) (blk_Number block) of
            Inl err \<Rightarrow> CheckFatal ''couldn't get balance diff''
          | Inr b \<Rightarrow> SaveEntry (coinbase_columns (builder_diff (blk_Coinbase block) b txs) entry)))"

definition check_entry :: "'h chain \<Rightarrow> bool \<Rightarrow> DataAPIPayloadDeliveredEntry \<Rightarrow> check_result" where
  "check_entry ch checkTx entry =
    (case big_SetString (pd_ValueClaimedWei entry) of (claimed, ok) \<Rightarrow>
      if \<not> ok then CheckFatal ''couldn't convert claimed value to big.Int''
      else case getBlockByHash ch (pd_BlockHash entry) of
        Inl err \<Rightarrow>
          if err = ''not found'' then SaveEntry (entry\<lparr>pd_FoundOnChain := NewNullBool False\<rparr>)
          else CheckFatal ''error querying block by hash''
      | Inr None \<Rightarrow> CheckPanic
      | Inr (Some block) \<Rightarrow>
         (let entry = found_columns block entry in
          case getHeaderByNumber ch (blk_Number block) of
            Inl err \<Rightarrow> CheckFatal ''couldn't get block by number''
          | Inr None \<Rightarrow> SkipEntry
          | Inr (Some hash) \<Rightarrow>
              if hash \<noteq> ch_HexToHash ch (pd_BlockHash entry) then SaveEntry (entry\<lparr>pd_SlotWasMissed := NewNullBool True\<rparr>)
              else check_payment ch checkTx claimed block entry))"

section \<open>Saving\<close>

text \<open>The update names the slot, not the entry: it writes every row of the slot, of all relays.\<close>

definition update_checked :: "DataAPIPayloadDeliveredEntry \<Rightarrow> DataAPIPayloadDeliveredEntry \<Rightarrow> DataAPIPayloadDeliveredEntry" where
  "update_checked e r = r
     \<lparr>pd_BlockNumber := pd_BlockNumber e, pd_ExtraData := pd_ExtraData e, pd_SlotWasMissed := pd_SlotWasMissed e,
      pd_ValueCheckOk := pd_ValueCheckOk e, pd_ValueCheckMethod := pd_ValueCheckMethod e,
      pd_ValueDeliveredWei := pd_ValueDeliveredWei e, pd_ValueDeliveredEth := pd_ValueDeliveredEth e,
      pd_ValueDeliveredDiffWei := pd_ValueDeliveredDiffWei e, pd_ValueDeliveredDiffEth := pd_ValueDeliveredDiffEth e,
      pd_BlockCoinbaseAddress := pd_BlockCoinbaseAddress e, pd_BlockCoinbaseIsProposer := pd_BlockCoinbaseIsProposer e,
      pd_CoinbaseDiffWei := pd_CoinbaseDiffWei e, pd_CoinbaseDiffEth := pd_CoinbaseDiffEth e,
      pd_FoundOnChain := pd_FoundOnChain e, pd_NumBlobTxs := pd_NumBlobTxs e, pd_NumBlobs := pd_NumBlobs e,
      pd_BlockTimestamp := pd_BlockTimestamp e\<rparr>"

definition saveEntry :: "DataAPIPayloadDeliveredEntry \<Rightarrow> DatabaseService \<Rightarrow> DatabaseService" where
  "saveEntry e db = db\<lparr>payloads := map (\<lambda>r. if pd_Slot r = pd_Slot e then update_checked e r else r) (payloads db)\<rparr>"

section \<open>A run\<close>

record CheckPayloadValueOpts =
  cp_Limit :: u64
  cp_Slot :: u64
  cp_SlotMax :: u64
  cp_SlotMin :: u64
  cp_NumThreads :: u64
  cp_CheckIncorrectOnly :: bool
  cp_CheckMissedOnly :: bool
  cp_CheckTx :: bool
  cp_CheckAll :: bool

definition sql_limit :: "u64 \<Rightarrow> 'r list \<Rightarrow> 'r list" where
  "sql_limit n rows = (if n > 0 then take (unat n) rows else rows)"

definition select_entries ::
    "CheckPayloadValueOpts \<Rightarrow> (DataAPIPayloadDeliveredEntry list \<Rightarrow> DataAPIPayloadDeliveredEntry list) \<Rightarrow> DatabaseService \<Rightarrow>
     DataAPIPayloadDeliveredEntry list" where
  "select_entries opts plan db = map claim_columns
     (if cp_CheckIncorrectOnly opts then
        sql_limit (cp_Limit opts) (order_desc plan pd_Slot (filter (\<lambda>r. pd_ValueCheckOk r = Some False) (payloads db)))
      else if cp_CheckMissedOnly opts then
        sql_limit (cp_Limit opts) (order_desc plan pd_Slot (filter (\<lambda>r. pd_SlotWasMissed r = Some True) (payloads db)))
      else if cp_CheckAll opts then
        sql_limit (cp_Limit opts) (order_desc plan pd_Slot
          (filter (\<lambda>r. cp_SlotMax opts = 0 \<or> pd_Slot r \<le> cp_SlotMax opts) (payloads db)))
      else if cp_Slot opts \<noteq> 0 then plan (filter (\<lambda>r. pd_Slot r = cp_Slot opts) (payloads db))
      else take (unat (cp_Limit opts)) (order_desc plan pd_Slot (filter (\<lambda>r. pd_ValueCheckOk r = None) (payloads db))))"

text \<open>The entries in the order in which they are saved; the first fatal error or panic ends the process.\<close>

datatype run_outcome = RunDone | RunBlocked | RunQueryFailed sql_error | RunFatal string | RunPanic

fun save_all :: "'h chain \<Rightarrow> bool \<Rightarrow> DataAPIPayloadDeliveredEntry list \<Rightarrow> DatabaseService \<Rightarrow> DatabaseService \<times> run_outcome" where
  "save_all ch checkTx [] db = (db, RunDone)"
| "save_all ch checkTx (entry # entries) db =
     (case check_entry ch checkTx entry of
        SaveEntry e \<Rightarrow> save_all ch checkTx entries (saveEntry e db)
      | SkipEntry \<Rightarrow> save_all ch checkTx entries db
      | CheckFatal m \<Rightarrow> (db, RunFatal m)
      | CheckPanic \<Rightarrow> (db, RunPanic))"

definition todo_entries :: "CheckPayloadValueOpts \<Rightarrow> DataAPIPayloadDeliveredEntry list \<Rightarrow> DataAPIPayloadDeliveredEntry list" where
  "todo_entries opts entries = filter (\<lambda>e. \<not> (cp_SlotMin opts \<noteq> 0 \<and> pd_Slot e < cp_SlotMin opts)) entries"

text \<open>\<open>sched\<close> is the order the workers save in.  Without a worker the first send on the channel blocks for
  ever.  The flag for transfers is the command's global variable, not the option of the same name.\<close>

definition RunCheckPayloadValue ::
    "sql_error option \<Rightarrow> (DataAPIPayloadDeliveredEntry list \<Rightarrow> DataAPIPayloadDeliveredEntry list) \<Rightarrow>
     (DataAPIPayloadDeliveredEntry list \<Rightarrow> DataAPIPayloadDeliveredEntry list) \<Rightarrow> 'h chain \<Rightarrow> bool \<Rightarrow>
     CheckPayloadValueOpts \<Rightarrow> DatabaseService \<Rightarrow> DatabaseService \<times> run_outcome" where
  "RunCheckPayloadValue fault plan sched ch checkTx opts db =
     (case fault of
        Some e \<Rightarrow> (db, RunQueryFailed e)
      | None \<Rightarrow>
         (let entries = select_entries opts plan db;
              threads = (if cp_Slot opts \<noteq> 0 then 1 else cp_NumThreads opts);
              todo = todo_entries opts entries
          in if entries = [] then (db, RunDone)
             else if \<not> i64_less 0 threads \<and> todo \<noteq> [] then (db, RunBlocked)
             else save_all ch checkTx (sched todo) db))"

section \<open>What a check says\<close>

lemma check_columns_simps [simp]:
  "pd_Slot (found_columns block e) = pd_Slot e" "pd_ValueCheckOk (found_columns block e) = pd_ValueCheckOk e"
  "pd_ProposerFeeRecipient (found_columns block e) = pd_ProposerFeeRecipient e"
  "pd_FoundOnChain (found_columns block e) = Some True" "pd_BlockHash (found_columns block e) = pd_BlockHash e"
  "pd_Slot (value_columns block b d m e) = pd_Slot e" "pd_ValueCheckOk (value_columns block b d m e) = Some (d = 0)"
  "pd_FoundOnChain (value_columns block b d m e) = pd_FoundOnChain e"
  "pd_ValueDeliveredWei (value_columns block b d m e) = Some (int_str b)"
  "pd_ValueDeliveredDiffWei (value_columns block b d m e) = Some (int_str d)"
  "pd_Slot (coinbase_columns d e) = pd_Slot e" "pd_ValueCheckOk (coinbase_columns d e) = pd_ValueCheckOk e"
  "pd_FoundOnChain (coinbase_columns d e) = pd_FoundOnChain e"
  "pd_ValueDeliveredWei (coinbase_columns d e) = pd_ValueDeliveredWei e"
  "pd_ValueDeliveredDiffWei (coinbase_columns d e) = pd_ValueDeliveredDiffWei e"
  by (simp_all add: found_columns_def value_columns_def coinbase_columns_def null_defs Let_def)

definition paid_last :: "string \<Rightarrow> int \<Rightarrow> transaction list \<Rightarrow> bool" where
  "paid_last recipient claimed txs \<longleftrightarrow> txs \<noteq> [] \<and> tx_To (last txs) = Some recipient \<and> tx_Value (last txs) = claimed"

lemma payment_diff_zero:
  "payment_diff recipient claimed b txs = Some (d, m) \<Longrightarrow> d = 0 \<longleftrightarrow> claimed = b \<or> paid_last recipient claimed txs"
  by (auto simp: payment_diff_def paid_last_def Let_def split: if_splits option.splits)

lemma check_payment_saves:
  assumes "check_payment ch False claimed block entry = SaveEntry e"
  shows "\<exists>b d m. getBalanceDiff ch (pd_ProposerFeeRecipient entry) (blk_Number block) = Inr b \<and>
    payment_diff (pd_ProposerFeeRecipient entry) claimed b (blk_Transactions block) = Some (d, m) \<and>
    pd_ValueCheckOk e = Some (d = 0) \<and> pd_FoundOnChain e = pd_FoundOnChain entry \<and>
    pd_ValueDeliveredWei e = Some (int_str b) \<and> pd_ValueDeliveredDiffWei e = Some (int_str d)"
  using assms by (auto simp: check_payment_def Let_def split: sum.splits option.splits prod.splits if_splits)

text \<open>C11. Without the transfer adjustment, an entry comes out as checked only when its block was found and is
  the block of that number on chain, and it is marked correct exactly when the fee recipient's balance
  grew by the claimed value or the last transaction of the block pays that value to the recipient as
  spelled in the entry; the delivered value it records is the growth of the balance.\<close>

theorem check_entry_value_ok:
  assumes "check_entry ch False entry = SaveEntry e" "pd_ValueCheckOk entry = None" "pd_ValueCheckOk e = Some ok"
  defines "claimed \<equiv> StrToBigInt (pd_ValueClaimedWei entry)"
  shows "\<exists>block b. getBlockByHash ch (pd_BlockHash entry) = Inr (Some block) \<and>
    getHeaderByNumber ch (blk_Number block) = Inr (Some (ch_HexToHash ch (pd_BlockHash entry))) \<and>
    getBalanceDiff ch (pd_ProposerFeeRecipient entry) (blk_Number block) = Inr b \<and>
    (ok \<longleftrightarrow> claimed = b \<or> paid_last (pd_ProposerFeeRecipient entry) claimed (blk_Transactions block)) \<and>
    pd_FoundOnChain e = Some True \<and> pd_ValueDeliveredWei e = Some (int_str b)"
proof -
  obtain c valid where c: "big_SetString (pd_ValueClaimedWei entry) = (c, valid)" by fastforce
  then have claimed: "claimed = c" by (simp add: claimed_def StrToBigInt_def)
  obtain block where block: "getBlockByHash ch (pd_BlockHash entry) = Inr (Some block)"
    and header: "getHeaderByNumber ch (blk_Number block) = Inr (Some (ch_HexToHash ch (pd_BlockHash entry)))"
    and pay: "check_payment ch False c block (found_columns block entry) = SaveEntry e"
    using assms(1,2,3) c
    by (auto simp: check_entry_def Let_def split: if_splits sum.splits option.splits)
  from check_payment_saves [OF pay] payment_diff_zero show ?thesis
    using block header assms(3) by (force simp: claimed)
qed

definition example_block :: eth_block where
  "example_block = \<lparr>blk_Number = 7, blk_Coinbase = ''0xCb'', blk_Transactions =
     [\<lparr>tx_To = Some ''0xaB'', tx_From = ''0xCb'', tx_Value = 1000, tx_ChainId = 1, tx_Type = 2, tx_BlobHashes = 0\<rparr>],
     blk_Extra = [], blk_Time = 0\<rparr>"

definition example_client :: "string chain_client" where
  "example_client = \<lparr>cc_BlockByHash = (\<lambda>h. if h = ''0xab'' then Inr (Some example_block) else Inl ''not found''),
     cc_HeaderByNumber = (\<lambda>_. Inr (Some ''0xab'')), cc_BalanceAt = (\<lambda>a n. Inr 5)\<rparr>"

definition example_chain :: "string chain" where
  "example_chain = \<lparr>ch_client = example_client, ch_client2 = example_client, ch_HexToHash = (\<lambda>s. s)\<rparr>"

definition example_claim :: "string \<Rightarrow> DataAPIPayloadDeliveredEntry" where
  "example_claim recipient = (example_payload ''a'' 1)\<lparr>pd_ProposerFeeRecipient := recipient\<rparr>"

lemmas example_check_defs = example_chain_def example_client_def example_block_def example_claim_def example_payload_def
  zero_payload_def check_entry_def check_payment_def payment_diff_def getBlockByHash_def getHeaderByNumber_def
  getBalanceDiff_def getBalanceDiff_client_def

lemma example_claim_paid:
  "big_SetString ''1000'' = (1000, True)" "strings_EqualFold ''0xCb'' ''0xaB'' = False" "strings_EqualFold ''0xCb'' ''0xab'' = False"
  by code_simp+

text \<open>A payment by the last transaction is found only when the relay spells the recipient with the same
  mixed case as the checksum of the address.\<close>

lemma payment_found_by_case:
  "\<exists>e. check_entry example_chain False (example_claim ''0xaB'') = SaveEntry e \<and> pd_ValueCheckOk e = Some True"
  "\<exists>e. check_entry example_chain False (example_claim ''0xab'') = SaveEntry e \<and> pd_ValueCheckOk e = Some False"
  by (simp_all add: example_check_defs example_claim_paid Let_def)

theorem check_entry_value_ok_witness:
  "paid_last ''0xaB'' 1000 (blk_Transactions example_block)"
proof -
  obtain e where e: "check_entry example_chain False (example_claim ''0xaB'') = SaveEntry e" "pd_ValueCheckOk e = Some True"
    using payment_found_by_case by blast
  have "pd_ValueCheckOk (example_claim ''0xaB'') = None" by (simp add: example_claim_def example_payload_def zero_payload_def)
  from check_entry_value_ok [OF e(1) this e(2)] show ?thesis
    by (auto simp: example_claim_def example_payload_def zero_payload_def StrToBigInt_def example_claim_paid
        example_chain_def example_client_def getBlockByHash_def getBalanceDiff_def getBalanceDiff_client_def)
qed

section \<open>What a run leaves in the table\<close>

definition saved_entries :: "'h chain \<Rightarrow> bool \<Rightarrow> DataAPIPayloadDeliveredEntry list \<Rightarrow> DataAPIPayloadDeliveredEntry list" where
  "saved_entries ch checkTx entries =
     concat (map (\<lambda>x. case check_entry ch checkTx x of SaveEntry e \<Rightarrow> [e] | _ \<Rightarrow> []) entries)"

lemma save_all_fold:
  "save_all ch checkTx entries db = (db', RunDone) \<Longrightarrow> db' = fold saveEntry (saved_entries ch checkTx entries) db"
  by (induction entries arbitrary: db) (auto simp: saved_entries_def split: check_result.splits)

lemma update_checked_twice [simp]: "update_checked e (update_checked e' r) = update_checked e r"
  by (simp add: update_checked_def)

lemma pd_Slot_update_checked [simp]: "pd_Slot (update_checked e r) = pd_Slot r"
  and payload_key_update_checked [simp]: "payload_key (update_checked e r) = payload_key r"
  and pd_ValueCheckOk_update_checked [simp]: "pd_ValueCheckOk (update_checked e r) = pd_ValueCheckOk e"
  and pd_FoundOnChain_update_checked [simp]: "pd_FoundOnChain (update_checked e r) = pd_FoundOnChain e"
  by (simp_all add: update_checked_def payload_key_def)

definition row_after :: "DataAPIPayloadDeliveredEntry list \<Rightarrow> DataAPIPayloadDeliveredEntry \<Rightarrow> DataAPIPayloadDeliveredEntry" where
  "row_after saved r =
     (case filter (\<lambda>e. pd_Slot e = pd_Slot r) saved of [] \<Rightarrow> r | es \<Rightarrow> update_checked (last es) r)"

lemma row_after_Nil [simp]: "row_after [] = (\<lambda>r. r)"
  by (rule ext) (simp add: row_after_def)

lemma payloads_saveEntry:
  "payloads (saveEntry e db) = map (\<lambda>r. if pd_Slot r = pd_Slot e then update_checked e r else r) (payloads db)"
  by (simp add: saveEntry_def)

lemma fold_saveEntry: "payloads (fold saveEntry saved db) = map (row_after saved) (payloads db)"
proof (induction saved arbitrary: db)
  case (Cons e saved)
  have "row_after saved (if pd_Slot r = pd_Slot e then update_checked e r else r) = row_after (e # saved) r" for r
    by (auto simp: row_after_def split: list.splits)
  moreover have "payloads (fold saveEntry (e # saved) db) = map (row_after saved) (payloads (saveEntry e db))"
    by (simp only: fold_Cons o_apply Cons)
  ultimately show ?case by (simp only: payloads_saveEntry map_map comp_def)
qed simp

lemma RunCheckPayloadValue_rows:
  assumes "row_order sched" and "RunCheckPayloadValue None plan sched ch checkTx opts db = (db', RunDone)"
  shows "\<exists>entries. mset entries = mset (todo_entries opts (select_entries opts plan db)) \<and>
    payloads db' = map (row_after (saved_entries ch checkTx entries)) (payloads db)"
proof (cases "select_entries opts plan db = []")
  case True
  with assms(2) have "db' = db" by (simp add: RunCheckPayloadValue_def Let_def)
  then show ?thesis using True by (simp add: todo_entries_def saved_entries_def)
next
  case False
  let ?todo = "todo_entries opts (select_entries opts plan db)"
  have run: "save_all ch checkTx (sched ?todo) db = (db', RunDone)"
    using assms(2) False by (auto simp: RunCheckPayloadValue_def Let_def split: if_splits)
  have "payloads db' = map (row_after (saved_entries ch checkTx (sched ?todo))) (payloads db)"
    using save_all_fold [OF run] by (simp only: fold_saveEntry)
  moreover have "mset (sched ?todo) = mset ?todo" using assms(1) by (simp add: row_order_def)
  ultimately show ?thesis by blast
qed

text \<open>After a run, the check columns of a row are those of the last entry saved for its slot, whatever
  relay that entry is from; rows of slots without a saved entry are unchanged.\<close>

theorem run_last_entry_of_slot_wins:
  assumes "row_order sched" and "RunCheckPayloadValue None plan sched ch checkTx opts db = (db', RunDone)"
  shows "\<exists>entries. mset entries = mset (todo_entries opts (select_entries opts plan db)) \<and>
    payloads db' = map (row_after (saved_entries ch checkTx entries)) (payloads db)"
  using assms by (rule RunCheckPayloadValue_rows)

definition example_opts :: CheckPayloadValueOpts where
  "example_opts = \<lparr>cp_Limit = 10, cp_Slot = 0, cp_SlotMax = 0, cp_SlotMin = 0, cp_NumThreads = 1,
     cp_CheckIncorrectOnly = False, cp_CheckMissedOnly = False, cp_CheckTx = False, cp_CheckAll = False\<rparr>"

theorem run_last_entry_of_slot_wins_witness:
  "\<exists>entries. mset entries = mset (todo_entries example_opts (select_entries example_opts (\<lambda>rows. rows) empty_db)) \<and>
    payloads empty_db = map (row_after (saved_entries example_chain False entries)) (payloads empty_db)"
proof (rule run_last_entry_of_slot_wins)
  show "RunCheckPayloadValue None (\<lambda>rows. rows) (\<lambda>rows. rows) example_chain False example_opts empty_db = (empty_db, RunDone)"
    by (simp add: RunCheckPayloadValue_def select_entries_def example_opts_def empty_db_def order_desc_def Let_def)
qed (simp add: row_order_def)

text \<open>When relay \<open>b\<close> claims a block that the chain does not have, checking its payload erases the result of
  every other relay's payload of the slot: the rows count as not checked again.\<close>

theorem unfound_payload_erases_slot:
  assumes "big_SetString (pd_ValueClaimedWei b) = (claimed, True)" "getBlockByHash ch (pd_BlockHash b) = Inl ''not found''"
    and "pd_ValueCheckOk b = None" "r \<in> set (payloads (fst (save_all ch checkTx [b] db)))" "pd_Slot r = pd_Slot b"
  shows "pd_ValueCheckOk r = None \<and> pd_FoundOnChain r = Some False"
proof -
  have "check_entry ch checkTx b = SaveEntry (b\<lparr>pd_FoundOnChain := Some False\<rparr>)"
    using assms(1,2) by (simp add: check_entry_def null_defs)
  with assms(3-5) show ?thesis by (auto simp: saveEntry_def update_checked_def split: if_splits)
qed

theorem unfound_payload_erases_slot_witness:
  "pd_ValueCheckOk (hd (payloads (fst (save_all example_chain False [(example_payload ''b'' 1)\<lparr>pd_BlockHash := ''0xcd''\<rparr>]
     (empty_db\<lparr>payloads := [(example_payload ''a'' 1)\<lparr>pd_ValueCheckOk := Some True\<rparr>]\<rparr>))))) = None"
proof -
  let ?b = "(example_payload ''b'' 1)\<lparr>pd_BlockHash := ''0xcd''\<rparr>"
  let ?db = "empty_db\<lparr>payloads := [(example_payload ''a'' 1)\<lparr>pd_ValueCheckOk := Some True\<rparr>]\<rparr>"
  have claim: "big_SetString (pd_ValueClaimedWei ?b) = (1000, True)"
    by (simp add: example_payload_def zero_payload_def example_claim_paid)
  have unfound: "getBlockByHash example_chain (pd_BlockHash ?b) = Inl ''not found''"
    by (simp add: getBlockByHash_def example_chain_def example_client_def)
  have check: "check_entry example_chain False ?b = SaveEntry (?b\<lparr>pd_FoundOnChain := Some False\<rparr>)"
    unfolding check_entry_def claim unfound by (simp add: null_defs)
  have rows: "payloads (fst (save_all example_chain False [?b] ?db)) =
      [update_checked (?b\<lparr>pd_FoundOnChain := Some False\<rparr>) ((example_payload ''a'' 1)\<lparr>pd_ValueCheckOk := Some True\<rparr>)]"
    unfolding save_all.simps check by (simp add: payloads_saveEntry example_payload_def)
  show ?thesis
    by (rule unfound_payload_erases_slot [THEN conjunct1, OF claim unfound, of _ False ?db])
      (unfold rows, simp_all add: example_payload_def zero_payload_def)
qed



end
