(* ===== verification/BackfillRunner.thy ===== *)
theory BackfillRunner
  imports Backfill CheckPayload
begin

text \<open>
  The service that keeps the table of delivered payloads up to date: \<open>cmd/service/backfill_runner.go\<close>.  A cycle
  runs the data API backfill of all relays and then the payload value check; the first cycle runs at once, the
  others when the ticker fires, until a signal ends the loop.  What the nodes, the relays and the database server
  answer in each cycle is the environment of the cycle.
\<close>

section \<open>Options and connections\<close>

record runner_opts =
  ro_interval :: duration
  ro_EthNodeURI :: string
  ro_EthBackupURI :: string
  ro_Limit :: u64
  ro_NumThreads :: u64
  ro_RunOnce :: bool
  ro_SkipBackfill :: bool
  ro_SkipCheckValue :: bool
  ro_Relay :: string
  ro_MinSlot :: i64

text \<open>A dialled client is what its node answers in each cycle.\<close>

type_synonym 'h dial = "string \<Rightarrow> string + (nat \<Rightarrow> 'h chain_client)"

definition connect_eth :: "'h dial \<Rightarrow> (string \<Rightarrow> 'h) \<Rightarrow> runner_opts \<Rightarrow> string + (nat \<Rightarrow> 'h chain) option" where
  "connect_eth Dial hexToHash opts =
     (if ro_SkipCheckValue opts then Inr None
      else if ro_EthNodeURI opts = [] then Inl ''eth-node is required for check-payload-value''
      else case Dial (ro_EthNodeURI opts) of
        Inl e \<Rightarrow> Inl ''failed to connect to eth node''
      | Inr ethClient \<Rightarrow>
          (if ro_EthBackupURI opts = [] then
             Inr (Some (\<lambda>n. \<lparr>ch_client = ethClient n, ch_client2 = ethClient n, ch_HexToHash = hexToHash\<rparr>))
           else case Dial (ro_EthBackupURI opts) of
             Inl e \<Rightarrow> Inl ''failed to connect to backup eth node''
           | Inr ethClient2 \<Rightarrow>
               Inr (Some (\<lambda>n. \<lparr>ch_client = ethClient n, ch_client2 = ethClient2 n, ch_HexToHash = hexToHash\<rparr>))))"

definition check_opts :: "runner_opts \<Rightarrow> CheckPayloadValueOpts" where
  "check_opts opts = \<lparr>cp_Limit = ro_Limit opts, cp_Slot = 0, cp_SlotMax = 0, cp_SlotMin = 0, cp_NumThreads = ro_NumThreads opts,
     cp_CheckIncorrectOnly = False, cp_CheckMissedOnly = False, cp_CheckTx = False, cp_CheckAll = False\<rparr>"

section \<open>A cycle\<close>

record cycle_env =
  cy_backfill :: "nat \<Rightarrow> backfill_env"
  cy_latest_slot :: u64
  cy_check_fault :: "sql_error option"
  cy_plan :: "DataAPIPayloadDeliveredEntry list \<Rightarrow> DataAPIPayloadDeliveredEntry list"
  cy_sched :: "DataAPIPayloadDeliveredEntry list \<Rightarrow> DataAPIPayloadDeliveredEntry list"

text \<open>An error of a step is logged; a fatal error or a panic inside a step ends the process; a check without a worker
  never returns.\<close>

datatype cycle_end = CycleComplete | CycleExit | CycleBlocked

definition backfill_step :: "runner_opts \<Rightarrow> 'pk RelayEntry list \<Rightarrow> cycle_env \<Rightarrow> DatabaseService \<Rightarrow> DatabaseService \<times> bool" where
  "backfill_step opts relays cy db =
     (if ro_SkipBackfill opts then (db, True)
      else RunBackfill (cy_backfill cy) (cy_latest_slot cy) relays 0 (ro_MinSlot opts) db)"

definition check_step :: "runner_opts \<Rightarrow> 'h chain option \<Rightarrow> cycle_env \<Rightarrow> DatabaseService \<Rightarrow> DatabaseService \<times> cycle_end" where
  "check_step opts chain cy db =
     (case chain of
        None \<Rightarrow> (db, CycleComplete)
      | Some ch \<Rightarrow>
          (case RunCheckPayloadValue (cy_check_fault cy) (cy_plan cy) (cy_sched cy) ch False (check_opts opts) db of
             (db', outcome) \<Rightarrow> (db', (case outcome of
                RunDone \<Rightarrow> CycleComplete | RunQueryFailed _ \<Rightarrow> CycleComplete
              | RunBlocked \<Rightarrow> CycleBlocked | RunFatal _ \<Rightarrow> CycleExit | RunPanic \<Rightarrow> CycleExit))))"

definition runBackfillCycle ::
    "runner_opts \<Rightarrow> 'pk RelayEntry list \<Rightarrow> 'h chain option \<Rightarrow> cycle_env \<Rightarrow> DatabaseService \<Rightarrow> DatabaseService \<times> cycle_end" where
  "runBackfillCycle opts relays chain cy db =
     (case backfill_step opts relays cy db of
        (db', False) \<Rightarrow> (db', CycleExit)
      | (db', True) \<Rightarrow> check_step opts chain cy db')"

section \<open>The service\<close>

text \<open>The phase of the process, the buffer of the ticker (one tick; a tick that finds it full is dropped) and of the
  signal channel.  \<open>rn_ticks\<close> counts the ticks, \<open>rn_cycles\<close> the cycles begun.\<close>

datatype runner_phase = Waiting | Stuck | Stopped bool

record runner =
  rn_db :: DatabaseService
  rn_phase :: runner_phase
  rn_tick :: bool
  rn_signal :: bool
  rn_cycles :: nat
  rn_ticks :: nat

definition after_cycle :: "DatabaseService \<times> cycle_end \<Rightarrow> runner \<Rightarrow> runner" where
  "after_cycle res r = r\<lparr>rn_db := fst res, rn_cycles := rn_cycles r + 1,
     rn_phase := (case snd res of CycleComplete \<Rightarrow> Waiting | CycleExit \<Rightarrow> Stopped False | CycleBlocked \<Rightarrow> Stuck)\<rparr>"

definition chain_at :: "(nat \<Rightarrow> 'h chain) option \<Rightarrow> nat \<Rightarrow> 'h chain option" where
  "chain_at eths n = map_option (\<lambda>c. c n) eths"

text \<open>The first cycle; then a run-once process returns, and the ticker of an interval that is not positive panics.\<close>

definition runner_start ::
    "runner_opts \<Rightarrow> 'pk RelayEntry list \<Rightarrow> (nat \<Rightarrow> 'h chain) option \<Rightarrow> cycle_env \<Rightarrow> DatabaseService \<Rightarrow> runner" where
  "runner_start opts relays eths cy db =
     (let r = after_cycle (runBackfillCycle opts relays (chain_at eths 0) cy db)
          \<lparr>rn_db = db, rn_phase = Waiting, rn_tick = False, rn_signal = False, rn_cycles = 0, rn_ticks = 0\<rparr>
      in if rn_phase r \<noteq> Waiting then r
         else if ro_RunOnce opts then r\<lparr>rn_phase := Stopped True\<rparr>
         else if \<not> i64_less 0 (ro_interval opts) then r\<lparr>rn_phase := Stopped False\<rparr>
         else r)"

text \<open>The select loop.  A cycle takes the tick from the buffer; ticks and signals arrive at any time.\<close>

inductive runner_step ::
    "runner_opts \<Rightarrow> 'pk RelayEntry list \<Rightarrow> (nat \<Rightarrow> 'h chain) option \<Rightarrow> runner \<Rightarrow> runner \<Rightarrow> bool" for opts relays eths where
  tick: "rn_phase r \<in> {Waiting, Stuck} \<Longrightarrow> runner_step opts relays eths r (r\<lparr>rn_tick := True, rn_ticks := rn_ticks r + 1\<rparr>)"
| signal: "rn_phase r \<in> {Waiting, Stuck} \<Longrightarrow> runner_step opts relays eths r (r\<lparr>rn_signal := True\<rparr>)"
| cycle: "rn_phase r = Waiting \<Longrightarrow> rn_tick r \<Longrightarrow>
    runner_step opts relays eths r
      (after_cycle (runBackfillCycle opts relays (chain_at eths (rn_cycles r)) cy (rn_db r)) (r\<lparr>rn_tick := False\<rparr>))"
| stop: "rn_phase r = Waiting \<Longrightarrow> rn_signal r \<Longrightarrow> runner_step opts relays eths r (r\<lparr>rn_phase := Stopped True\<rparr>)"

inductive runner_reachable ::
    "runner_opts \<Rightarrow> 'pk RelayEntry list \<Rightarrow> (nat \<Rightarrow> 'h chain) option \<Rightarrow> DatabaseService \<Rightarrow> runner \<Rightarrow> bool" for opts relays eths db where
  reach_start: "runner_reachable opts relays eths db (runner_start opts relays eths cy db)"
| reach_step: "runner_reachable opts relays eths db r \<Longrightarrow> runner_step opts relays eths r r' \<Longrightarrow> runner_reachable opts relays eths db r'"

inductive_cases runner_stepE: "runner_step opts relays eths r r'"

section \<open>The history of delivered payloads\<close>

text \<open>What a relay delivered: the columns that the check does not write.\<close>

definition delivered_columns :: "DataAPIPayloadDeliveredEntry \<Rightarrow> DataAPIPayloadDeliveredEntry" where
  "delivered_columns r = update_checked zero_payload r"

definition keeps_history :: "DatabaseService \<Rightarrow> DatabaseService \<Rightarrow> bool" where
  "keeps_history db db' \<longleftrightarrow> prefix (map delivered_columns (payloads db)) (map delivered_columns (payloads db')) \<and>
     (distinct (map payload_key (payloads db)) \<longrightarrow> distinct (map payload_key (payloads db')))"

lemma keeps_history_refl [simp, intro]: "keeps_history db db"
  by (simp add: keeps_history_def)

lemma keeps_history_trans [trans]: "keeps_history db db1 \<Longrightarrow> keeps_history db1 db2 \<Longrightarrow> keeps_history db db2"
  unfolding keeps_history_def by (meson prefix_order.trans)

lemma keeps_history_same: "payloads db' = payloads db \<Longrightarrow> keeps_history db db'"
  by (simp add: keeps_history_def)

text \<open>The interface of everything that writes the table: a writer leaves the history as it is, or extends it.
  A sequence of writers is a writer.\<close>

locale history_writer =
  fixes wr :: "'e \<Rightarrow> DatabaseService \<Rightarrow> DatabaseService"
  assumes keeps: "keeps_history db (wr e db)"
begin

lemma fold_keeps: "keeps_history db (fold wr es db)"
  by (induction es arbitrary: db) (auto intro: keeps_history_trans keeps)

lemma fold_prefix: "prefix (map delivered_columns (payloads db)) (map delivered_columns (payloads (fold wr es db)))"
  using fold_keeps [of db es] by (simp add: keeps_history_def)

lemma fold_unique: "distinct (map payload_key (payloads db)) \<Longrightarrow> distinct (map payload_key (payloads (fold wr es db)))"
  using fold_keeps [of db es] by (simp add: keeps_history_def)

end

lemma delivered_update_checked [simp]: "delivered_columns (update_checked e r) = delivered_columns r"
  by (simp add: delivered_columns_def)

lemma saveEntry_keeps: "keeps_history db (saveEntry e db)"
proof -
  have "map delivered_columns (payloads (saveEntry e db)) = map delivered_columns (payloads db)"
    and "map payload_key (payloads (saveEntry e db)) = map payload_key (payloads db)"
    by (simp_all add: payloads_saveEntry)
  then show ?thesis by (simp add: keeps_history_def)
qed

interpretation entry_writer: history_writer saveEntry
  by unfold_locales (rule saveEntry_keeps)

text \<open>The backfill only appends rows that are not checked yet.\<close>

definition appends :: "DatabaseService \<Rightarrow> DatabaseService \<Rightarrow> bool" where
  "appends db db' \<longleftrightarrow> (\<exists>new. payloads db' = payloads db @ new \<and> (\<forall>r \<in> set new. pd_ValueCheckOk r = None)) \<and>
     (distinct (map payload_key (payloads db)) \<longrightarrow> distinct (map payload_key (payloads db')))"

lemma appends_refl [simp, intro]: "appends db db"
  by (simp add: appends_def)

lemma appends_same: "payloads db' = payloads db \<Longrightarrow> appends db db'"
  by (simp add: appends_def)

lemma appends_trans [trans]: "appends db db1 \<Longrightarrow> appends db1 db2 \<Longrightarrow> appends db db2"
proof -
  assume "appends db db1" "appends db1 db2"
  moreover from this obtain new new' where "payloads db1 = payloads db @ new" "\<forall>r \<in> set new. pd_ValueCheckOk r = None"
      "payloads db2 = payloads db1 @ new'" "\<forall>r \<in> set new'. pd_ValueCheckOk r = None"
    by (auto simp: appends_def)
  ultimately show ?thesis by (auto simp: appends_def intro!: exI [of _ "new @ new'"])
qed

lemma appends_keeps: "appends db db' \<Longrightarrow> keeps_history db db'"
  by (auto simp: appends_def keeps_history_def)

lemma exec_payload_insert_appends: "appends db (fst (exec_payload_insert fault now es db))"
proof (cases "fst (exec_payload_insert fault now es db) = db")
  case False
  then have rows: "payloads (fst (exec_payload_insert fault now es db)) = fst (insert_rows payload_key (payload_row now) es (payloads db, next_id db))"
    by (auto simp: exec_payload_insert_def split: option.splits prod.splits)
  obtain new where new: "fst (insert_rows payload_key (payload_row now) es (payloads db, next_id db)) = payloads db @ new"
      "set new \<subseteq> (\<Union>i. payload_row now i ` set es)"
    using payload_table.insert_rows_firsts [of now es "(payloads db, next_id db)"] by auto
  then have "\<forall>r \<in> set new. pd_ValueCheckOk r = None" by (auto simp: payload_row_def zero_payload_def)
  then show ?thesis
    using payload_table.insert_rows_distinct [of "(payloads db, next_id db)" now es] rows new(1) by (auto simp: appends_def)
qed simp

lemma save_payload_chunks_appends: "appends db (fst (save_payload_chunks fault now entries i acc db))"
proof (induction "length entries - i" arbitrary: i acc db rule: less_induct)
  case less
  let ?es = "take payload_batch (drop i entries)"
  have smaller: "i < length entries \<Longrightarrow> length entries - (i + payload_batch) < length entries - i"
    by (simp add: payload_batch_def)
  show ?case
    using less.hyps [OF smaller] exec_payload_insert_appends [of db "fault i" now ?es]
    by (subst save_payload_chunks_unfold) (auto split: prod.splits sum.splits intro: appends_trans)
qed

lemma backfill_round_appends: "appends (ls_db st) (ls_db (fst (backfill_round env host url latest minSlot st)))"
proof -
  have saved: "appends (ls_db st) db' \<and> appends (ls_db st) (save_builders f t bs db')"
    if "SaveDataAPIPayloadDeliveredBatch fault now entries (ls_db st) = (db', n, err)" for fault now entries db' n err f t bs
    using save_payload_chunks_appends [of "ls_db st" fault now entries 0 0] that
      appends_same [of "save_builders f t bs db'" db']
    by (auto simp: SaveDataAPIPayloadDeliveredBatch_def split: if_splits intro: appends_trans appends_same)
  show ?thesis
    using saved by (auto simp: backfill_round_def Let_def split: go_call.splits prod.splits option.splits)
qed

lemma backfill_loop_appends: "appends (ls_db st) (ls_db (fst (backfill_loop env host url latest minSlot st)))"
proof (induction env host url latest minSlot st rule: backfill_loop.induct)
  case (1 env host url latest minSlot st)
  obtain st' r where round: "backfill_round env host url latest minSlot st = (st', r)" by fastforce
  have "appends (ls_db st) (ls_db st')" using backfill_round_appends [of st env host url latest minSlot] round by simp
  with "1.IH" [OF round [symmetric]] show ?case
    by (subst backfill_loop.simps) (auto simp: round split: option.splits intro: appends_trans)
qed

lemma backfill_relays_appends: "appends db (fst (backfill_relays envs i cursor minSlot relays db))"
proof (induction envs i cursor minSlot relays db rule: backfill_relays.induct)
  case (2 envs i cursor minSlot relay relays db)
  obtain st outcome where bf: "backfillPayloadsDelivered (envs i) (newBackfiller relay cursor minSlot) db = (st, outcome)" by fastforce
  have "appends db (ls_db (fst (backfillPayloadsDelivered (envs i) (newBackfiller relay cursor minSlot) db)))"
    using backfill_loop_appends [of "\<lparr>ls_db = db, ls_cursorSlot = _, ls_slotsReceived = {}, ls_builders = [], ls_requests = 0\<rparr>"]
    by (simp add: backfillPayloadsDelivered_def Let_def split: prod.splits)
  with "2.IH" [OF bf [symmetric]] bf show ?case by (auto intro: appends_trans)
qed simp

lemma backfill_step_appends: "appends db (fst (backfill_step opts relays cy db))"
  by (simp add: backfill_step_def RunBackfill_def backfill_relays_appends)

lemma save_all_keeps: "keeps_history db (fst (save_all ch checkTx entries db))"
proof (induction ch checkTx entries db rule: save_all.induct)
  case (2 ch checkTx entry entries db)
  then show ?case by (auto split: check_result.splits intro: keeps_history_trans saveEntry_keeps)
qed simp

lemma runBackfillCycle_keeps: "keeps_history db (fst (runBackfillCycle opts relays chain cy db))"
proof -
  have backfill: "keeps_history db (fst (backfill_step opts relays cy db))" for db
    by (rule appends_keeps [OF backfill_step_appends])
  have check: "keeps_history db (fst (check_step opts chain cy db))" for db
    by (simp add: check_step_def RunCheckPayloadValue_def Let_def save_all_keeps split: option.splits prod.splits)
       (metis fst_conv keeps_history_refl save_all_keeps)
  obtain db' ok where "backfill_step opts relays cy db = (db', ok)" by fastforce
  with backfill [of db] check [of db'] show ?thesis
    by (cases ok) (auto simp: runBackfillCycle_def intro: keeps_history_trans)
qed

interpretation cycle_writer: history_writer "\<lambda>(chain, cy) db. fst (runBackfillCycle opts relays chain cy db)" for opts relays
  by unfold_locales (auto simp: runBackfillCycle_keeps)

section \<open>What the service does\<close>

abbreviation cycle_run :: "runner_opts \<Rightarrow> 'pk RelayEntry list \<Rightarrow> 'h chain option \<times> cycle_env \<Rightarrow> DatabaseService \<Rightarrow> DatabaseService" where
  "cycle_run opts relays \<equiv> \<lambda>(chain, cy) db. fst (runBackfillCycle opts relays chain cy db)"

text \<open>The database is the composition of the cycles begun, each with the chain of its number.\<close>

definition cycles_run :: "runner_opts \<Rightarrow> 'pk RelayEntry list \<Rightarrow> (nat \<Rightarrow> 'h chain) option \<Rightarrow> DatabaseService \<Rightarrow> runner \<Rightarrow> bool" where
  "cycles_run opts relays eths db r \<longleftrightarrow>
     (\<exists>cys. length cys = rn_cycles r \<and>
        rn_db r = fold (cycle_run opts relays) (zip (map (chain_at eths) [0..<rn_cycles r]) cys) db)"

lemma cycles_run_phase [simp]:
  "cycles_run opts relays eths db (r\<lparr>rn_phase := ph\<rparr>) = cycles_run opts relays eths db r"
  "cycles_run opts relays eths db (r\<lparr>rn_tick := t\<rparr>) = cycles_run opts relays eths db r"
  "cycles_run opts relays eths db (r\<lparr>rn_tick := t, rn_ticks := k\<rparr>) = cycles_run opts relays eths db r"
  "cycles_run opts relays eths db (r\<lparr>rn_signal := g\<rparr>) = cycles_run opts relays eths db r"
  by (simp_all add: cycles_run_def)

lemma cycles_run_after_cycle:
  assumes "cycles_run opts relays eths db r"
  shows "cycles_run opts relays eths db (after_cycle (runBackfillCycle opts relays (chain_at eths (rn_cycles r)) cy (rn_db r)) (r\<lparr>rn_tick := t\<rparr>))"
proof -
  obtain cys where cys: "length cys = rn_cycles r"
      "rn_db r = fold (cycle_run opts relays) (zip (map (chain_at eths) [0..<rn_cycles r]) cys) db"
    using assms by (auto simp: cycles_run_def)
  then have "fold (cycle_run opts relays) (zip (map (chain_at eths) [0..<rn_cycles r + 1]) (cys @ [cy])) db =
      fst (runBackfillCycle opts relays (chain_at eths (rn_cycles r)) cy (rn_db r))"
    by simp
  then show ?thesis using cys(1)
    by (auto simp: cycles_run_def after_cycle_def intro!: exI [of _ "cys @ [cy]"])
qed

definition runner_inv :: "runner_opts \<Rightarrow> 'pk RelayEntry list \<Rightarrow> (nat \<Rightarrow> 'h chain) option \<Rightarrow> DatabaseService \<Rightarrow> runner \<Rightarrow> bool" where
  "runner_inv opts relays eths db r \<longleftrightarrow> cycles_run opts relays eths db r \<and>
     rn_cycles r + (if rn_tick r then 1 else 0) \<le> rn_ticks r + 1"

lemma runner_start_inv: "runner_inv opts relays eths db (runner_start opts relays eths cy db)"
  using cycles_run_after_cycle [of opts relays eths db
      "\<lparr>rn_db = db, rn_phase = Waiting, rn_tick = False, rn_signal = False, rn_cycles = 0, rn_ticks = 0\<rparr>" cy False]
  by (simp add: runner_inv_def runner_start_def Let_def) (simp add: cycles_run_def after_cycle_def)

lemma runner_step_inv:
  assumes "runner_step opts relays eths r r'" and "runner_inv opts relays eths db r"
  shows "runner_inv opts relays eths db r'"
  using assms
proof cases
  case (cycle cy)
  then show ?thesis using assms(2) cycles_run_after_cycle [of opts relays eths db r cy False]
    by (simp add: runner_inv_def) (simp add: after_cycle_def)
qed (auto simp: runner_inv_def)

lemma runner_reachable_inv: "runner_reachable opts relays eths db r \<Longrightarrow> runner_inv opts relays eths db r"
  by (induction rule: runner_reachable.induct) (blast intro: runner_start_inv runner_step_inv)+

text \<open>C6. At every moment the database is the result of the cycles begun so far, each with its own answers of the
  world, run one after the other on the database the service started with; there are at most one more of them
  than ticks, and ticks that fall into a running cycle do not pile up.\<close>

theorem runner_refines_cycles:
  assumes "runner_reachable opts relays eths db r"
  shows "\<exists>cys. length cys = rn_cycles r \<and> rn_cycles r \<le> rn_ticks r + 1 \<and>
    rn_db r = fold (\<lambda>(chain, cy) db. fst (runBackfillCycle opts relays chain cy db))
      (zip (map (chain_at eths) [0..<rn_cycles r]) cys) db"
  using runner_reachable_inv [OF assms] by (auto simp: runner_inv_def cycles_run_def split: if_splits)


lemma save_all_no_query: "snd (save_all ch checkTx entries db) \<noteq> RunQueryFailed e"
  by (induction ch checkTx entries db rule: save_all.induct) (auto split: check_result.splits)

lemma RunCheckPayloadValue_no_fault: "snd (RunCheckPayloadValue None plan sched ch checkTx opts db) \<noteq> RunQueryFailed e"
  by (simp add: RunCheckPayloadValue_def Let_def save_all_no_query)


text \<open>A service that is waiting and has a signal can stop, one whose check has no worker never
  leaves the cycle, whatever signals arrive.\<close>

lemma runner_stuck:
  "runner_step opts relays eths r r' \<Longrightarrow> rn_phase r = Stuck \<Longrightarrow> rn_phase r' = Stuck \<and> rn_db r' = rn_db r"
  by (erule runner_stepE) auto


text \<open>An interval that is not positive lets the service run a single cycle and then panic.\<close>

lemma nonpositive_interval_panics:
  "\<not> i64_less 0 (ro_interval opts) \<Longrightarrow> \<not> ro_RunOnce opts \<Longrightarrow> rn_phase (runner_start opts relays eths cy db) \<in> {Stopped False, Stuck}"
  by (auto simp: runner_start_def after_cycle_def Let_def split: cycle_end.splits)

section \<open>A small service\<close>

definition example_runner :: runner_opts where
  "example_runner = \<lparr>ro_interval = 300, ro_EthNodeURI = ''http://node'', ro_EthBackupURI = [], ro_Limit = 10, ro_NumThreads = 1,
     ro_RunOnce = False, ro_SkipBackfill = True, ro_SkipCheckValue = False, ro_Relay = [], ro_MinSlot = 0\<rparr>"

definition example_cycle :: cycle_env where
  "example_cycle = \<lparr>cy_backfill = (\<lambda>_. example_env []), cy_latest_slot = 0, cy_check_fault = None,
     cy_plan = (\<lambda>rows. rows), cy_sched = (\<lambda>rows. rows)\<rparr>"

definition example_table :: DatabaseService where
  "example_table = empty_db\<lparr>payloads := [example_claim ''0xaB'']\<rparr>"

lemma example_table_selected:
  "select_entries (check_opts example_runner) (\<lambda>rows. rows) example_table = [example_claim ''0xaB'']"
  by (simp add: select_entries_def check_opts_def example_runner_def example_table_def order_desc_def example_claim_def
      example_payload_def zero_payload_def claim_columns_def)

lemma example_threads: "cp_NumThreads (check_opts example_runner) = 1" "cp_Slot (check_opts example_runner) = 0"
    "cp_SlotMin (check_opts example_runner) = 0" "i64_less 0 1"
  by (simp_all add: check_opts_def example_runner_def i64_less_def)

lemma example_cycle_complete:
  "snd (runBackfillCycle example_runner ([] :: unit RelayEntry list) (Some example_chain) example_cycle example_table) = CycleComplete"
proof -
  obtain e where "check_entry example_chain False (example_claim ''0xaB'') = SaveEntry e"
    using payment_found_by_case by blast
  then have "snd (RunCheckPayloadValue None (\<lambda>rows. rows) (\<lambda>rows. rows) example_chain False (check_opts example_runner) example_table) = RunDone"
    by (simp add: RunCheckPayloadValue_def example_table_selected todo_entries_def Let_def example_threads)
  then show ?thesis
    by (auto simp: runBackfillCycle_def backfill_step_def check_step_def example_runner_def example_cycle_def split: prod.splits)
qed


lemma example_backfill_step: "backfill_step example_runner relays cy db = (db, True)"
  by (simp add: backfill_step_def example_runner_def)


definition example_started :: runner where
  "example_started = runner_start example_runner ([] :: unit RelayEntry list) (Some (\<lambda>_. example_chain)) example_cycle example_table"

lemma example_reachable:
  "runner_reachable example_runner ([] :: unit RelayEntry list) (Some (\<lambda>_. example_chain)) example_table
     (example_started\<lparr>rn_tick := True, rn_ticks := rn_ticks example_started + 1\<rparr>)"
proof (rule reach_step [OF _ tick])
  have "rn_phase example_started = Waiting"
    using example_cycle_complete
    by (simp add: example_started_def runner_start_def after_cycle_def chain_at_def Let_def) (simp add: example_runner_def i64_less_def)
  then show "rn_phase example_started \<in> {Waiting, Stuck}" by simp
qed (simp add: example_started_def reach_start)

theorem runner_refines_cycles_witness:
  "\<exists>cys. length cys = rn_cycles example_started \<and> rn_cycles example_started \<le> rn_ticks example_started + 1 + 1 \<and>
    rn_db example_started = fold (\<lambda>(chain, cy) db. fst (runBackfillCycle example_runner ([] :: unit RelayEntry list) chain cy db))
      (zip (map (chain_at (Some (\<lambda>_. example_chain))) [0..<rn_cycles example_started]) cys) example_table"
  using runner_refines_cycles [OF example_reachable] by simp


end
