(* ===== verification/Commands.thy ===== *)
theory Commands
  imports BackfillRunner
begin

text \<open>
  The command line: how \<open>data-api-backfill\<close> and \<open>check-payload-value\<close> (\<open>cmd/core\<close>) and the runner (\<open>cmd/service\<close>)
  find their relays, nodes and database before they run, with the helpers of \<open>common/utils.go\<close>,
  \<open>database/util.go\<close> and \<open>database/database.go\<close> that connect, and the logger of \<open>common/logging.go\<close>.  A process that ends with a fatal error or a
  panic is the outcome \<open>CmdFatal\<close>.
\<close>

section \<open>Connecting\<close>

text \<open>\<open>getJSON\<close> decodes the body whatever the status of the response is; a missing field decodes to zero.\<close>

definition getJSON :: "(string \<Rightarrow> string + string) \<Rightarrow> (string \<Rightarrow> string + 'a) \<Rightarrow> string \<Rightarrow> string + 'a" where
  "getJSON http_Get decode url = (case http_Get url of Inl err \<Rightarrow> Inl err | Inr body \<Rightarrow> decode body)"

definition MustGetLatestSlot :: "(string \<Rightarrow> string + string) \<Rightarrow> (string \<Rightarrow> string + u64 option) \<Rightarrow> u64 option" where
  "MustGetLatestSlot http_Get decode =
     (case getJSON http_Get decode ''https://beaconcha.in/api/v1/slot/latest'' of
        Inl err \<Rightarrow> None
      | Inr None \<Rightarrow> Some 0
      | Inr (Some s) \<Rightarrow> Some s)"

definition MustConnectBeaconNode :: "(string \<Rightarrow> string + bool \<times> u64) \<Rightarrow> string \<Rightarrow> bool \<Rightarrow> (string \<times> u64) option" where
  "MustConnectBeaconNode SyncStatus beaconNodeURI allowSyncing =
     (case SyncStatus beaconNodeURI of
        Inl err \<Rightarrow> None
      | Inr (isSyncing, headSlotBN) \<Rightarrow> if isSyncing \<and> \<not> allowSyncing then None else Some (beaconNodeURI, headSlotBN))"

definition NewDatabaseService :: "(string \<Rightarrow> string + DatabaseService) \<Rightarrow> (DatabaseService \<Rightarrow> string + DatabaseService) \<Rightarrow> string \<Rightarrow> string \<Rightarrow> string + DatabaseService" where
  "NewDatabaseService connect migrate dontApplySchema dsn =
     (case connect dsn of
        Inl err \<Rightarrow> Inl err
      | Inr db \<Rightarrow> if dontApplySchema = [] then migrate db else Inr db)"

text \<open>A DSN that does not parse as a URL gives a nil service, an error of the connection ends the process.\<close>

datatype connection = NilService | Connected DatabaseService | ConnectFatal

definition MustConnectPostgres :: "(string \<Rightarrow> bool) \<Rightarrow> (string \<Rightarrow> string + DatabaseService) \<Rightarrow> string \<Rightarrow> connection" where
  "MustConnectPostgres url_ok new_service dsn =
     (if \<not> url_ok dsn then NilService
      else case new_service dsn of Inl err \<Rightarrow> ConnectFatal | Inr db \<Rightarrow> Connected db)"

text \<open>\<open>LogSetup\<close>: whether the logger writes JSON, and the level it is given, if any; an unknown level is fatal.\<close>

definition LogSetup :: "(string \<Rightarrow> 'level option) \<Rightarrow> bool \<Rightarrow> string \<Rightarrow> bool \<Rightarrow> (bool \<times> 'level option) option" where
  "LogSetup ParseLevel json logLevel logDebug =
     (let logLevel = (if logDebug then ''debug'' else logLevel) in
      if logLevel \<noteq> [] then
        (case ParseLevel logLevel of None \<Rightarrow> None | Some lvl \<Rightarrow> Some (json, Some lvl))
      else Some (json, None))"

section \<open>Commands\<close>

datatype cmd_outcome = CmdDone DatabaseService | CmdFatal | CmdBlocked DatabaseService

text \<open>A step that needs the database dereferences the service, which panics when it is nil.\<close>

definition with_db :: "connection \<Rightarrow> (DatabaseService \<Rightarrow> cmd_outcome) \<Rightarrow> cmd_outcome" where
  "with_db c run = (case c of Connected db \<Rightarrow> run db | _ \<Rightarrow> CmdFatal)"

text \<open>The latest slot is only fetched for a negative minimum slot.\<close>

definition latest_slot_for :: "u64 option \<Rightarrow> i64 \<Rightarrow> u64 option" where
  "latest_slot_for latest minSlot = (if i64_less minSlot 0 then latest else Some 0)"

definition backfillDataAPICmd ::
    "(string \<Rightarrow> 'pk option) \<Rightarrow> string \<Rightarrow> connection \<Rightarrow> (nat \<Rightarrow> backfill_env) \<Rightarrow> u64 option \<Rightarrow> u64 \<Rightarrow> i64 \<Rightarrow> cmd_outcome" where
  "backfillDataAPICmd decode cliRelay db envs latest initCursor minSlot =
     (case choose_relays decode cliRelay of
        None \<Rightarrow> CmdFatal
      | Some relays \<Rightarrow> with_db db (\<lambda>db.
          case latest_slot_for latest minSlot of
            None \<Rightarrow> CmdFatal
          | Some s \<Rightarrow> (case RunBackfill envs s relays initCursor minSlot db of
              (db', True) \<Rightarrow> CmdDone db'
            | (db', False) \<Rightarrow> CmdFatal)))"

definition checkPayloadValueCmd ::
    "(string \<Rightarrow> string + 'h chain_client) \<Rightarrow> (string \<Rightarrow> 'h) \<Rightarrow> string \<Rightarrow> string \<Rightarrow> connection \<Rightarrow> cycle_env \<Rightarrow> bool \<Rightarrow> CheckPayloadValueOpts \<Rightarrow> cmd_outcome" where
  "checkPayloadValueCmd Dial hexToHash ethNodeURI ethNodeBackupURI db cy checkTx opts =
     (case Dial ethNodeURI of
        Inl err \<Rightarrow> CmdFatal
      | Inr client \<Rightarrow>
          (case (if ethNodeBackupURI \<noteq> [] then Dial ethNodeBackupURI else Inr client) of
             Inl err \<Rightarrow> CmdFatal
           | Inr client2 \<Rightarrow> with_db db (\<lambda>db.
               case RunCheckPayloadValue (cy_check_fault cy) (cy_plan cy) (cy_sched cy)
                   \<lparr>ch_client = client, ch_client2 = client2, ch_HexToHash = hexToHash\<rparr> checkTx (opts\<lparr>cp_CheckTx := checkTx\<rparr>) db of
                 (db', RunDone) \<Rightarrow> CmdDone db'
               | (db', RunBlocked) \<Rightarrow> CmdBlocked db'
               | _ \<Rightarrow> CmdFatal)))"

text \<open>The runner: relays, then the database, then the nodes, then the first cycle.  (A nil service would only be harmless
  to a runner that skips both of its steps; it counts as fatal here.)\<close>

definition backfillRunnerCmd ::
    "(string \<Rightarrow> 'pk option) \<Rightarrow> 'h dial \<Rightarrow> (string \<Rightarrow> 'h) \<Rightarrow> runner_opts \<Rightarrow> connection \<Rightarrow> cycle_env \<Rightarrow> runner option" where
  "backfillRunnerCmd decode Dial hexToHash opts db cy =
     (case (choose_relays decode (ro_Relay opts), db, connect_eth Dial hexToHash opts) of
        (Some relays, Connected db, Inr eths) \<Rightarrow> Some (runner_start opts relays eths cy db)
      | _ \<Rightarrow> None)"

section \<open>A latest slot that was not there\<close>

text \<open>An answer without a slot, such as the error document of a rate limit, counts as slot 0; a minimum slot of
  \<open>k\<close> slots before it is then the largest numbers of 64 bits, and the backfill of every relay ends after one page.\<close>

lemma missing_latest_slot:
  assumes "decode body = Inr None" "http_Get ''https://beaconcha.in/api/v1/slot/latest'' = Inr body"
  shows "MustGetLatestSlot http_Get decode = Some 0"
  using assms by (simp add: MustGetLatestSlot_def getJSON_def)

lemma rate_limited_backfill_stops:
  assumes "decode body = Inr None" "http_Get ''https://beaconcha.in/api/v1/slot/latest'' = Inr body"
    and "sint minSlot < 0" "- (2 ^ 62) \<le> sint minSlot"
    and "backfill_round env host url latestInDB (effective_min_slot (the (MustGetLatestSlot http_Get decode)) minSlot) st = (st', r)"
    and "ls_cursorSlot st' < 2 ^ 63"
  shows "r \<noteq> None"
  using negative_min_slot_wraps [of 0 minSlot env host url latestInDB st st' r] assms
  by (simp add: missing_latest_slot)

end
