(* ===== verification/UpdateExtradata.thy ===== *)
theory UpdateExtradata
  imports BackfillRunner
begin

text \<open>
  \<open>cmd/util/update-extradata.go\<close>: the one-off command that fills in the extra data of payloads saved before the
  column existed, from the blocks of one or two nodes.  The nodes and the decoder of hex strings are parameters;
  the ten workers save in some order \<open>sched\<close> of the selected rows.
\<close>

section \<open>The block of a payload\<close>

record rpc_block =
  rb_ExtraData :: string

type_synonym rpc_client = "string \<Rightarrow> bool \<Rightarrow> string + rpc_block option"

text \<open>The second client is a nil pointer when no backup node is given; calling it panics.\<close>

definition rpc_getBlockByHash :: "rpc_client \<Rightarrow> rpc_client option \<Rightarrow> string \<Rightarrow> bool \<Rightarrow> (string + rpc_block option) go_call" where
  "rpc_getBlockByHash client client2 blockHash withTransactions =
     (case client blockHash withTransactions of
        Inr (Some block) \<Rightarrow> Returned (Inr (Some block))
      | _ \<Rightarrow> (case client2 of None \<Rightarrow> Panicked | Some c \<Rightarrow> Returned (c blockHash withTransactions)))"

record extra_env =
  xe_client :: rpc_client
  xe_client2 :: "rpc_client option"
  xe_Decode :: "string \<Rightarrow> string + byte list"
  xe_select_fault :: "sql_error option"
  xe_update_fault :: "i64 \<Rightarrow> sql_error option"
  xe_plan :: "DataAPIPayloadDeliveredEntry list \<Rightarrow> DataAPIPayloadDeliveredEntry list"
  xe_sched :: "DataAPIPayloadDeliveredEntry list \<Rightarrow> DataAPIPayloadDeliveredEntry list"

section \<open>A worker\<close>

datatype extra_result = ExtraUpdate string | ExtraSkip | ExtraFatal | ExtraPanic

definition extra_step :: "extra_env \<Rightarrow> DataAPIPayloadDeliveredEntry \<Rightarrow> extra_result" where
  "extra_step env entry =
     (case rpc_getBlockByHash (xe_client env) (xe_client2 env) (pd_BlockHash entry) True of
        Panicked \<Rightarrow> ExtraPanic
      | Returned (Inl _) \<Rightarrow> ExtraFatal
      | Returned (Inr None) \<Rightarrow> ExtraSkip
      | Returned (Inr (Some block)) \<Rightarrow>
          (case xe_Decode env (rb_ExtraData block) of
             Inl _ \<Rightarrow> ExtraSkip
           | Inr extraDataBytes \<Rightarrow>
               let extra = fst (ExtraDataToUtf8Str extraDataBytes)
               in if extra = [] then ExtraSkip else ExtraUpdate extra))"

definition set_extra :: "i64 \<Rightarrow> string \<Rightarrow> DatabaseService \<Rightarrow> DatabaseService" where
  "set_extra i extra db = db\<lparr>payloads := map (\<lambda>r. if pd_ID r = i then r\<lparr>pd_ExtraData := extra\<rparr> else r) (payloads db)\<rparr>"

text \<open>The entries in the order in which the workers finish them; a fatal error or a panic ends the process.\<close>

fun startBackfillWorker :: "extra_env \<Rightarrow> DataAPIPayloadDeliveredEntry list \<Rightarrow> DatabaseService \<Rightarrow> DatabaseService \<times> run_outcome" where
  "startBackfillWorker env [] db = (db, RunDone)"
| "startBackfillWorker env (entry # entries) db =
     (case extra_step env entry of
        ExtraPanic \<Rightarrow> (db, RunPanic)
      | ExtraFatal \<Rightarrow> (db, RunFatal ''couldn't get block'')
      | ExtraSkip \<Rightarrow> startBackfillWorker env entries db
      | ExtraUpdate extra \<Rightarrow>
          (case xe_update_fault env (pd_ID entry) of
             Some _ \<Rightarrow> (db, RunFatal ''failed to save entry'')
           | None \<Rightarrow> startBackfillWorker env entries (set_extra (pd_ID entry) extra db)))"

section \<open>The command\<close>

definition extra_cutoff :: u64 where
  "extra_cutoff = 4823872"

definition lacks_extra :: "DataAPIPayloadDeliveredEntry \<Rightarrow> bool" where
  "lacks_extra r \<longleftrightarrow> pd_Slot r < extra_cutoff \<and> pd_ExtraData r = []"

definition backfill_extradata :: "extra_env \<Rightarrow> DatabaseService \<Rightarrow> DatabaseService \<times> run_outcome" where
  "backfill_extradata env db =
     (case xe_select_fault env of
        Some e \<Rightarrow> (db, RunFatal ''couldn't get entries'')
      | None \<Rightarrow>
          (let entries = map claim_columns (xe_plan env (filter lacks_extra (payloads db)))
           in if entries = [] then (db, RunDone) else startBackfillWorker env (xe_sched env entries) db))"

section \<open>What the command changes\<close>

definition with_extra :: "extra_env \<Rightarrow> DataAPIPayloadDeliveredEntry \<Rightarrow> DataAPIPayloadDeliveredEntry" where
  "with_extra env r = (case extra_step env r of ExtraUpdate extra \<Rightarrow> r\<lparr>pd_ExtraData := extra\<rparr> | _ \<Rightarrow> r)"

lemma extra_step_claim_columns [simp]: "extra_step env (claim_columns r) = extra_step env r"
  and pd_ID_claim_columns [simp]: "pd_ID (claim_columns r) = pd_ID r"
  by (simp_all add: extra_step_def claim_columns_def)

lemma pd_ID_with_extra [simp]: "pd_ID (with_extra env r) = pd_ID r"
  by (simp add: with_extra_def split: extra_result.splits)

text \<open>A run over entries with different ids sets the extra data of each row that has the id of an entry.\<close>

lemma startBackfillWorker_rows:
  assumes "startBackfillWorker env (map claim_columns es) db = (db', RunDone)" and "distinct (map pd_ID es)"
    and "distinct (map pd_ID (payloads db))" "set es \<subseteq> set (payloads db)"
  shows "payloads db' = map (\<lambda>r. if r \<in> set es then with_extra env r else r) (payloads db)"
  using assms
proof (induction es arbitrary: db)
  case (Cons e es)
  have inj: "r = e" if "r \<in> set (payloads db)" "pd_ID r = pd_ID e" for r
    using that Cons.prems(3,4) by (auto simp: distinct_map dest: inj_onD)
  show ?case
  proof (cases "extra_step env e")
    case (ExtraUpdate extra)
    let ?db1 = "set_extra (pd_ID e) extra db"
    have rows: "payloads ?db1 = map (\<lambda>r. if r = e then with_extra env e else r) (payloads db)"
      using inj by (auto simp: set_extra_def with_extra_def ExtraUpdate)
    have run: "startBackfillWorker env (map claim_columns es) ?db1 = (db', RunDone)"
      using Cons.prems(1) ExtraUpdate by (auto split: option.splits)
    have ids: "distinct (map pd_ID (payloads ?db1))"
    proof -
      have "map pd_ID (payloads ?db1) = map pd_ID (payloads db)" unfolding rows by simp
      then show ?thesis using Cons.prems(3) by simp
    qed
    have "pd_ID (with_extra env e) \<notin> pd_ID ` set es" using Cons.prems(2) by simp
    then have es: "e \<notin> set es" "with_extra env e \<notin> set es"
      using Cons.prems(2) imageI [of "with_extra env e" "set es" pd_ID] by auto
    have "set es \<subseteq> set (payloads ?db1)" unfolding rows using Cons.prems(4) es(1) by auto
    from Cons.IH [OF run _ ids this] Cons.prems(2)
    have "payloads db' = map (\<lambda>r. if r \<in> set es then with_extra env r else r) (payloads ?db1)" by simp
    then show ?thesis unfolding rows using es by auto
  next
    case ExtraSkip
    then have "with_extra env e = e" by (simp add: with_extra_def)
    moreover have "payloads db' = map (\<lambda>r. if r \<in> set es then with_extra env r else r) (payloads db)"
      using Cons.IH [of db] Cons.prems ExtraSkip by simp
    ultimately show ?thesis by auto
  qed (use Cons.prems in simp_all)
qed simp

lemma mset_map_rows:
  "mset xs = image_mset f (mset rows) \<Longrightarrow> \<exists>es. xs = map f es \<and> mset es = mset rows"
proof (induction xs arbitrary: rows)
  case (Cons x xs)
  then have "x \<in># image_mset f (mset rows)" by (metis list.set_intros(1) set_mset_mset)
  then obtain r where r: "r \<in> set rows" "f r = x" by auto
  then have rows: "mset rows = add_mset r (mset (remove1 r rows))" by simp
  then have "image_mset f (mset rows) = add_mset x (image_mset f (mset (remove1 r rows)))" using r(2) by (metis image_mset_add_mset)
  then have "mset xs = image_mset f (mset (remove1 r rows))" using Cons.prems by simp
  from Cons.IH [OF this] r(2) rows show ?case by (metis list.simps(9) mset.simps(2))
qed simp

lemma sched_rows:
  assumes "row_order plan" "row_order sched"
  shows "\<exists>es. sched (map claim_columns (plan rows)) = map claim_columns es \<and> mset es = mset rows"
proof (rule mset_map_rows)
  show "mset (sched (map claim_columns (plan rows))) = image_mset claim_columns (mset rows)"
    using assms by (simp add: row_order_def)
qed

text \<open>C30. The result of a run that ends is the same in whatever order the workers finish: every row that lacks its
  extra data gets what its block says, and keeps the empty text when the block is unknown, cannot be decoded or has
  nothing to say; every other row and every other column is unchanged.\<close>

theorem backfill_extradata_rows:
  assumes "backfill_extradata env db = (db', RunDone)"
    and "distinct (map pd_ID (payloads db))" "row_order (xe_plan env)" "row_order (xe_sched env)"
  shows "payloads db' = map (\<lambda>r. if lacks_extra r then with_extra env r else r) (payloads db)"
proof (cases "xe_plan env (filter lacks_extra (payloads db)) = []")
  case True
  then have "mset (filter lacks_extra (payloads db)) = {#}"
    using assms(3) unfolding row_order_def by (metis mset.simps(1))
  then have "\<forall>r \<in> set (payloads db). \<not> lacks_extra r" by (simp add: filter_empty_conv)
  moreover have "db' = db" using assms(1) True by (auto simp: backfill_extradata_def split: option.splits)
  ultimately show ?thesis by (simp add: map_idI)
next
  case False
  obtain es where es: "xe_sched env (map claim_columns (xe_plan env (filter lacks_extra (payloads db)))) = map claim_columns es"
      "mset es = mset (filter lacks_extra (payloads db))"
    using sched_rows [OF assms(3,4)] by blast
  have run: "startBackfillWorker env (map claim_columns es) db = (db', RunDone)"
    using assms(1) False es(1) by (auto simp: backfill_extradata_def Let_def split: option.splits)
  have set_es: "set es = set (filter lacks_extra (payloads db))" by (rule mset_eq_setD [OF es(2)])
  have "mset (map pd_ID es) = mset (map pd_ID (filter lacks_extra (payloads db)))" using es(2) by simp
  then have "distinct (map pd_ID es)"
    using mset_eq_imp_distinct_iff assms(2) by (metis distinct_map_filter)
  from startBackfillWorker_rows [OF run this assms(2)] show ?thesis by (simp add: set_es cong: map_cong)
qed

text \<open>A missing backup node turns the first block the main node does not know into a nil dereference.\<close>

lemma extra_step_no_backup:
  "xe_client2 env = None \<Longrightarrow> xe_client env (pd_BlockHash entry) True = Inr None \<Longrightarrow> extra_step env entry = ExtraPanic"
  by (simp add: extra_step_def rpc_getBlockByHash_def)

lemma set_extra_keeps: "keeps_history db (set_extra i extra db)"
proof -
  have "map delivered_columns (payloads (set_extra i extra db)) = map delivered_columns (payloads db)"
    and "map payload_key (payloads (set_extra i extra db)) = map payload_key (payloads db)"
    by (simp_all add: set_extra_def delivered_columns_def update_checked_def payload_key_def)
  then show ?thesis by (simp add: keeps_history_def)
qed

interpretation extra_writer: history_writer "\<lambda>(i, extra). set_extra i extra"
  by unfold_locales (auto simp: set_extra_keeps)

definition example_extra :: extra_env where
  "example_extra = \<lparr>xe_client = (\<lambda>h full. Inr (Some \<lparr>rb_ExtraData = ''0x6869''\<rparr>)), xe_client2 = None,
     xe_Decode = (\<lambda>s. Inr [0x68, 0x69]), xe_select_fault = None, xe_update_fault = (\<lambda>_. None),
     xe_plan = (\<lambda>rows. rows), xe_sched = (\<lambda>rows. rows)\<rparr>"

theorem backfill_extradata_rows_witness:
  "payloads (fst (backfill_extradata example_extra example_table)) =
   map (\<lambda>r. if lacks_extra r then with_extra example_extra r else r) (payloads example_table) \<and>
   map pd_ExtraData (payloads (fst (backfill_extradata example_extra example_table))) = [''hi'']"
proof -
  have utf8: "fst (ExtraDataToUtf8Str [0x68, 0x69]) = ''hi''" by code_simp
  have run: "snd (backfill_extradata example_extra example_table) = RunDone"
    and hi: "map pd_ExtraData (payloads (fst (backfill_extradata example_extra example_table))) = [''hi'']"
    by (simp_all add: backfill_extradata_def example_extra_def example_table_def example_claim_def example_payload_def zero_payload_def
        lacks_extra_def extra_cutoff_def extra_step_def rpc_getBlockByHash_def claim_columns_def utf8 set_extra_def empty_db_def)
  then have "backfill_extradata example_extra example_table = (fst (backfill_extradata example_extra example_table), RunDone)"
    by (simp add: prod_eq_iff)
  from backfill_extradata_rows [OF this] hi show ?thesis
    by (simp add: example_extra_def row_order_def) (simp add: example_table_def)
qed

end
