(* ===== verification/SiteGenerator.thy ===== *)
theory SiteGenerator
  imports GoPath
begin

text \<open>
  The generator of the file listing site: \<open>services/bidcollect/website/generator.go\<close> and \<open>htmldata.go\<close>.
  The shell scripts, the file system, the templates and the minifier are the environment; what the code does
  with their answers, the listing it parses, the pages it writes and what it uploads in which order, is modelled.
\<close>

section \<open>Reading numbers and white space\<close>

text \<open>\<open>strconv.ParseUint(s, 10, 64)\<close>.\<close>

definition strconv_ParseUint :: "string \<Rightarrow> u64 option" where
  "strconv_ParseUint s =
     (if s \<noteq> [] \<and> (\<forall>c \<in> set s. is_digit c) \<and> digits_val s < 2 ^ 64 then Some (of_nat (digits_val s)) else None)"

text \<open>The class \<open>\s\<close> of Go's regular expressions, and the replacement of every run of it by one space.\<close>

definition regexp_space :: "char \<Rightarrow> bool" where
  "regexp_space c \<longleftrightarrow> c \<in> {CHR 0x09, CHR 0x0A, CHR 0x0C, CHR 0x0D, CHR '' ''}"

function collapse_space :: "string \<Rightarrow> string" where
  "collapse_space [] = []"
| "collapse_space (c # cs) =
     (if regexp_space c then CHR '' '' # collapse_space (dropWhile regexp_space cs) else c # collapse_space cs)"
  by pat_completeness auto
termination by (relation "measure length") (simp_all add: le_imp_less_Suc length_dropWhile_le)

lemma strconv_ParseUint_nat_str: "strconv_ParseUint (nat_str n) = (if n < 2 ^ 64 then Some (of_nat n) else None)"
  by (simp add: strconv_ParseUint_def nat_str_digits)

lemma collapse_space_word: "(\<forall>c \<in> set w. \<not> regexp_space c) \<Longrightarrow> collapse_space (w @ s) = w @ collapse_space s"
  by (induction w) auto

lemma collapse_space_run:
  assumes "regexp_space c" "\<forall>b \<in> set pad. regexp_space b" "s = [] \<or> \<not> regexp_space (hd s)"
  shows "collapse_space (c # pad @ s) = CHR '' '' # collapse_space s"
proof -
  have "dropWhile regexp_space s = s" using assms(3) by (cases s) auto
  then show ?thesis using assms(1,2) by (simp add: dropWhile_append2)
qed

section \<open>The listing of a folder\<close>

record FileEntry =
  fe_Filename :: string
  fe_Size :: u64
  fe_Modified :: string

datatype shell_error = ErrCommand string | ErrParseUint string

text \<open>What running a script gives: its error, or what it wrote on the standard output.\<close>

type_synonym shell = "string \<Rightarrow> string list \<Rightarrow> string + string"

definition getFoldersFromS3 :: "shell \<Rightarrow> string \<Rightarrow> string list \<times> shell_error option" where
  "getFoldersFromS3 exec dir =
     (case exec ''./scripts/bidcollect/s3/get-folders.sh'' [dir] of
        Inl e \<Rightarrow> ([], Some (ErrCommand e))
      | Inr stdout \<Rightarrow>
          (map (\<lambda>line. strings_TrimSuffix line ''/'')
             (filter (\<lambda>line. line \<noteq> [] \<and> strings_HasPrefix line ''20'') (strings_Split stdout (CHR 0x0A))), None))"

text \<open>One line of the listing.  Indexing the fields of a short line panics.\<close>

datatype line_result = LineSkip | LineEntry FileEntry | LineError shell_error | LinePanic

definition skipped_file :: "string \<Rightarrow> bool" where
  "skipped_file filename \<longleftrightarrow> filename = ''index.html'' \<or> strings_HasSuffix filename ''.csv.gz''"

definition file_line :: "string \<Rightarrow> line_result" where
  "file_line line =
     (let parts = strings_Split (collapse_space line) (CHR '' '')
      in if length parts \<le> 2 then LinePanic
         else case strconv_ParseUint (parts ! 2) of
           None \<Rightarrow> LineError (ErrParseUint (parts ! 2))
         | Some sz \<Rightarrow>
             if length parts \<le> 3 then LinePanic
             else let filename = parts ! 3
                  in if skipped_file filename then LineSkip
                     else LineEntry \<lparr>fe_Filename = filename, fe_Size = sz, fe_Modified = parts ! 1 @ '' '' @ parts ! 0\<rparr>)"

datatype listing = Listing "FileEntry list" "shell_error option" | ListingPanic

fun file_lines :: "string list \<Rightarrow> FileEntry list \<Rightarrow> listing" where
  "file_lines [] files = Listing files None"
| "file_lines (line # lines) files =
     (if line = [] then file_lines lines files
      else case file_line line of
        LineSkip \<Rightarrow> file_lines lines files
      | LineEntry e \<Rightarrow> file_lines lines (files @ [e])
      | LineError e \<Rightarrow> Listing files (Some e)
      | LinePanic \<Rightarrow> ListingPanic)"

definition getFilesFromS3 :: "shell \<Rightarrow> string \<Rightarrow> listing" where
  "getFilesFromS3 exec month =
     (case exec ''./scripts/bidcollect/s3/get-files.sh'' [month] of
        Inl e \<Rightarrow> Listing [] (Some (ErrCommand e))
      | Inr stdout \<Rightarrow> file_lines (strings_Split stdout (CHR 0x0A)) [])"

section \<open>What a listing contains\<close>

text \<open>The entries a page can show: no index page, no compressed file, and no white space in the file name.\<close>

definition entry_ok :: "FileEntry \<Rightarrow> bool" where
  "entry_ok e \<longleftrightarrow> \<not> skipped_file (fe_Filename e) \<and> (\<forall>c \<in> set (fe_Filename e). \<not> regexp_space c) \<and>
     CHR '' '' \<in> set (fe_Modified e)"

lemma collapse_space_chars: "c \<in> set (collapse_space s) \<Longrightarrow> \<not> regexp_space c \<or> c = CHR '' ''"
  by (induction s rule: collapse_space.induct) (auto split: if_splits)

lemma strings_Split_part_chars:
  assumes "p \<in> set (strings_Split s sep)"
  shows "set p \<subseteq> set s - {sep}"
  using assms
proof (induction s arbitrary: p)
  case (Cons c s)
  show ?case
  proof (cases "strings_Split s sep")
    case Nil
    then show ?thesis by simp
  next
    case (Cons x xs)
    then show ?thesis using Cons.IH [of p] Cons.IH [of x] Cons.prems by (auto split: if_splits)
  qed
qed simp

lemma file_line_ok: "file_line line = LineEntry e \<Longrightarrow> entry_ok e"
proof -
  define parts where "parts = strings_Split (collapse_space line) (CHR '' '')"
  assume "file_line line = LineEntry e"
  then have "length parts > 3" "fe_Filename e = parts ! 3" "\<not> skipped_file (parts ! 3)" "CHR '' '' \<in> set (fe_Modified e)"
    by (auto simp: file_line_def Let_def parts_def [symmetric] split: if_splits option.splits)
  moreover from this have "set (parts ! 3) \<subseteq> set (collapse_space line) - {CHR '' ''}"
    unfolding parts_def by (intro strings_Split_part_chars nth_mem)
  ultimately show ?thesis using collapse_space_chars [of _ line] by (auto simp: entry_ok_def)
qed

lemma file_lines_ok:
  assumes "file_lines lines files = Listing files' err" and "\<forall>e \<in> set files. entry_ok e"
  shows "\<forall>e \<in> set files'. entry_ok e"
  using assms
proof (induction lines arbitrary: files)
  case (Cons line lines)
  show ?case
  proof (cases "line = []")
    case True
    then show ?thesis using Cons.IH [of files] Cons.prems by simp
  next
    case False
    show ?thesis
    proof (cases "file_line line")
      case LineSkip
      show ?thesis by (rule Cons.IH [of files]) (use Cons.prems False LineSkip in simp_all)
    next
      case (LineEntry e)
      have "entry_ok e" by (rule file_line_ok [OF LineEntry])
      then show ?thesis by (intro Cons.IH [of "files @ [e]"]) (use Cons.prems False LineEntry in simp_all)
    qed (use Cons.prems False in simp_all)
  qed
qed simp

section \<open>The format of the listing\<close>

text \<open>\<open>aws s3 ls\<close> prints a line for each object: the date and the time of the last change, the size, padded on
  the left, and the name.\<close>

definition word :: "string \<Rightarrow> bool" where
  "word w \<longleftrightarrow> w \<noteq> [] \<and> (\<forall>c \<in> set w. \<not> regexp_space c)"

record listed =
  li_date :: string
  li_time :: string
  li_pad :: nat
  li_size :: nat
  li_name :: string

definition listed_line :: "listed \<Rightarrow> string" where
  "listed_line l = li_date l @ '' '' @ li_time l @ '' '' @ replicate (li_pad l) (CHR '' '') @ nat_str (li_size l) @ '' '' @ li_name l"

definition listed_ok :: "listed \<Rightarrow> bool" where
  "listed_ok l \<longleftrightarrow> word (li_date l) \<and> word (li_time l) \<and> word (li_name l) \<and> li_size l < 2 ^ 64"

definition listed_entry :: "listed \<Rightarrow> FileEntry" where
  "listed_entry l = \<lparr>fe_Filename = li_name l, fe_Size = of_nat (li_size l), fe_Modified = li_time l @ '' '' @ li_date l\<rparr>"

lemma digit_no_space: "is_digit c \<Longrightarrow> \<not> regexp_space c"
  by (auto simp: regexp_space_def is_digit_def)

lemma collapse_field:
  assumes "word w" "word v"
  shows "collapse_space (w @ CHR '' '' # replicate n (CHR '' '') @ v @ s) = w @ CHR '' '' # collapse_space (v @ s)"
proof -
  have "\<not> regexp_space (hd (v @ s))" using assms(2) by (simp add: word_def)
  then show ?thesis
    using assms(1) collapse_space_run [of "CHR '' ''" "replicate n (CHR '' '')" "v @ s"]
    by (simp add: word_def collapse_space_word regexp_space_def)
qed

lemma split_field: "word w \<Longrightarrow> strings_Split (w @ CHR '' '' # s) (CHR '' '') = w # strings_Split s (CHR '' '')"
  by (rule strings_Split_append) (auto simp: word_def regexp_space_def)

lemma split_listed_line:
  assumes "listed_ok l"
  shows "strings_Split (collapse_space (listed_line l)) (CHR '' '') = [li_date l, li_time l, nat_str (li_size l), li_name l]"
proof -
  have w: "word (li_date l)" "word (li_time l)" "word (li_name l)" "word (nat_str (li_size l))"
    using assms by (simp_all add: listed_ok_def) (simp add: word_def digit_no_space nat_str_digits)
  have "collapse_space (listed_line l) = li_date l @ CHR '' '' # li_time l @ CHR '' '' # nat_str (li_size l) @ CHR '' '' # li_name l"
    using collapse_field [OF w(1) w(2), of 0] collapse_field [OF w(2) w(4), of "li_pad l"] collapse_field [OF w(4) w(3), of 0 "[]"]
      collapse_space_word [of "li_name l" "[]"] w(3)
    by (simp add: listed_line_def word_def)
  moreover have "strings_Split (li_name l) (CHR '' '') = [li_name l]"
    using w(3) by (intro strings_Split_no_sep) (auto simp: word_def regexp_space_def)
  ultimately show ?thesis using w by (simp add: split_field)
qed

lemma file_line_listed:
  "listed_ok l \<Longrightarrow> file_line (listed_line l) = (if skipped_file (li_name l) then LineSkip else LineEntry (listed_entry l))"
  by (simp add: file_line_def split_listed_line Let_def strconv_ParseUint_nat_str listed_ok_def listed_entry_def)

lemma listed_line_nonempty: "listed_line l \<noteq> []"
  by (simp add: listed_line_def)

lemma listed_line_no_newline:
  assumes "listed_ok l"
  shows "CHR 0x0A \<notin> set (listed_line l)"
proof -
  have "CHR 0x0A \<notin> set w" if "word w" for w using that by (auto simp: word_def regexp_space_def)
  then show ?thesis using assms by (simp add: listed_ok_def listed_line_def nat_str_no_char)
qed

lemma file_lines_listed:
  "\<forall>l \<in> set ls. listed_ok l \<Longrightarrow>
   file_lines (map listed_line ls @ [[]]) files = Listing (files @ map listed_entry (filter (\<lambda>l. \<not> skipped_file (li_name l)) ls)) None"
  by (induction ls arbitrary: files) (simp_all add: file_line_listed listed_line_nonempty)

text \<open>C28. The generator reads back what the storage lists: from a well-formed listing, however wide its size column is,
  it gets exactly the listed files that are neither an index page nor compressed, with their name, size and time of
  change, in the order of the listing.\<close>

theorem getFilesFromS3_reads_listing:
  assumes "exec ''./scripts/bidcollect/s3/get-files.sh'' [month] = Inr (concat (map (\<lambda>l. listed_line l @ [CHR 0x0A]) ls))"
    and "\<forall>l \<in> set ls. listed_ok l"
  shows "getFilesFromS3 exec month = Listing (map listed_entry (filter (\<lambda>l. \<not> skipped_file (li_name l)) ls)) None"
proof -
  have "CHR 0x0A \<notin> set (listed_line l)" if "l \<in> set ls" for l
    using assms(2) that listed_line_no_newline by blast
  then have "strings_Split (concat (map (\<lambda>l. listed_line l @ [CHR 0x0A]) ls)) (CHR 0x0A) = map listed_line ls @ [[]]"
    by (induction ls) (simp_all add: strings_Split_append)
  then show ?thesis using assms file_lines_listed [of ls "[]"] by (simp add: getFilesFromS3_def)
qed

definition example_listed :: "listed list" where
  "example_listed =
     [\<lparr>li_date = ''2023-09-02'', li_time = ''02:02:23'', li_pad = 2, li_size = 97210, li_name = ''2023-08-29_all.csv.zip''\<rparr>,
      \<lparr>li_date = ''2023-09-02'', li_time = ''02:02:23'', li_pad = 4, li_size = 972, li_name = ''index.html''\<rparr>]"

theorem getFilesFromS3_reads_listing_witness:
  "getFilesFromS3 (\<lambda>app args. Inr (concat (map (\<lambda>l. listed_line l @ [CHR 0x0A]) example_listed))) ''ethereum/mainnet/2023-08/'' =
   Listing [\<lparr>fe_Filename = ''2023-08-29_all.csv.zip'', fe_Size = 97210, fe_Modified = ''02:02:23 2023-09-02''\<rparr>] None"
proof -
  have "\<forall>l \<in> set example_listed. listed_ok l"
    by (simp add: example_listed_def listed_ok_def word_def regexp_space_def)
  from getFilesFromS3_reads_listing [OF refl this, of "''ethereum/mainnet/2023-08/''"]
  show ?thesis by (simp add: example_listed_def listed_entry_def skipped_file_def strings_HasSuffix_def)
qed



text \<open>A folder name in the listing (\<open>PRE 2023-08/\<close>) is an error, a line of fewer fields a panic.\<close>

lemma file_line_folder: "file_line ''                           PRE 2023-08/'' = LineError (ErrParseUint ''2023-08/'')"
  by (simp add: file_line_def regexp_space_def strconv_ParseUint_def is_digit_def)

lemma file_line_short: "file_line ''nothing'' = LinePanic"
  by (simp add: file_line_def regexp_space_def)

section \<open>The pages\<close>

record HTMLData =
  hd_Title :: string
  hd_Path :: string
  hd_EthMainnetMonths :: "string list"
  hd_CurrentNetwork :: string
  hd_CurrentMonth :: string
  hd_Files :: "FileEntry list"

text \<open>The template function \<open>substr10\<close>; \<open>None\<close> is the panic of slicing a short string.\<close>

definition substr10 :: "string \<Rightarrow> string option" where
  "substr10 s = (if length s < 10 then None else Some (take 10 s))"

text \<open>A parsed template is the function that executes it.  Directories and files report an error or nothing.\<close>

record build_env =
  bs_exec :: shell
  bs_MkdirAll :: "string \<Rightarrow> string option"
  bs_ParseIndexTemplate :: "string + (HTMLData \<Rightarrow> string + string)"
  bs_ParseFilesTemplate :: "string + (HTMLData \<Rightarrow> string + string)"
  bs_minify :: "string \<Rightarrow> string + string"
  bs_WriteFile :: "string \<Rightarrow> string \<Rightarrow> string option"

record site_files =
  sf_written :: "(string \<times> string) list"
  sf_uploaded :: "(string \<times> string) list"

text \<open>Every error is \<open>log.Fatal\<close>: the process ends with what is written and uploaded so far.\<close>

datatype build_stop = BuildFatal | BuildPanic

definition render_page :: "build_env \<Rightarrow> string + (HTMLData \<Rightarrow> string + string) \<Rightarrow> HTMLData \<Rightarrow> string option" where
  "render_page env template data =
     (case template of Inl _ \<Rightarrow> None
      | Inr tpl \<Rightarrow> (case tpl data of Inl _ \<Rightarrow> None
          | Inr buf \<Rightarrow> (case bs_minify env buf of Inl _ \<Rightarrow> None | Inr mBytes \<Rightarrow> Some mBytes)))"

definition write_page :: "build_env \<Rightarrow> string \<Rightarrow> string \<Rightarrow> site_files \<Rightarrow> site_files \<times> build_stop option" where
  "write_page env fn mBytes site =
     (case bs_WriteFile env fn mBytes of
        Some _ \<Rightarrow> (site, Some BuildFatal)
      | None \<Rightarrow> (site\<lparr>sf_written := sf_written site @ [(fn, mBytes)]\<rparr>, None))"

definition month_dir :: "string \<Rightarrow> string" where
  "month_dir month = ''ethereum/mainnet/'' @ month @ ''/''"

definition root_data :: "string list \<Rightarrow> HTMLData" where
  "root_data months = \<lparr>hd_Title = [], hd_Path = ''/index.html'', hd_EthMainnetMonths = months,
     hd_CurrentNetwork = [], hd_CurrentMonth = [], hd_Files = []\<rparr>"

definition month_data :: "string \<Rightarrow> FileEntry list \<Rightarrow> HTMLData" where
  "month_data month files = \<lparr>hd_Title = month, hd_Path = ''ethereum/mainnet/'' @ month @ ''/index.html'', hd_EthMainnetMonths = [],
     hd_CurrentNetwork = ''Ethereum Mainnet'', hd_CurrentMonth = month, hd_Files = files\<rparr>"

definition month_file :: "string \<Rightarrow> string \<Rightarrow> string" where
  "month_file outDir month = filepath_Join [filepath_Join [outDir, month_dir month], ''index.html'']"

definition month_page :: "build_env \<Rightarrow> string \<Rightarrow> string \<Rightarrow> site_files \<Rightarrow> site_files \<times> build_stop option" where
  "month_page env outDir month site =
     (case getFilesFromS3 (bs_exec env) (month_dir month) of
        ListingPanic \<Rightarrow> (site, Some BuildPanic)
      | Listing _ (Some _) \<Rightarrow> (site, Some BuildFatal)
      | Listing files None \<Rightarrow>
          (case render_page env (bs_ParseFilesTemplate env) (month_data month files) of
             None \<Rightarrow> (site, Some BuildFatal)
           | Some mBytes \<Rightarrow>
               if bs_MkdirAll env (filepath_Join [outDir, month_dir month]) \<noteq> None then (site, Some BuildFatal)
               else write_page env (month_file outDir month) mBytes site))"

text \<open>The loops over the months and over the uploads; the list of uploads grows by a pair for each page.\<close>

fun month_pages :: "build_env \<Rightarrow> string \<Rightarrow> string list \<Rightarrow> (string \<times> string) list \<Rightarrow> site_files \<Rightarrow>
    site_files \<times> (build_stop + (string \<times> string) list)" where
  "month_pages env outDir [] toUpload site = (site, Inr toUpload)"
| "month_pages env outDir (month # months) toUpload site =
     (case month_page env outDir month site of
        (site', Some stop) \<Rightarrow> (site', Inl stop)
      | (site', None) \<Rightarrow> month_pages env outDir months (toUpload @ [(month_file outDir month, ''/'' @ month_dir month)]) site')"

fun upload_all :: "build_env \<Rightarrow> (string \<times> string) list \<Rightarrow> site_files \<Rightarrow> site_files \<times> build_stop option" where
  "upload_all env [] site = (site, None)"
| "upload_all env ((src, to) # files) site =
     (case bs_exec env ''./scripts/bidcollect/s3/upload-file-to-r2.sh'' [src, to] of
        Inl _ \<Rightarrow> (site, Some BuildFatal)
      | Inr _ \<Rightarrow> upload_all env files (site\<lparr>sf_uploaded := sf_uploaded site @ [(src, to)]\<rparr>))"

definition root_file :: "string \<Rightarrow> string" where
  "root_file outDir = filepath_Join [outDir, ''index.html'']"

definition BuildProdWebsite :: "build_env \<Rightarrow> string \<Rightarrow> bool \<Rightarrow> site_files \<times> build_stop option" where
  "BuildProdWebsite env outDir upload =
     (let site = \<lparr>sf_written = [], sf_uploaded = []\<rparr> in
      if bs_MkdirAll env outDir \<noteq> None then (site, Some BuildFatal)
      else case getFoldersFromS3 (bs_exec env) ''ethereum/mainnet/'' of
        (months, Some _) \<Rightarrow> (site, Some BuildFatal)
      | (months, None) \<Rightarrow>
         (case render_page env (bs_ParseIndexTemplate env) (root_data months) of
            None \<Rightarrow> (site, Some BuildFatal)
          | Some mBytes \<Rightarrow>
             (case write_page env (root_file outDir) mBytes site of
                (site, Some stop) \<Rightarrow> (site, Some stop)
              | (site, None) \<Rightarrow>
                 (case month_pages env outDir months [(root_file outDir, ''/'')] site of
                    (site, Inl stop) \<Rightarrow> (site, Some stop)
                  | (site, Inr toUpload) \<Rightarrow> if upload then upload_all env toUpload site else (site, None)))))"

section \<open>What is built and uploaded\<close>

definition month_target :: "string \<Rightarrow> string \<Rightarrow> string \<times> string" where
  "month_target outDir month = (month_file outDir month, ''/'' @ month_dir month)"

text \<open>The page of a month shows the files the storage lists for it.\<close>

definition month_written :: "build_env \<Rightarrow> string \<Rightarrow> string \<Rightarrow> string \<times> string \<Rightarrow> bool" where
  "month_written env outDir month page \<longleftrightarrow> fst page = month_file outDir month \<and>
     (\<exists>files. getFilesFromS3 (bs_exec env) (month_dir month) = Listing files None \<and>
        render_page env (bs_ParseFilesTemplate env) (month_data month files) = Some (snd page))"

lemma month_page_cases:
  obtains stop where "month_page env outDir month site = (site, Some stop)"
  | page where "month_page env outDir month site = (site\<lparr>sf_written := sf_written site @ [page]\<rparr>, None)" "month_written env outDir month page"
proof (cases "snd (month_page env outDir month site)")
  case (Some stop)
  then have "month_page env outDir month site = (site, Some stop)"
    by (auto simp: month_page_def write_page_def split: listing.splits option.splits if_splits)
  then show ?thesis by (rule that(1))
next
  case None
  then obtain files mBytes where "getFilesFromS3 (bs_exec env) (month_dir month) = Listing files None"
      "render_page env (bs_ParseFilesTemplate env) (month_data month files) = Some mBytes"
      "month_page env outDir month site = (site\<lparr>sf_written := sf_written site @ [(month_file outDir month, mBytes)]\<rparr>, None)"
    by (auto simp: month_page_def write_page_def split: listing.splits option.splits if_splits)
  then show ?thesis using that(2) by (auto simp: month_written_def)
qed

lemma month_pages_facts:
  assumes "month_pages env outDir months toUpload site = (site', res)"
  shows "\<exists>pages ms. prefix ms months \<and> sf_written site' = sf_written site @ pages \<and> list_all2 (month_written env outDir) ms pages \<and>
    sf_uploaded site' = sf_uploaded site \<and> (\<forall>up. res = Inr up \<longrightarrow> ms = months \<and> up = toUpload @ map (month_target outDir) months)"
  using assms
proof (induction months arbitrary: toUpload site)
  case Nil
  then show ?case by (auto intro!: exI [of _ "[]"])
next
  case (Cons month months)
  show ?case
  proof (cases rule: month_page_cases [of env outDir month site])
    case (1 stop)
    then show ?thesis using Cons.prems by (auto intro!: exI [of _ "[]"])
  next
    case (2 page)
    have "month_pages env outDir months (toUpload @ [month_target outDir month]) (site\<lparr>sf_written := sf_written site @ [page]\<rparr>) = (site', res)"
      using Cons.prems 2(1) by (simp add: month_target_def)
    from Cons.IH [OF this]
    obtain pages ms where "prefix ms months" "sf_written site' = (sf_written site @ [page]) @ pages" "list_all2 (month_written env outDir) ms pages"
        "sf_uploaded site' = sf_uploaded site"
        "\<forall>up. res = Inr up \<longrightarrow> ms = months \<and> up = (toUpload @ [month_target outDir month]) @ map (month_target outDir) months"
      by auto
    then show ?thesis using 2(2) by (intro exI [of _ "page # pages"] exI [of _ "month # ms"]) auto
  qed
qed

lemma upload_all_facts:
  assumes "upload_all env files site = (site', stop)"
  shows "sf_written site' = sf_written site \<and>
    (\<exists>sent. prefix sent files \<and> sf_uploaded site' = sf_uploaded site @ sent \<and> (stop = None \<longrightarrow> sent = files))"
  using assms
proof (induction env files site rule: upload_all.induct)
  case (2 env src to files site)
  show ?case
  proof (cases "bs_exec env ''./scripts/bidcollect/s3/upload-file-to-r2.sh'' [src, to]")
    case (Inl e)
    with 2 show ?thesis by auto
  next
    case (Inr out)
    with 2 obtain sent where "prefix sent files" "sf_written site' = sf_written site"
        "sf_uploaded site' = sf_uploaded site @ (src, to) # sent" "stop = None \<longrightarrow> sent = files"
      by auto
    then show ?thesis by (auto intro!: exI [of _ "(src, to) # sent"])
  qed
qed simp

text \<open>C26. A build that succeeds has written the root page and the page of every month, each showing what the storage
  lists for the month, and has uploaded all of them, or nothing if it was not asked to.\<close>

theorem BuildProdWebsite_complete:
  assumes "BuildProdWebsite env outDir upload = (site, None)"
  shows "\<exists>months root pages. getFoldersFromS3 (bs_exec env) ''ethereum/mainnet/'' = (months, None) \<and>
    render_page env (bs_ParseIndexTemplate env) (root_data months) = Some root \<and>
    sf_written site = (root_file outDir, root) # pages \<and> list_all2 (month_written env outDir) months pages \<and>
    sf_uploaded site = (if upload then (root_file outDir, ''/'') # map (month_target outDir) months else [])"
proof -
  let ?root = "\<lparr>sf_written = [], sf_uploaded = []\<rparr>"
  obtain months root site1 up where
      folders: "getFoldersFromS3 (bs_exec env) ''ethereum/mainnet/'' = (months, None)"
      and root: "render_page env (bs_ParseIndexTemplate env) (root_data months) = Some root"
      and pages: "month_pages env outDir months [(root_file outDir, ''/'')] \<lparr>sf_written = [(root_file outDir, root)], sf_uploaded = []\<rparr> = (site1, Inr up)"
      and up: "(if upload then upload_all env up site1 else (site1, None)) = (site, None)"
    using assms by (auto simp: BuildProdWebsite_def write_page_def Let_def split: if_splits prod.splits option.splits sum.splits)
  from month_pages_facts [OF pages] obtain written where
      "sf_written site1 = (root_file outDir, root) # written" "list_all2 (month_written env outDir) months written"
      "sf_uploaded site1 = []" "up = (root_file outDir, ''/'') # map (month_target outDir) months"
    by auto
  moreover have "sf_written site = sf_written site1 \<and> sf_uploaded site = (if upload then up else sf_uploaded site1)"
    using up upload_all_facts [of env up site1 site None] \<open>sf_uploaded site1 = []\<close> by (cases upload) auto
  ultimately show ?thesis using folders root by auto
qed

definition example_build :: build_env where
  "example_build = \<lparr>bs_exec = (\<lambda>app args. Inr (if app = ''./scripts/bidcollect/s3/get-folders.sh'' then ''2023-08/'' else [])),
     bs_MkdirAll = (\<lambda>_. None), bs_ParseIndexTemplate = Inr (\<lambda>d. Inr (concat (hd_EthMainnetMonths d))),
     bs_ParseFilesTemplate = Inr (\<lambda>d. Inr (hd_Title d)), bs_minify = Inr, bs_WriteFile = (\<lambda>_ _. None)\<rparr>"

theorem BuildProdWebsite_complete_witness:
  "\<exists>site months root pages. BuildProdWebsite example_build ''build'' True = (site, None) \<and>
    getFoldersFromS3 (bs_exec example_build) ''ethereum/mainnet/'' = (months, None) \<and>
    render_page example_build (bs_ParseIndexTemplate example_build) (root_data months) = Some root \<and>
    sf_written site = (root_file ''build'', root) # pages \<and> list_all2 (month_written example_build ''build'') months pages \<and>
    sf_uploaded site = (if True then (root_file ''build'', ''/'') # map (month_target ''build'') months else [])"
proof -
  have "snd (BuildProdWebsite example_build ''build'' True) = None"
    by (simp add: BuildProdWebsite_def example_build_def getFoldersFromS3_def getFilesFromS3_def render_page_def write_page_def
        month_page_def strings_HasPrefix_def strings_TrimSuffix_def strings_HasSuffix_def Let_def)
  then have "BuildProdWebsite example_build ''build'' True = (fst (BuildProdWebsite example_build ''build'' True), None)"
    by (simp add: prod_eq_iff)
  from BuildProdWebsite_complete [OF this] this show ?thesis by blast
qed

text \<open>C27. However a build ends, only pages that were written are uploaded, in the order in which they were written, and
  the first upload happens after the last page of the last month: a build that fails earlier leaves the published site as it is.\<close>

theorem BuildProdWebsite_uploads_last:
  fixes env :: build_env
  defines "months \<equiv> fst (getFoldersFromS3 (bs_exec env) ''ethereum/mainnet/'')"
  shows "prefix (map fst (sf_uploaded (fst (BuildProdWebsite env outDir upload)))) (map fst (sf_written (fst (BuildProdWebsite env outDir upload)))) \<and>
    (sf_uploaded (fst (BuildProdWebsite env outDir upload)) = [] \<or>
     map fst (sf_written (fst (BuildProdWebsite env outDir upload))) = root_file outDir # map (month_file outDir) months)"
proof -
  obtain site stop where build: "BuildProdWebsite env outDir upload = (site, stop)" by fastforce
  show ?thesis
  proof (cases "sf_uploaded site = []")
    case False
    obtain root site1 up where
        pages: "month_pages env outDir months [(root_file outDir, ''/'')] \<lparr>sf_written = [(root_file outDir, root)], sf_uploaded = []\<rparr> = (site1, Inr up)"
        and up: "upload_all env up site1 = (site, stop)"
      using build False month_pages_facts
      by (fastforce simp: BuildProdWebsite_def write_page_def Let_def months_def split: if_splits prod.splits option.splits sum.splits)
    from month_pages_facts [OF pages] obtain written where
        written: "sf_written site1 = (root_file outDir, root) # written" "list_all2 (month_written env outDir) months written"
        "sf_uploaded site1 = []" "up = (root_file outDir, ''/'') # map (month_target outDir) months"
      by auto
    have names: "map fst written = map (month_file outDir) months"
      using written(2) by (induction rule: list_all2_induct) (auto simp: month_written_def)
    have targets: "map fst up = root_file outDir # map (month_file outDir) months"
      using written(4) by (simp add: month_target_def comp_def)
    obtain sent where "prefix sent up" "sf_uploaded site = sent" "sf_written site = sf_written site1"
      using upload_all_facts [OF up] written(3) by auto
    then show ?thesis using map_mono_prefix [of sent up fst] targets names written(1) by (simp add: build)
  qed (simp add: build)
qed

end
