(* ===== verification/DevServer.thy ===== *)
theory DevServer
  imports SiteGenerator GoTime
begin

text \<open>
  The development server of the file listing site: \<open>services/bidcollect/website/devserver.go\<close> and \<open>utils.go\<close>
  (with the logging middleware and its response writer).  A response is what \<open>net/http\<close> sends: the first status
  code and what is written after it.  Static files and the limits of the HTTP server are not modelled.
\<close>

section \<open>Responses and the writer that records their status\<close>

datatype document = HTTPErrorResp nat string | JSONDoc string | PageText string

record response =
  rs_code :: "nat option"
  rs_docs :: "document list"

definition fresh_response :: response where
  "fresh_response = \<lparr>rs_code = None, rs_docs = []\<rparr>"

definition net_WriteHeader :: "nat \<Rightarrow> response \<Rightarrow> response" where
  "net_WriteHeader code w = (case rs_code w of None \<Rightarrow> w\<lparr>rs_code := Some code\<rparr> | Some _ \<Rightarrow> w)"

definition net_Write :: "document \<Rightarrow> response \<Rightarrow> response" where
  "net_Write d w = (let w' = net_WriteHeader 200 w in w'\<lparr>rs_docs := rs_docs w' @ [d]\<rparr>)"

text \<open>\<open>responseWriter\<close>: the wrapped writer, embedded, and the status it has seen.  Its \<open>Write\<close> is the embedded one's.\<close>

record responseWriter =
  rw_ResponseWriter :: response
  rw_status :: nat
  rw_wroteHeader :: bool

definition wrapResponseWriter :: "response \<Rightarrow> responseWriter" where
  "wrapResponseWriter w = \<lparr>rw_ResponseWriter = w, rw_status = 0, rw_wroteHeader = False\<rparr>"

definition rw_Status :: "responseWriter \<Rightarrow> nat" where
  "rw_Status rw = rw_status rw"

definition rw_WriteHeader :: "nat \<Rightarrow> responseWriter \<Rightarrow> responseWriter" where
  "rw_WriteHeader code rw =
     (if rw_wroteHeader rw then rw
      else rw\<lparr>rw_status := code, rw_ResponseWriter := net_WriteHeader code (rw_ResponseWriter rw), rw_wroteHeader := True\<rparr>)"

section \<open>The logging middleware\<close>

text \<open>A handler leaves the response it wrote; it may have panicked on the way.  The middleware hands the handler the
  writer it was given, not the wrapped one, and logs the status of the wrapped one.\<close>

datatype handler_end = HandlerDone | HandlerPanic string

record request =
  rq_Method :: string
  rq_EscapedPath :: string

datatype log_line = AccessLog string string nat | PanicLog string string string

definition LoggingMiddlewareZap :: "(response \<Rightarrow> request \<Rightarrow> response \<times> handler_end) \<Rightarrow> response \<Rightarrow> request \<Rightarrow> response \<times> log_line" where
  "LoggingMiddlewareZap next_ServeHTTP w r =
     (let wrapped = wrapResponseWriter w in
      case next_ServeHTTP w r of
        (w', HandlerPanic msg) \<Rightarrow> (net_WriteHeader 500 w', PanicLog msg (rq_Method r) (rq_EscapedPath r))
      | (w', HandlerDone) \<Rightarrow> (w', AccessLog (rq_Method r) (rq_EscapedPath r) (rw_status wrapped)))"

section \<open>The server\<close>

record DevWebserver =
  dw_ListenAddress :: string
  dw_srvStarted :: bool

definition NewDevWebserver :: "string \<Rightarrow> DevWebserver" where
  "NewDevWebserver addr = \<lparr>dw_ListenAddress = addr, dw_srvStarted = False\<rparr>"

datatype server_error = ErrServerAlreadyStarted | ErrServerClosed | ErrListen string

definition StartServer :: "(string \<Rightarrow> server_error) \<Rightarrow> DevWebserver \<Rightarrow> DevWebserver \<times> server_error option" where
  "StartServer ListenAndServe srv =
     (if dw_srvStarted srv then (srv, Some ErrServerAlreadyStarted)
      else (srv\<lparr>dw_srvStarted := True\<rparr>,
        (case ListenAndServe (dw_ListenAddress srv) of ErrServerClosed \<Rightarrow> None | err \<Rightarrow> Some err)))"

definition RespondError :: "response \<Rightarrow> nat \<Rightarrow> string \<Rightarrow> response" where
  "RespondError w code message = net_Write (HTTPErrorResp code message) (net_WriteHeader code w)"

text \<open>The encoder writes nothing when the value has no JSON form; the error answer comes too late for the status.\<close>

definition RespondOK :: "response \<Rightarrow> string option \<Rightarrow> response" where
  "RespondOK w encoded =
     (let w' = net_WriteHeader 200 w in
      case encoded of Some json \<Rightarrow> net_Write (JSONDoc json) w' | None \<Rightarrow> net_Write (PageText []) (net_WriteHeader 500 w'))"

definition DummyHTMLData :: HTMLData where
  "DummyHTMLData = \<lparr>hd_Title = [], hd_Path = [], hd_EthMainnetMonths = [''2023-08'', ''2023-09''],
     hd_CurrentNetwork = ''Ethereum Mainnet'', hd_CurrentMonth = ''2023-08'',
     hd_Files =
       [\<lparr>fe_Filename = ''2023-08-29_all.csv.zip'', fe_Size = 97210118, fe_Modified = ''02:02:23 2023-09-02''\<rparr>,
        \<lparr>fe_Filename = ''2023-08-29_top.csv.zip'', fe_Size = 7210118, fe_Modified = ''02:02:23 2023-09-02''\<rparr>,
        \<lparr>fe_Filename = ''2023-08-30_all.csv.zip'', fe_Size = 97210118, fe_Modified = ''02:02:23 2023-09-02''\<rparr>,
        \<lparr>fe_Filename = ''2023-08-30_top.csv.zip'', fe_Size = 7210118, fe_Modified = ''02:02:23 2023-09-02''\<rparr>,
        \<lparr>fe_Filename = ''2023-08-31_all.csv.zip'', fe_Size = 97210118, fe_Modified = ''02:02:23 2023-09-02''\<rparr>,
        \<lparr>fe_Filename = ''2023-08-31_top.csv.zip'', fe_Size = 7210118, fe_Modified = ''02:02:23 2023-09-02''\<rparr>]\<rparr>"

text \<open>Executing a template into the response: what it wrote, and whether it failed (which is only logged).\<close>

type_synonym template = "string + (HTMLData \<Rightarrow> string \<times> string option)"

definition execute_into :: "(HTMLData \<Rightarrow> string \<times> string option) \<Rightarrow> HTMLData \<Rightarrow> response \<Rightarrow> response" where
  "execute_into tpl data w = net_Write (PageText (fst (tpl data))) w"

definition handleRoot :: "template \<Rightarrow> response \<Rightarrow> response" where
  "handleRoot ParseIndexTemplate w =
     (case ParseIndexTemplate of Inl _ \<Rightarrow> w
      | Inr tpl \<Rightarrow> execute_into tpl (DummyHTMLData\<lparr>hd_Path := ''/''\<rparr>) (net_WriteHeader 200 w))"

text \<open>\<open>time.Parse("2006-01", s)\<close>: four digits of the year and two of a month from 1 to 12.\<close>

definition parse_YearMonth :: "string \<Rightarrow> (nat \<times> nat) option" where
  "parse_YearMonth s =
     (let y = take 4 s; m = take 2 (drop 5 s); month = digits_val m
      in if length s = 7 \<and> all_digits (y @ m) \<and> s ! 4 = CHR ''-'' \<and> 1 \<le> month \<and> month \<le> 12
         then Some (digits_val y, month) else None)"

definition handleMonth :: "template \<Rightarrow> string \<Rightarrow> response \<Rightarrow> response" where
  "handleMonth ParseFilesTemplate month w =
     (case parse_YearMonth month of
        None \<Rightarrow> RespondError w 400 ''invalid date''
      | Some _ \<Rightarrow>
          (case ParseFilesTemplate of Inl _ \<Rightarrow> w
           | Inr tpl \<Rightarrow> execute_into tpl
               (DummyHTMLData\<lparr>hd_Title := month, hd_Path := ''ethereum/mainnet/'' @ month @ ''/index.html''\<rparr>) (net_WriteHeader 200 w)))"

section \<open>What is logged and answered\<close>

text \<open>A handler over the recording writer: header writes go through it, bodies to the writer inside.\<close>

datatype rw_op = OpHeader nat | OpWrite document

fun rw_run :: "rw_op list \<Rightarrow> responseWriter \<Rightarrow> responseWriter" where
  "rw_run [] rw = rw"
| "rw_run (OpHeader code # ops) rw = rw_run ops (rw_WriteHeader code rw)"
| "rw_run (OpWrite d # ops) rw = rw_run ops (rw\<lparr>rw_ResponseWriter := net_Write d (rw_ResponseWriter rw)\<rparr>)"

lemma rw_run_recorded:
  "rw_wroteHeader rw \<Longrightarrow> rs_code (rw_ResponseWriter rw) = Some (rw_status rw) \<Longrightarrow>
   rw_status (rw_run ops rw) = rw_status rw \<and> rs_code (rw_ResponseWriter (rw_run ops rw)) = Some (rw_status rw)"
  by (induction ops rw rule: rw_run.induct) (simp_all add: rw_WriteHeader_def net_Write_def net_WriteHeader_def Let_def)

text \<open>A handler that writes the header first has exactly the code that is sent recorded.\<close>

lemma rw_records_status:
  "rw_Status (rw_run (OpHeader code # ops) (wrapResponseWriter fresh_response)) = code \<and>
   rs_code (rw_ResponseWriter (rw_run (OpHeader code # ops) (wrapResponseWriter fresh_response))) = Some code"
  using rw_run_recorded [of "rw_WriteHeader code (wrapResponseWriter fresh_response)" ops]
  by (simp add: rw_Status_def rw_WriteHeader_def wrapResponseWriter_def net_WriteHeader_def fresh_response_def)

text \<open>The middleware passes on the response of the handler, turns a panic before the header into status 500, and
  keeps a header that was already sent.  The status in its access log is 0, whatever the handler sent.\<close>

theorem LoggingMiddlewareZap_logs:
  "case LoggingMiddlewareZap h w r of (w', line) \<Rightarrow>
     rs_docs w' = rs_docs (fst (h w r)) \<and>
     rs_code w' = (case (snd (h w r), rs_code (fst (h w r))) of (HandlerPanic _, None) \<Rightarrow> Some 500 | (_, code) \<Rightarrow> code) \<and>
     line = (case snd (h w r) of
       HandlerDone \<Rightarrow> AccessLog (rq_Method r) (rq_EscapedPath r) 0
     | HandlerPanic msg \<Rightarrow> PanicLog msg (rq_Method r) (rq_EscapedPath r))"
proof (cases "h w r")
  case (Pair w' fin)
  then show ?thesis
    by (cases fin; cases "rs_code w'") (simp_all add: LoggingMiddlewareZap_def wrapResponseWriter_def net_WriteHeader_def Let_def)
qed

definition year_month :: "nat \<Rightarrow> nat \<Rightarrow> string" where
  "year_month y m = append_int (int y) 4 @ ''-'' @ append_int (int m) 2"

lemma digits_val_bound: "all_digits s \<Longrightarrow> digits_val s < 10 ^ length s"
proof (induction s rule: rev_induct)
  case (snoc c s)
  then have "digit_val c < 10" "digits_val s < 10 ^ length s" by (auto simp: all_digits_def is_digit_def digit_val_def)
  then show ?case by (simp add: digits_val_append)
qed (simp add: digits_val_def)

lemma digits_val_inj:
  "all_digits a \<Longrightarrow> all_digits b \<Longrightarrow> length a = length b \<Longrightarrow> digits_val a = digits_val b \<Longrightarrow> a = b"
proof (induction a arbitrary: b rule: rev_induct)
  case (snoc c a)
  then obtain b' d where b: "b = b' @ [d]" by (metis length_0_conv rev_exhaust snoc_eq_iff_butlast)
  have digits: "all_digits a" "all_digits b'" "is_digit c" "is_digit d" using snoc.prems(1,2) by (simp_all add: b all_digits_def)
  then have "digit_val c < 10" "digit_val d < 10" by (auto simp: is_digit_def digit_val_def)
  then have "digits_val a = digits_val b'" "digit_val c = digit_val d"
    using snoc.prems(4) by (simp_all add: b digits_val_append) (presburger+)
  moreover have "c = d" if "digit_val c = digit_val d"
  proof -
    have "(of_char c :: nat) = of_char d" using that digits unfolding is_digit_def digit_val_def by linarith
    then show ?thesis by simp
  qed
  ultimately show ?case using snoc.IH [of b'] snoc.prems(3) digits by (simp add: b)
qed simp

lemma append_int_all_digits: "all_digits (append_int (int n) w)"
  unfolding all_digits_def by (intro ballI) (rule append_int_digits [OF of_nat_0_le_iff])

lemma append_int_digits_val:
  assumes "all_digits s" "s \<noteq> []"
  shows "append_int (int (digits_val s)) (length s) = s"
proof (rule digits_val_inj)
  show "all_digits (append_int (int (digits_val s)) (length s))" by (rule append_int_all_digits)
  have "int (digits_val s) < 10 ^ length s" using digits_val_bound [OF assms(1)] by simp
  then show "length (append_int (int (digits_val s)) (length s)) = length s" using assms by (simp add: length_append_int)
qed (simp_all add: assms digits_val_append_int)

text \<open>The layout \<open>2006-01\<close> accepts exactly the printed months: four digits of a year, a dash, and two digits of a
  month from 1 to 12.\<close>

theorem parse_YearMonth_iff:
  "parse_YearMonth s = Some (y, m) \<longleftrightarrow> y < 10000 \<and> 1 \<le> m \<and> m \<le> 12 \<and> s = year_month y m"
proof
  assume parsed: "parse_YearMonth s = Some (y, m)"
  define ys where "ys = take 4 s" define ms where "ms = take 2 (drop 5 s)"
  have p: "length s = 7" "all_digits ys" "all_digits ms" "s ! 4 = CHR ''-''" "1 \<le> m" "m \<le> 12" "y = digits_val ys" "m = digits_val ms"
    using parsed by (auto simp: parse_YearMonth_def Let_def ys_def ms_def all_digits_def split: if_splits)
  have len: "length ys = 4" "length ms = 2" using p(1) by (simp_all add: ys_def ms_def)
  have "append_int (int y) 4 = ys" "append_int (int m) 2 = ms"
    using append_int_digits_val [OF p(2)] append_int_digits_val [OF p(3)] len p(7,8) by fastforce+
  moreover have "s = ys @ [s ! 4] @ ms"
    using p(1) id_take_nth_drop [of 4 s] by (simp add: ys_def ms_def)
  ultimately show "y < 10000 \<and> 1 \<le> m \<and> m \<le> 12 \<and> s = year_month y m"
    using digits_val_bound [OF p(2)] p len(1) by (simp add: year_month_def)
next
  assume a: "y < 10000 \<and> 1 \<le> m \<and> m \<le> 12 \<and> s = year_month y m"
  then have len: "length (append_int (int y) 4) = 4" "length (append_int (int m) 2) = 2"
    by (simp_all add: length_append_int)
  then have "take 4 s = append_int (int y) 4" "take 2 (drop 5 s) = append_int (int m) 2" "length s = 7" "s ! 4 = CHR ''-''"
    using a by (simp_all add: year_month_def nth_append)
  moreover have "take 2 (append_int (int m) 2) = append_int (int m) 2" using len(2) by simp
  moreover have "all_digits (append_int (int y) 4 @ append_int (int m) 2)" using append_int_all_digits by (auto simp: all_digits_def)
  ultimately show "parse_YearMonth s = Some (y, m)" using a by (simp add: parse_YearMonth_def Let_def digits_val_append_int)
qed

end
