(* ===== verification/BuilderGroups.thy ===== *)
theory BuilderGroups
  imports GoStrings
begin

text \<open>
  \<open>vars/builder_aliases.go\<close>: the groups of builders and the predicates on extra data that assign them.
  Go iterates over the map of groups in an order it does not define; the order is an argument.
\<close>

section \<open>The alias predicates\<close>

text \<open>A match of \<open>s[0-9]+e[0-9].*(t|f)\<close> at the start of a string, and anywhere in it.\<close>

definition bob_at :: "string \<Rightarrow> bool" where
  "bob_at str =
     (case str of
        [] \<Rightarrow> False
      | c # r \<Rightarrow> c = CHR ''s'' \<and> takeWhile is_digit r \<noteq> [] \<and>
          (case dropWhile is_digit r of
             e # d # rest \<Rightarrow> e = CHR ''e'' \<and> is_digit d \<and>
               list_ex (\<lambda>x. x = CHR ''t'' \<or> x = CHR ''f'') (takeWhile (\<lambda>x. x \<noteq> CHR 0x0A) rest)
           | _ \<Rightarrow> False))"

fun bob_match :: "string \<Rightarrow> bool" where
  "bob_match [] = False"
| "bob_match (c # r) = (bob_at (c # r) \<or> bob_match r)"

type_synonym builder_group = "string \<times> (string \<Rightarrow> bool)"

definition bob_name :: string where "bob_name = ''bob the builder''"

definition BuilderGroups :: "builder_group list" where
  "BuilderGroups =
     [(''penguinbuild.org'', \<lambda>s. strings_Contains s ''penguinbuild.org''),
      (''builder0x69'', \<lambda>s. strings_Contains s ''builder0x69''),
      (''rsync-builder.xyz'', \<lambda>s. strings_Contains s ''rsync''),
      (bob_name, bob_match),
      (''BuilderNet'', \<lambda>s. strings_Contains s ''BuilderNet'')]"

text \<open>The group found by one iteration over the map, and the name it gives.\<close>

fun find_group :: "builder_group list \<Rightarrow> string \<Rightarrow> string option" where
  "find_group [] extraData = None"
| "find_group ((builder, aliasFunc) # groups) extraData =
     (if aliasFunc extraData then Some builder else find_group groups extraData)"

definition BuilderNameFromExtraData :: "builder_group list \<Rightarrow> string \<Rightarrow> string" where
  "BuilderNameFromExtraData groups extraData =
     (case find_group groups extraData of Some builder \<Rightarrow> builder | None \<Rightarrow> extraData)"

section \<open>Order of iteration\<close>

text \<open>A text is unambiguous when at most one group takes it.\<close>

definition unambiguous :: "string \<Rightarrow> bool" where
  "unambiguous s \<longleftrightarrow> length (filter (\<lambda>(n, p). p s) BuilderGroups) \<le> 1"

lemma find_group_filter: "find_group groups s = map_option fst (case filter (\<lambda>(n, p). p s) groups of [] \<Rightarrow> None | g # _ \<Rightarrow> Some g)"
  by (induction groups s rule: find_group.induct) auto

lemma find_group_unambiguous:
  assumes "mset groups = mset BuilderGroups" and "unambiguous s"
  shows "find_group groups s = find_group BuilderGroups s"
proof -
  have perm: "mset (filter (\<lambda>(n, p). p s) groups) = mset (filter (\<lambda>(n, p). p s) BuilderGroups)"
    using assms(1) by (simp add: mset_filter)
  consider "filter (\<lambda>(n, p). p s) BuilderGroups = []" | g where "filter (\<lambda>(n, p). p s) BuilderGroups = [g]"
    using assms(2) by (cases "filter (\<lambda>(n, p). p s) BuilderGroups") (auto simp: unambiguous_def)
  then have "filter (\<lambda>(n, p). p s) groups = filter (\<lambda>(n, p). p s) BuilderGroups"
    using perm by cases (simp_all del: mset_filter)
  then show ?thesis by (simp only: find_group_filter)
qed

text \<open>The name of a builder does not depend on the order in which Go iterates over the groups, as long as
  at most one group takes the extra data; when two do, it depends on the order.\<close>

theorem BuilderNameFromExtraData_order:
  assumes "mset groups = mset BuilderGroups" and "unambiguous s"
  shows "BuilderNameFromExtraData groups s = BuilderNameFromExtraData BuilderGroups s \<and>
    (\<exists>groups' t. mset groups' = mset BuilderGroups \<and> BuilderNameFromExtraData groups' t \<noteq> BuilderNameFromExtraData BuilderGroups t)"
proof
  show "BuilderNameFromExtraData groups s = BuilderNameFromExtraData BuilderGroups s"
    using find_group_unambiguous [OF assms] by (simp add: BuilderNameFromExtraData_def)
  have "BuilderNameFromExtraData (rev BuilderGroups) ''rsync BuilderNet'' \<noteq> BuilderNameFromExtraData BuilderGroups ''rsync BuilderNet''"
    by code_simp
  moreover have "mset (rev BuilderGroups) = mset BuilderGroups" by simp
  ultimately show "\<exists>groups' t. mset groups' = mset BuilderGroups \<and>
      BuilderNameFromExtraData groups' t \<noteq> BuilderNameFromExtraData BuilderGroups t" by blast
qed

theorem BuilderNameFromExtraData_order_witness:
  "BuilderNameFromExtraData (rev BuilderGroups) ''s1e2xf'' = ''bob the builder''"
proof -
  have "unambiguous ''s1e2xf''" by code_simp
  moreover have "BuilderNameFromExtraData BuilderGroups ''s1e2xf'' = ''bob the builder''" by code_simp
  ultimately show ?thesis using BuilderNameFromExtraData_order [of "rev BuilderGroups" "''s1e2xf''"] by simp
qed

text \<open>The cases of \<open>TestBuilderAliases\<close>, and the group name that its own predicate does not take.\<close>

lemma BuilderNameFromExtraData_examples:
  "BuilderNameFromExtraData BuilderGroups ''@penguinbuild.org'' = ''penguinbuild.org''"
  "BuilderNameFromExtraData BuilderGroups ''foobar'' = ''foobar''"
  "BuilderNameFromExtraData BuilderGroups ''@builder0x69'' = ''builder0x69''"
  by code_simp+

lemma group_names_closed:
  "find_group BuilderGroups bob_name = None"
  "find_group BuilderGroups ''penguinbuild.org'' = Some ''penguinbuild.org''"
  "find_group BuilderGroups ''builder0x69'' = Some ''builder0x69''"
  "find_group BuilderGroups ''rsync-builder.xyz'' = Some ''rsync-builder.xyz''"
  "find_group BuilderGroups ''BuilderNet'' = Some ''BuilderNet''"
  by code_simp+

end
