(* ===== verification/BuilderStats.thy ===== *)
theory BuilderStats
  imports Database BuilderGroups "HOL-Library.AList" "HOL-Library.List_Lexorder" "HOL-Library.Char_ord"
begin

text \<open>
  \<open>cmd/core/update-builder-stats.go\<close>: the delivered payloads of a range of slots are counted per day (or
  hour) and builder, and the counts are written to the table of builder statistics.
\<close>

section \<open>The range of slots\<close>

definition stats_slots :: "i64 \<Rightarrow> gotime \<Rightarrow> gotime \<Rightarrow> u64 \<times> u64" where
  "stats_slots genesis timeStart timeEnd =
     (let slotStart = TimeToSlot genesis timeStart; slotEnd = TimeToSlot genesis timeEnd;
          slotStart = (if time_Before (SlotToTime genesis slotStart) timeStart then slotStart + 1 else slotStart);
          slotEnd = (if time_After (SlotToTime genesis slotEnd) timeEnd then slotEnd + 1 else slotEnd)
      in (slotStart, slotEnd))"

section \<open>Buckets\<close>

text \<open>\<open>entriesBySlot\<close> keeps the last entry of each slot; Go iterates over it in any order.\<close>

definition entries_by_slot :: "DataAPIPayloadDeliveredEntry list \<Rightarrow> DataAPIPayloadDeliveredEntry list" where
  "entries_by_slot entries =
     map (\<lambda>s. last (filter (\<lambda>e. pd_Slot e = s) entries)) (remdups (map pd_Slot entries))"

type_synonym stats_bucket = "((string \<times> string) \<times> BuilderStatsEntry) list"

definition add_line :: "string \<Rightarrow> string \<Rightarrow> string" where
  "add_line x acc = (if \<not> strings_Contains acc (x @ [CHR 0x0A]) then acc @ x @ [CHR 0x0A] else acc)"

definition count_extra :: "DataAPIPayloadDeliveredEntry \<Rightarrow> BuilderStatsEntry \<Rightarrow> BuilderStatsEntry" where
  "count_extra e b = b\<lparr>st_BlocksIncluded := st_BlocksIncluded b + 1,
     st_ExtraData := add_line (pd_ExtraData e) (st_ExtraData b),
     st_BuilderPubkeys := add_line (pd_BuilderPubkey e) (st_BuilderPubkeys b)\<rparr>"

definition count_pubkey :: "DataAPIPayloadDeliveredEntry \<Rightarrow> BuilderStatsEntry \<Rightarrow> BuilderStatsEntry" where
  "count_pubkey e b = b\<lparr>st_BlocksIncluded := st_BlocksIncluded b + 1,
     st_ExtraData := add_line (pd_ExtraData e) (st_ExtraData b)\<rparr>"

definition bucket_add ::
    "('e \<Rightarrow> string \<times> string) \<Rightarrow> ('e \<Rightarrow> BuilderStatsEntry) \<Rightarrow> ('e \<Rightarrow> BuilderStatsEntry \<Rightarrow> BuilderStatsEntry) \<Rightarrow>
     'e \<Rightarrow> stats_bucket \<Rightarrow> stats_bucket" where
  "bucket_add key start upd e bucket = AList.map_default (key e) (upd e (start e)) (upd e) bucket"

definition entry_day :: "i64 \<Rightarrow> DataAPIPayloadDeliveredEntry \<Rightarrow> string" where
  "entry_day genesis e = fmt_DateOnly (SlotToTime genesis (pd_Slot e))"

definition entry_hour :: "i64 \<Rightarrow> DataAPIPayloadDeliveredEntry \<Rightarrow> string" where
  "entry_hour genesis e = fmt_DateHour (SlotToTime genesis (pd_Slot e))"

definition parse_DateHour :: "string \<Rightarrow> gotime option" where
  "parse_DateHour s = parse_DateHourMin (s @ '':00'')"

text \<open>The entries of fresh buckets.  The parse of a printed time is checked by a panic, which is the
  \<open>None\<close> of \<open>saveDayBucket\<close> and \<open>saveHourBucket\<close> below.\<close>

definition day_start :: "i64 \<Rightarrow> DataAPIPayloadDeliveredEntry \<Rightarrow> gotime" where
  "day_start genesis e = the (parse_DateOnly (entry_day genesis e))"

definition day_extra_start :: "builder_group list \<Rightarrow> i64 \<Rightarrow> DataAPIPayloadDeliveredEntry \<Rightarrow> BuilderStatsEntry" where
  "day_extra_start groups genesis e = zero_stats\<lparr>st_Type := BuilderStatsEntryTypeExtraData, st_Hours := 24,
     st_TimeStart := day_start genesis e, st_TimeEnd := time_Add (day_start genesis e) (24 * 3600 * dur_Second),
     st_BuilderName := BuilderNameFromExtraData groups (pd_ExtraData e)\<rparr>"

definition day_pubkey_start :: "i64 \<Rightarrow> DataAPIPayloadDeliveredEntry \<Rightarrow> BuilderStatsEntry" where
  "day_pubkey_start genesis e = zero_stats\<lparr>st_Type := BuilderStatsEntryTypeBuilderPubkey, st_Hours := 24,
     st_TimeStart := day_start genesis e, st_TimeEnd := time_Add (day_start genesis e) (24 * 3600 * dur_Second),
     st_BuilderName := pd_BuilderPubkey e, st_BuilderPubkeys := pd_BuilderPubkey e @ [CHR 0x0A]\<rparr>"

definition hour_start :: "builder_group list \<Rightarrow> i64 \<Rightarrow> DataAPIPayloadDeliveredEntry \<Rightarrow> BuilderStatsEntry" where
  "hour_start groups genesis e =
     (let start = the (parse_DateHour (entry_hour genesis e)) in
      zero_stats\<lparr>st_Hours := 1, st_TimeStart := start, st_TimeEnd := time_Add start (3600 * dur_Second),
        st_BuilderName := BuilderNameFromExtraData groups (pd_ExtraData e)\<rparr>)"

text \<open>\<open>groups e\<close> is the order of the iteration over the builder groups for an entry.\<close>

definition day_extra_bucket ::
    "(DataAPIPayloadDeliveredEntry \<Rightarrow> builder_group list) \<Rightarrow> i64 \<Rightarrow> DataAPIPayloadDeliveredEntry list \<Rightarrow> stats_bucket" where
  "day_extra_bucket groups genesis es =
     fold (bucket_add (\<lambda>e. (entry_day genesis e, BuilderNameFromExtraData (groups e) (pd_ExtraData e)))
       (\<lambda>e. day_extra_start (groups e) genesis e) count_extra) es []"

definition day_pubkey_bucket :: "i64 \<Rightarrow> DataAPIPayloadDeliveredEntry list \<Rightarrow> stats_bucket" where
  "day_pubkey_bucket genesis es =
     fold (bucket_add (\<lambda>e. (entry_day genesis e, pd_BuilderPubkey e)) (day_pubkey_start genesis) count_pubkey) es []"

definition hour_bucket ::
    "(DataAPIPayloadDeliveredEntry \<Rightarrow> builder_group list) \<Rightarrow> i64 \<Rightarrow> DataAPIPayloadDeliveredEntry list \<Rightarrow> stats_bucket" where
  "hour_bucket groups genesis es =
     fold (bucket_add (\<lambda>e. (entry_hour genesis e, BuilderNameFromExtraData (groups e) (pd_ExtraData e)))
       (\<lambda>e. hour_start (groups e) genesis e) count_extra) es []"

section \<open>Saving the buckets\<close>

definition bucket_times :: "stats_bucket \<Rightarrow> string list" where
  "bucket_times bucket = sort (remdups (map (fst \<circ> fst) bucket))"

definition bucket_of :: "stats_bucket \<Rightarrow> string \<Rightarrow> BuilderStatsEntry list" where
  "bucket_of bucket t = map snd (filter (\<lambda>b. fst (fst b) = t) bucket)"

text \<open>The statements, one per day or hour in order; the first error panics.\<close>

fun save_stats ::
    "(string \<Rightarrow> sql_error option) \<Rightarrow> gotime \<Rightarrow> (string \<times> BuilderStatsEntry list) list \<Rightarrow> DatabaseService \<Rightarrow> DatabaseService \<times> bool" where
  "save_stats fault now [] db = (db, True)"
| "save_stats fault now ((t, entries) # rest) db =
     (case SaveBuilderStats (fault t) now entries db of
        (db', None) \<Rightarrow> save_stats fault now rest db'
      | (db', Some e) \<Rightarrow> (db', False))"

text \<open>\<open>order\<close> is the iteration order of the inner maps; the result is \<open>None\<close> when a time does not parse.\<close>

definition saveDayBucket ::
    "(string \<Rightarrow> sql_error option) \<Rightarrow> gotime \<Rightarrow> (BuilderStatsEntry list \<Rightarrow> BuilderStatsEntry list) \<Rightarrow>
     (DataAPIPayloadDeliveredEntry \<Rightarrow> builder_group list) \<Rightarrow> i64 \<Rightarrow> DataAPIPayloadDeliveredEntry list \<Rightarrow>
     DatabaseService \<Rightarrow> DatabaseService \<times> bool" where
  "saveDayBucket fault now order groups genesis es db =
     (let byExtra = day_extra_bucket groups genesis es; byPubkey = day_pubkey_bucket genesis es in
      if list_ex (\<lambda>e. parse_DateOnly (entry_day genesis e) = None) es then (db, False)
      else save_stats fault now
        (map (\<lambda>t. (t, order (bucket_of byExtra t) @ order (bucket_of byPubkey t))) (bucket_times byExtra)) db)"

definition saveHourBucket ::
    "(string \<Rightarrow> sql_error option) \<Rightarrow> gotime \<Rightarrow> (BuilderStatsEntry list \<Rightarrow> BuilderStatsEntry list) \<Rightarrow>
     (DataAPIPayloadDeliveredEntry \<Rightarrow> builder_group list) \<Rightarrow> i64 \<Rightarrow> DataAPIPayloadDeliveredEntry list \<Rightarrow>
     DatabaseService \<Rightarrow> DatabaseService \<times> bool" where
  "saveHourBucket fault now order groups genesis es db =
     (let bucket = hour_bucket groups genesis es in
      if list_ex (\<lambda>e. parse_DateHour (entry_hour genesis e) = None) es then (db, False)
      else save_stats fault now (map (\<lambda>t. (t, order (bucket_of bucket t))) (bucket_times bucket)) db)"

section \<open>The command\<close>

record stats_flags =
  sf_start :: string
  sf_end :: string
  sf_daily :: bool
  sf_hourly :: bool
  sf_backfill :: bool

text \<open>The time range: \<open>Inl\<close> is the message of a fatal error.\<close>

definition stats_time_range ::
    "stats_flags \<Rightarrow> gotime \<Rightarrow> BuilderStatsEntry \<times> sql_error option \<Rightarrow> string + gotime \<times> gotime" where
  "stats_time_range flags now lastDaily =
     (if sf_backfill flags \<and> sf_hourly flags then Inl ''--backfill cannot be used with --hourly (for now)''
      else if \<not> sf_backfill flags \<and> sf_start flags = [] then Inl ''start date is required''
      else if \<not> sf_daily flags \<and> \<not> sf_hourly flags then Inl ''at least one of --daily or --hourly is required''
      else if sf_backfill flags then
        (case lastDaily of
           (lastEntry, None) \<Rightarrow> Inr (st_TimeStart lastEntry, BeginningOfDay now)
         | (_, Some ErrNoRows) \<Rightarrow> Inl ''No daily entries found in database. Please run without --backfill first.''
         | (_, Some e) \<Rightarrow> Inl ''panic'')
      else
        (let dateEnd = (if sf_end flags = [] then fmt_DateOnly now else sf_end flags)
         in case (MustParseDateTimeStr (sf_start flags), MustParseDateTimeStr dateEnd) of
              (Some s, Some e) \<Rightarrow> Inr (s, e)
            | _ \<Rightarrow> Inl ''panic''))"

definition update_builder_stats ::
    "stats_flags \<Rightarrow> gotime \<Rightarrow> i64 \<Rightarrow> sql_error option \<Rightarrow> (BuilderStatsEntry list \<Rightarrow> BuilderStatsEntry list) \<Rightarrow>
     (DataAPIPayloadDeliveredEntry list \<Rightarrow> DataAPIPayloadDeliveredEntry list) \<Rightarrow>
     (DataAPIPayloadDeliveredEntry list \<Rightarrow> DataAPIPayloadDeliveredEntry list) \<Rightarrow>
     (DataAPIPayloadDeliveredEntry \<Rightarrow> builder_group list) \<Rightarrow> (string \<Rightarrow> sql_error option) \<Rightarrow> DatabaseService \<Rightarrow> DatabaseService \<times> bool" where
  "update_builder_stats flags now genesis fault order plan iter groups save_fault db =
     (case stats_time_range flags now (GetLastDailyBuilderStatsEntry fault order db BuilderStatsEntryTypeExtraData) of
        Inl m \<Rightarrow> (db, False)
      | Inr (timeStart, timeEnd) \<Rightarrow>
         (case stats_slots genesis timeStart timeEnd of (slotStart, slotEnd) \<Rightarrow>
            case GetDeliveredPayloadsForSlots fault plan db slotStart slotEnd of
              Inl e \<Rightarrow> (db, False)
            | Inr entries \<Rightarrow>
               (let es = iter (entries_by_slot entries);
                    (db1, ok1) = (if sf_daily flags then saveDayBucket save_fault now order groups genesis es db else (db, True))
                in if ok1 \<and> sf_hourly flags then saveHourBucket save_fault now order groups genesis es db1 else (db1, ok1))))"

section \<open>The slots of a range\<close>

text \<open>C37. The statistics cover exactly the slots that start in the time range, ends included.\<close>

theorem stats_slots_exact:
  assumes "slot_in_range g s" "time_after_genesis g timeStart" "time_after_genesis g timeEnd"
    and "stats_slots g timeStart timeEnd = (slotStart, slotEnd)"
  shows "slotStart \<le> s \<and> s \<le> slotEnd \<longleftrightarrow> timeStart \<le> SlotToTime g s \<and> SlotToTime g s \<le> timeEnd"
proof -
  let ?a = "TimeToSlot g timeStart" and ?b = "TimeToSlot g timeEnd"
  have "slot_in_range g ?a" by (rule common_clock.ok_slot_of_time [OF assms(2)])
  then have "uint ?a + uint (1 :: u64) < 2 ^ LENGTH(64)" by (simp add: slot_in_range_def)
  then have "uint (?a + 1) = uint ?a + 1" by (subst (asm) uint_add_lem) simp
  then have next_slot: "?a < s \<longleftrightarrow> ?a + 1 \<le> s" by (auto simp: word_less_def word_le_def)
  have "\<not> timeEnd < SlotToTime g ?b" using common_clock.slot_floor [OF assms(3)] by simp
  then have "slotEnd = ?b" "slotStart = (if SlotToTime g ?a < timeStart then ?a + 1 else ?a)"
    using assms(4) by (auto simp: stats_slots_def Let_def time_Before_def time_After_def)
  then show ?thesis
    using common_clock.slots_in_interval [OF assms(1-3)] next_slot by auto
qed

theorem stats_slots_exact_witness:
  "fst (stats_slots GenesisDefault (GoTime 1606910400 0) (GoTime 1606996800 0)) \<le> 7199 \<longleftrightarrow>
   GoTime 1606910400 0 \<le> SlotToTime GenesisDefault 7199"
proof -
  let ?a = "GoTime 1606910400 0" and ?b = "GoTime 1606996800 0"
  obtain x y where xy: "stats_slots GenesisDefault ?a ?b = (x, y)" by fastforce
  have "(7199 :: u64) \<le> y \<and> SlotToTime GenesisDefault 7199 \<le> ?b"
  proof -
    have "7199 \<le> snd (stats_slots GenesisDefault ?a ?b)" "SlotToTime GenesisDefault 7199 \<le> ?b" by code_simp+
    with xy show ?thesis by simp
  qed
  moreover have "slot_in_range GenesisDefault 7199" "time_after_genesis GenesisDefault ?a" "time_after_genesis GenesisDefault ?b"
    by (simp_all add: slot_in_range_def time_after_genesis_def GenesisDefault_def)
  ultimately show ?thesis using stats_slots_exact [OF _ _ _ xy, of 7199] by (simp add: xy)
qed

section \<open>Counting\<close>

text \<open>A bucket map counts the entries of each key.\<close>

locale bucket =
  fixes key :: "'e \<Rightarrow> string \<times> string" and start :: "'e \<Rightarrow> BuilderStatsEntry"
    and upd :: "'e \<Rightarrow> BuilderStatsEntry \<Rightarrow> BuilderStatsEntry"
    and stat :: "string \<times> string \<Rightarrow> string \<times> i64 \<times> gotime \<times> gotime \<times> string"
  assumes upd_key: "stats_key (upd e b) = stats_key b"
    and upd_count: "st_BlocksIncluded (upd e b) = st_BlocksIncluded b + 1"
    and start_count: "st_BlocksIncluded (start e) = 0"
    and start_key: "stats_key (start e) = stat (key e)"
begin

abbreviation counted :: "'e list \<Rightarrow> stats_bucket" where
  "counted es \<equiv> fold (bucket_add key start upd) es []"

lemma counted_snoc: "counted (es @ [e]) = AList.map_default (key e) (upd e (start e)) (upd e) (counted es)"
  by (simp add: bucket_add_def)

lemma distinct_counted: "distinct (map fst (counted es))"
proof (induction es rule: rev_induct)
  case (snoc e es)
  then show ?case by (simp only: counted_snoc distinct_map_default)
qed simp

lemma keys_counted: "fst ` set (counted es) = key ` set es"
proof (induction es rule: rev_induct)
  case (snoc e es)
  then show ?case unfolding counted_snoc dom_map_default by simp
qed simp

lemma lookup_counted:
  "map_of (counted es) k = Some b \<Longrightarrow>
   stats_key b = stat k \<and> st_BlocksIncluded b = of_nat (length (filter (\<lambda>e. key e = k) es))"
proof (induction es arbitrary: b rule: rev_induct)
  case (snoc e es)
  show ?case
  proof (cases "key e = k")
    case False
    with snoc show ?thesis unfolding counted_snoc map_of_map_default by simp
  next
    case True
    have none: "filter (\<lambda>e. key e = k) es = []" if "map_of (counted es) k = None"
      using that keys_counted [of es] by (auto simp: map_of_eq_None_iff filter_empty_conv)
    from True snoc.prems have "b = upd e (case map_of (counted es) k of None \<Rightarrow> start e | Some b \<Rightarrow> b)"
      unfolding counted_snoc map_of_map_default by (auto split: option.splits)
    then show ?thesis
      using True snoc.IH none upd_key upd_count start_count start_key
      by (cases "map_of (counted es) k") auto
  qed
qed simp

lemma entry_counted:
  assumes "(k, b) \<in> set (counted es)"
  shows "stats_key b = stat k" "st_BlocksIncluded b = of_nat (length (filter (\<lambda>e. key e = k) es))"
proof -
  have "map_of (counted es) k = Some b" using assms by (rule map_of_is_SomeI [OF distinct_counted])
  then show "stats_key b = stat k" "st_BlocksIncluded b = of_nat (length (filter (\<lambda>e. key e = k) es))"
    using lookup_counted by blast+
qed

lemma stats_keys_counted: "map (stats_key \<circ> snd) (counted es) = map stat (map fst (counted es))"
  using entry_counted(1) by (auto simp: comp_def)

end

definition day_stat :: "string \<Rightarrow> string \<times> string \<Rightarrow> string \<times> i64 \<times> gotime \<times> gotime \<times> string" where
  "day_stat typ = (\<lambda>(day, builder). (typ, 24, the (parse_DateOnly day),
     time_Add (the (parse_DateOnly day)) (24 * 3600 * dur_Second), builder))"

definition hour_stat :: "string \<times> string \<Rightarrow> string \<times> i64 \<times> gotime \<times> gotime \<times> string" where
  "hour_stat = (\<lambda>(hour, builder). ([], 1, the (parse_DateHour hour),
     time_Add (the (parse_DateHour hour)) (3600 * dur_Second), builder))"

interpretation extra_bucket: bucket "\<lambda>e. (entry_day g e, BuilderNameFromExtraData (groups e) (pd_ExtraData e))"
    "\<lambda>e. day_extra_start (groups e) g e" count_extra "day_stat BuilderStatsEntryTypeExtraData" for g groups
  by unfold_locales (simp_all add: stats_key_def count_extra_def day_extra_start_def day_stat_def day_start_def zero_stats_def)

interpretation pubkey_bucket: bucket "\<lambda>e. (entry_day g e, pd_BuilderPubkey e)"
    "day_pubkey_start g" count_pubkey "day_stat BuilderStatsEntryTypeBuilderPubkey" for g
  by unfold_locales (simp_all add: stats_key_def count_pubkey_def day_pubkey_start_def day_stat_def day_start_def zero_stats_def)

interpretation hour_buckets: bucket "\<lambda>e. (entry_hour g e, BuilderNameFromExtraData (groups e) (pd_ExtraData e))"
    "\<lambda>e. hour_start (groups e) g e" count_extra hour_stat for g groups
  by unfold_locales (simp_all add: stats_key_def count_extra_def hour_start_def hour_stat_def zero_stats_def Let_def)

section \<open>The table after an update\<close>

lemma save_stats_map:
  assumes "distinct (map stats_key (concat (map snd batches)))"
  shows "\<exists>db'. save_stats (\<lambda>_. None) now batches db = (db', True) \<and>
    stats_of (builder_stats db') = stats_of (builder_stats db) ++ stats_of (concat (map snd batches))"
  using assms
proof (induction batches arbitrary: db)
  case (Cons b batches)
  obtain t entries where b: "b = (t, entries)" by fastforce
  obtain db1 err where save: "SaveBuilderStats None now entries db = (db1, err)" by fastforce
  have "distinct (map stats_key entries)" using Cons.prems by (simp add: b)
  with save SaveBuilderStats_map [of entries now db]
  have 1: "err = None" "stats_of (builder_stats db1) = stats_of (builder_stats db) ++ stats_of entries" by auto
  obtain db' where db': "save_stats (\<lambda>_. None) now batches db1 = (db', True)"
      "stats_of (builder_stats db') = stats_of (builder_stats db1) ++ stats_of (concat (map snd batches))"
    using Cons.IH [of db1] Cons.prems by auto
  have "dom (stats_of entries) \<inter> dom (stats_of (concat (map snd batches))) = {}"
    using Cons.prems unfolding dom_stats_of by (auto simp: b)
  then have "stats_of entries ++ stats_of (concat (map snd batches)) = stats_of (concat (map snd batches)) ++ stats_of entries"
    by (rule map_add_comm)
  also have "\<dots> = stats_of (concat (map snd (b # batches)))" by (simp add: b stats_of_append)
  finally have "stats_of entries ++ stats_of (concat (map snd batches)) = stats_of (concat (map snd (b # batches)))" .
  with db' 1 save show ?case by (simp add: b flip: map_add_assoc)
qed (simp add: stats_of_def)

lemma stats_of_distinct:
  "distinct (map stats_key rows) \<Longrightarrow> r \<in> set rows \<Longrightarrow> stats_of rows (stats_key r) = Some (stats_content r)"
  unfolding stats_of_def by (rule map_of_is_SomeI) (auto simp: comp_def)

text \<open>The statements together carry every bucket once, in whatever order.\<close>

lemma mset_filter_insert:
  "t \<notin> T \<Longrightarrow> mset (filter (\<lambda>b. f b = t \<or> f b \<in> T) xs) = mset (filter (\<lambda>b. f b = t) xs) + mset (filter (\<lambda>b. f b \<in> T) xs)"
  by (induction xs) auto

lemma mset_batches:
  assumes "row_order order" and "distinct ts"
  shows "mset (concat (map (\<lambda>t. order (bucket_of X t) @ order (bucket_of Y t)) ts)) =
    mset (map snd (filter (\<lambda>b. fst (fst b) \<in> set ts) X)) + mset (map snd (filter (\<lambda>b. fst (fst b) \<in> set ts) Y))"
  using assms(2)
proof (induction ts)
  case (Cons t ts)
  have "mset (order (bucket_of B t)) = image_mset snd (mset (filter (\<lambda>b. fst (fst b) = t) B))" for B
    using assms(1) by (simp add: row_order_def bucket_of_def del: mset_filter)
  moreover have "mset (filter (\<lambda>b. fst (fst b) = t \<or> fst (fst b) \<in> set ts) B) =
      mset (filter (\<lambda>b. fst (fst b) = t) B) + mset (filter (\<lambda>b. fst (fst b) \<in> set ts) B)" for B :: stats_bucket
    using Cons.prems by (intro mset_filter_insert) simp
  ultimately show ?case using Cons by (simp del: mset_filter)
qed simp

lemma midnight_inject:
  assumes "0 \<le> a" "a * day_secs < 2 ^ 63" "0 \<le> b" "b * day_secs < 2 ^ 63"
  shows "midnight a = midnight b \<longleftrightarrow> a = b"
proof -
  have "sint (word_of_int (z * day_secs) :: i64) = z * day_secs" if "0 \<le> z" "z * day_secs < 2 ^ 63" for z
    using that by (intro sint_word_of_int_small) (simp_all add: day_secs_def)
  with assms show ?thesis by (auto simp: midnight_def day_secs_def dest: arg_cong [where f = sint])
qed

definition dated :: "i64 \<Rightarrow> DataAPIPayloadDeliveredEntry \<Rightarrow> bool" where
  "dated g e \<longleftrightarrow> slot_in_range g (pd_Slot e) \<and> four_digit_year (SlotToTime g (pd_Slot e))"

lemma parse_entry_day: "dated g e \<Longrightarrow> parse_DateOnly (entry_day g e) = Some (BeginningOfDay (SlotToTime g (pd_Slot e)))"
  by (simp add: dated_def entry_day_def BeginningOfDay_def parse_fmt_DateOnly)

lemma entry_day_inject:
  assumes "dated g e" "dated g f" "the (parse_DateOnly (entry_day g e)) = the (parse_DateOnly (entry_day g f))"
  shows "entry_day g e = entry_day g f"
proof -
  have range: "0 \<le> time_day t \<and> time_day t * day_secs < 2 ^ 63" if "0 \<le> sint (unixSec t)" for t
  proof -
    have "time_day t * day_secs \<le> sint (unixSec t)" by (simp add: time_day_def day_secs_def)
    then have "time_day t * day_secs < 2 ^ 63" using sint_range64(2) by (rule le_less_trans)
    moreover have "0 \<le> time_day t" using that by (simp add: time_day_def day_secs_def)
    ultimately show ?thesis by blast
  qed
  have nonneg: "0 \<le> sint (unixSec (SlotToTime g (pd_Slot x)))" if "dated g x" for x
    using that sint_SlotToTime(1) [of g "pd_Slot x"] by (simp add: dated_def slot_in_range_def)
  have "midnight (time_day (SlotToTime g (pd_Slot e))) = midnight (time_day (SlotToTime g (pd_Slot f)))"
    using assms by (simp add: parse_entry_day BeginningOfDay_def)
  then have "time_day (SlotToTime g (pd_Slot e)) = time_day (SlotToTime g (pd_Slot f))"
    using midnight_inject range nonneg assms(1,2) by blast
  then show ?thesis by (simp add: entry_day_def fmt_DateOnly_inject)
qed

lemma day_stat_inj:
  assumes "\<forall>e \<in> set es. dated g e"
  shows "inj_on (day_stat typ) ((\<lambda>e. (entry_day g e, name e)) ` set es)"
  using assms entry_day_inject [of g] by (fastforce simp: inj_on_def day_stat_def)

lemma bucket_keys:
  "fst ` set (day_extra_bucket groups g es) = (\<lambda>e. (entry_day g e, BuilderNameFromExtraData (groups e) (pd_ExtraData e))) ` set es"
  "fst ` set (day_pubkey_bucket g es) = (\<lambda>e. (entry_day g e, pd_BuilderPubkey e)) ` set es"
  unfolding day_extra_bucket_def day_pubkey_bucket_def by (rule extra_bucket.keys_counted pubkey_bucket.keys_counted)+

lemma bucket_distinct: "distinct (map fst (day_extra_bucket groups g es))" "distinct (map fst (day_pubkey_bucket g es))"
  unfolding day_extra_bucket_def day_pubkey_bucket_def by (rule extra_bucket.distinct_counted pubkey_bucket.distinct_counted)+

lemma bucket_stat_keys:
  "map (stats_key \<circ> snd) (day_extra_bucket groups g es) =
     map (day_stat ''extra_data'') (map fst (day_extra_bucket groups g es))"
  "map (stats_key \<circ> snd) (day_pubkey_bucket g es) = map (day_stat ''builder_pubkey'') (map fst (day_pubkey_bucket g es))"
  unfolding day_extra_bucket_def day_pubkey_bucket_def
    BuilderStatsEntryTypeExtraData_def [symmetric] BuilderStatsEntryTypeBuilderPubkey_def [symmetric]
  by (rule extra_bucket.stats_keys_counted pubkey_bucket.stats_keys_counted)+

text \<open>The rows of one update: those of the two bucket maps, with distinct keys.\<close>

definition day_rows :: "(BuilderStatsEntry list \<Rightarrow> BuilderStatsEntry list) \<Rightarrow> stats_bucket \<Rightarrow> stats_bucket \<Rightarrow> BuilderStatsEntry list" where
  "day_rows order X Y = concat (map (\<lambda>t. order (bucket_of X t) @ order (bucket_of Y t)) (bucket_times X))"

lemma mset_day_rows:
  assumes "row_order order"
  shows "mset (day_rows order (day_extra_bucket groups g es) (day_pubkey_bucket g es)) =
    mset (map snd (day_extra_bucket groups g es) @ map snd (day_pubkey_bucket g es))"
proof -
  define X Y where "X = day_extra_bucket groups g es" and "Y = day_pubkey_bucket g es"
  define ts where "ts = bucket_times X"
  have "set ts = fst ` fst ` set X" by (simp add: ts_def bucket_times_def image_image)
  then have days: "set ts = entry_day g ` set es"
    unfolding X_def bucket_keys by (simp add: image_image)
  moreover have "fst ` fst ` set Y = entry_day g ` set es"
    unfolding Y_def bucket_keys by (simp add: image_image)
  ultimately have "fst ` fst ` set X = set ts" "fst ` fst ` set Y = set ts"
    using \<open>set ts = fst ` fst ` set X\<close> by simp_all
  then have "\<forall>b \<in> set X. fst (fst b) \<in> set ts" "\<forall>b \<in> set Y. fst (fst b) \<in> set ts"
    by blast+
  then have "filter (\<lambda>b. fst (fst b) \<in> set ts) X = X" "filter (\<lambda>b. fst (fst b) \<in> set ts) Y = Y"
    by (simp_all add: filter_id_conv)
  moreover have "distinct ts" by (simp add: ts_def bucket_times_def)
  ultimately show ?thesis
    using mset_batches [OF assms, of ts X Y] by (simp add: day_rows_def ts_def [symmetric] X_def [symmetric] Y_def [symmetric])
qed

lemma distinct_day_rows:
  assumes "row_order order" and "\<forall>e \<in> set es. dated g e"
  shows "distinct (map stats_key (day_rows order (day_extra_bucket groups g es) (day_pubkey_bucket g es)))"
proof -
  define X Y where "X = day_extra_bucket groups g es" and "Y = day_pubkey_bucket g es"
  have "distinct (map (day_stat ''extra_data'') (map fst X) @ map (day_stat ''builder_pubkey'') (map fst Y))"
    using bucket_distinct(1) [of groups g es] bucket_distinct(2) [of g es] day_stat_inj [OF assms(2)] bucket_keys(1) [of groups g es] bucket_keys(2) [of g es]
    unfolding X_def [symmetric] Y_def [symmetric] by (auto simp: distinct_map day_stat_def simp del: map_map)
  moreover have "map stats_key (map snd X @ map snd Y) =
      map (day_stat ''extra_data'') (map fst X) @ map (day_stat ''builder_pubkey'') (map fst Y)"
    using bucket_stat_keys(1) [of groups g es] bucket_stat_keys(2) [of g es] by (simp add: X_def Y_def)
  ultimately have "distinct (map stats_key (map snd X @ map snd Y))" by (simp only:)
  moreover have "mset (map stats_key (day_rows order X Y)) = mset (map stats_key (map snd X @ map snd Y))"
    using mset_day_rows [OF assms(1), of groups g es] by (simp only: mset_map X_def Y_def)
  ultimately show ?thesis using mset_eq_imp_distinct_iff X_def Y_def by blast
qed

lemma saveDayBucket_map:
  assumes "row_order order" and "\<forall>e \<in> set es. dated g e"
  shows "\<exists>db'. saveDayBucket (\<lambda>_. None) now order groups g es db = (db', True) \<and>
    (\<forall>b \<in> snd ` set (day_extra_bucket groups g es) \<union> snd ` set (day_pubkey_bucket g es).
       stats_of (builder_stats db') (stats_key b) = Some (stats_content b))"
proof -
  define X Y where "X = day_extra_bucket groups g es" and "Y = day_pubkey_bucket g es"
  let ?batches = "map (\<lambda>t. (t, order (bucket_of X t) @ order (bucket_of Y t))) (bucket_times X)"
  have rows: "concat (map snd ?batches) = day_rows order X Y" by (simp add: day_rows_def comp_def)
  have distinct: "distinct (map stats_key (day_rows order X Y))"
    using distinct_day_rows [OF assms] by (simp add: X_def Y_def)
  obtain db' where db': "save_stats (\<lambda>_. None) now ?batches db = (db', True)"
      "stats_of (builder_stats db') = stats_of (builder_stats db) ++ stats_of (day_rows order X Y)"
    using save_stats_map [of ?batches now db] distinct unfolding rows by blast
  have "\<not> list_ex (\<lambda>e. parse_DateOnly (entry_day g e) = None) es"
    using assms(2) by (auto simp: list_ex_iff parse_entry_day)
  then have run: "saveDayBucket (\<lambda>_. None) now order groups g es db = (db', True)"
    using db'(1) by (simp add: saveDayBucket_def X_def Y_def)
  have "stats_of (builder_stats db') (stats_key b) = Some (stats_content b)" if "b \<in> snd ` set X \<union> snd ` set Y" for b
  proof -
    have "b \<in> set (day_rows order X Y)"
      using that mset_eq_setD [OF mset_day_rows [OF assms(1), of groups g es]] by (auto simp: X_def Y_def)
    then have "stats_of (day_rows order X Y) (stats_key b) = Some (stats_content b)"
      by (rule stats_of_distinct [OF distinct])
    then show ?thesis by (simp add: db'(2))
  qed
  with run show ?thesis unfolding X_def Y_def by blast
qed

text \<open>C10. After the daily update, the table holds, for every day and builder of the entries, the number of
  slots of that day the builder won: by the name its extra data gives, and by its public key.\<close>

theorem saveDayBucket_counts:
  fixes groups :: "DataAPIPayloadDeliveredEntry \<Rightarrow> builder_group list" and g :: i64
  assumes "row_order order" and "\<forall>e \<in> set es. dated g e"
  defines "name \<equiv> \<lambda>e. BuilderNameFromExtraData (groups e) (pd_ExtraData e)"
    and "day \<equiv> \<lambda>e. BeginningOfDay (SlotToTime g (pd_Slot e))"
  shows "\<exists>db'. saveDayBucket (\<lambda>_. None) now order groups g es db = (db', True) \<and>
    (\<forall>e \<in> set es.
      (\<exists>x p. stats_of (builder_stats db') (''extra_data'', 24, day e, time_Add (day e) (24 * 3600 * dur_Second), name e) =
         Some (x, p, of_nat (length (filter (\<lambda>f. (entry_day g f, name f) = (entry_day g e, name e)) es)))) \<and>
      (\<exists>x p. stats_of (builder_stats db') (''builder_pubkey'', 24, day e, time_Add (day e) (24 * 3600 * dur_Second), pd_BuilderPubkey e) =
         Some (x, p, of_nat (length (filter (\<lambda>f. (entry_day g f, pd_BuilderPubkey f) = (entry_day g e, pd_BuilderPubkey e)) es)))))"
proof -
  let ?X = "day_extra_bucket groups g es" and ?Y = "day_pubkey_bucket g es"
  obtain db' where run: "saveDayBucket (\<lambda>_. None) now order groups g es db = (db', True)"
    and found: "\<forall>b \<in> snd ` set ?X \<union> snd ` set ?Y. stats_of (builder_stats db') (stats_key b) = Some (stats_content b)"
    using saveDayBucket_map [OF assms(1,2)] by blast
  show ?thesis
  proof (intro exI [of _ db'] conjI ballI)
    fix e assume e: "e \<in> set es"
    then have parse: "parse_DateOnly (entry_day g e) = Some (day e)"
      using assms(2) parse_entry_day by (simp add: day_def)
    obtain b where b: "((entry_day g e, name e), b) \<in> set ?X"
      using bucket_keys(1) [of groups g es] e unfolding name_def by (metis (no_types, lifting) image_iff prod.collapse)
    note counted = extra_bucket.entry_counted [of _ b g groups es, folded day_extra_bucket_def, OF b]
    have "b \<in> snd ` set ?X" using b by (metis image_eqI snd_conv)
    then have "stats_of (builder_stats db') (stats_key b) = Some (stats_content b)" using found by blast
    moreover have "stats_key b = (''extra_data'', 24, day e, time_Add (day e) (24 * 3600 * dur_Second), name e)"
      by (simp add: counted(1) day_stat_def parse BuilderStatsEntryTypeExtraData_def)
    ultimately show "\<exists>x p. stats_of (builder_stats db') (''extra_data'', 24, day e, time_Add (day e) (24 * 3600 * dur_Second), name e) =
         Some (x, p, of_nat (length (filter (\<lambda>f. (entry_day g f, name f) = (entry_day g e, name e)) es)))"
      by (intro exI [of _ "st_ExtraData b"] exI [of _ "st_BuilderPubkeys b"]) (simp only: stats_content_def counted(2) name_def)
    obtain c where c: "((entry_day g e, pd_BuilderPubkey e), c) \<in> set ?Y"
      using bucket_keys(2) [of g es] e by (metis (no_types, lifting) image_iff prod.collapse)
    note counted = pubkey_bucket.entry_counted [of _ c g es, folded day_pubkey_bucket_def, OF c]
    have "c \<in> snd ` set ?Y" using c by (metis image_eqI snd_conv)
    then have "stats_of (builder_stats db') (stats_key c) = Some (stats_content c)" using found by blast
    moreover have "stats_key c = (''builder_pubkey'', 24, day e, time_Add (day e) (24 * 3600 * dur_Second), pd_BuilderPubkey e)"
      by (simp add: counted(1) day_stat_def parse BuilderStatsEntryTypeBuilderPubkey_def)
    ultimately show "\<exists>x p. stats_of (builder_stats db') (''builder_pubkey'', 24, day e, time_Add (day e) (24 * 3600 * dur_Second), pd_BuilderPubkey e) =
         Some (x, p, of_nat (length (filter (\<lambda>f. (entry_day g f, pd_BuilderPubkey f) = (entry_day g e, pd_BuilderPubkey e)) es)))"
      by (intro exI [of _ "st_ExtraData c"] exI [of _ "st_BuilderPubkeys c"]) (simp only: stats_content_def counted(2))
  qed (rule run)
qed

theorem saveDayBucket_counts_witness:
  "\<exists>db'. saveDayBucket (\<lambda>_. None) (GoTime 0 0) (\<lambda>rows. rows) (\<lambda>_. BuilderGroups) GenesisDefault
     [example_payload ''a'' 7200, example_payload ''a'' 7201] empty_db = (db', True)"
proof -
  let ?es = "[example_payload ''a'' 7200, example_payload ''a'' 7201]"
  have "slot_in_range GenesisDefault 7200" "slot_in_range GenesisDefault 7201"
    by (simp_all add: slot_in_range_def GenesisDefault_def)
  moreover have "four_digit_year (SlotToTime GenesisDefault 7200)" "four_digit_year (SlotToTime GenesisDefault 7201)"
    by code_simp+
  ultimately have "\<forall>e \<in> set ?es. dated GenesisDefault e" by (simp add: dated_def example_payload_def)
  moreover have "row_order (\<lambda>rows. rows)" by (simp add: row_order_def)
  ultimately show ?thesis using saveDayBucket_counts by blast
qed

text \<open>A line is dropped from the list of extra data when it is a suffix of a line that is already there.\<close>

lemma add_line_drops_suffix:
  assumes "add_line (s @ t) acc = acc'"
  shows "add_line t acc' = acc'"
proof -
  have "strings_Contains acc' (t @ [CHR 0x0A])"
  proof (cases "strings_Contains acc ((s @ t) @ [CHR 0x0A])")
    case True
    then obtain a b where "acc = a @ ((s @ t) @ [CHR 0x0A]) @ b" unfolding strings_Contains_iff by blast
    then have "acc = (a @ s) @ (t @ [CHR 0x0A]) @ b" by simp
    moreover have "acc' = acc" using True assms by (simp add: add_line_def)
    ultimately show ?thesis unfolding strings_Contains_iff by blast
  next
    case False
    then have "acc' = (acc @ s) @ (t @ [CHR 0x0A]) @ []" using assms by (simp add: add_line_def)
    then show ?thesis unfolding strings_Contains_iff by blast
  qed
  then show ?thesis by (simp add: add_line_def)
qed

end
