(* ===== verification/WebsiteUtils.thy ===== *)
theory WebsiteUtils
  imports EthValues Database BuilderGroups "HOL-Library.AList"
begin

text \<open>
  \<open>services/website/utils.go\<close> and \<open>types.go\<close>: percentages, decimal arithmetic on strings, and the
  consolidation of builders into groups.  The number printer and the title caser of \<open>x/text\<close> and the table
  writer are parameters.  Go iterates over its maps in any order and \<open>sort.Slice\<close> is not stable: \<open>plan\<close> is
  any permutation, applied before a stable sort, which gives every order that the code may give.
\<close>

section \<open>Numbers\<close>

definition weiBigIntToEthBigFloat :: "int \<Rightarrow> bigfloat" where
  "weiBigIntToEthBigFloat wei =
     (let fbalance = (case bf_SetString 64 (int_str wei) of Some x \<Rightarrow> x | None \<Rightarrow> BF False 0 0)
      in bf_quo 64 fbalance (BF False (10 ^ 18) 0))"

definition weiToEth :: "string \<Rightarrow> string" where
  "weiToEth wei = bf_String (weiBigIntToEthBigFloat (fst (big_SetString wei)))"

definition prettyInt :: "(u64 \<Rightarrow> string) \<Rightarrow> u64 \<Rightarrow> string" where
  "prettyInt printer i = printer i"

definition caseIt :: "(string \<Rightarrow> string) \<Rightarrow> string \<Rightarrow> string" where
  "caseIt caser s = caser s"

text \<open>A \<open>float64\<close> that is not negative: the quotient of two counters times a hundred.\<close>

datatype float64 = F64 bigfloat | F64_Inf | F64_NaN

definition f64_of_u64 :: "u64 \<Rightarrow> bigfloat" where
  "f64_of_u64 n = round_quot 53 False (unat n) 1"

definition percent_value :: "u64 \<Rightarrow> u64 \<Rightarrow> float64" where
  "percent_value cnt tot =
     (if tot = 0 then (if cnt = 0 then F64_NaN else F64_Inf)
      else let q = bf_quo 53 (f64_of_u64 cnt) (f64_of_u64 tot)
           in F64 (bf_of_int_quot 53 False (int (bf_mant q) * 100) (bf_exp q)))"

text \<open>\<open>fmt.Sprintf("%.2f", p)\<close>\<close>

definition fmt_2f :: "float64 \<Rightarrow> string" where
  "fmt_2f p = (case p of F64 x \<Rightarrow> bf_Text_f x 2 | F64_Inf \<Rightarrow> ''+Inf'' | F64_NaN \<Rightarrow> ''NaN'')"

definition percent :: "(float64 \<Rightarrow> string) \<Rightarrow> u64 \<Rightarrow> u64 \<Rightarrow> string" where
  "percent printer cnt tot = printer (percent_value cnt tot)"

text \<open>A string that is not a number leaves its receiver in a state that \<open>junk\<close> gives.\<close>

definition strToBigFloat :: "(string \<Rightarrow> bigfloat) \<Rightarrow> string \<Rightarrow> bigfloat" where
  "strToBigFloat junk f = (case bf_SetString 64 f of Some x \<Rightarrow> x | None \<Rightarrow> junk f)"

definition addFloatStrings :: "(string \<Rightarrow> bigfloat) \<Rightarrow> string \<Rightarrow> string \<Rightarrow> nat \<Rightarrow> string" where
  "addFloatStrings junk f1 f2 decimals =
     (let bf1 = strToBigFloat junk f1; bf2 = strToBigFloat junk f2
      in bf_Text_f (bf_add 64 bf1 bf2) decimals)"

text \<open>Zero by zero panics, which is \<open>None\<close>.\<close>

definition divFloatStrings :: "(string \<Rightarrow> bigfloat) \<Rightarrow> string \<Rightarrow> string \<Rightarrow> nat \<Rightarrow> string option" where
  "divFloatStrings junk f1 f2 decimals =
     (let bf1 = strToBigFloat junk f1; bf2 = strToBigFloat junk f2
      in if bf_mant bf2 = 0
         then (if bf_mant bf1 = 0 then None else Some (if bf_neg bf1 \<noteq> bf_neg bf2 then ''-Inf'' else ''+Inf''))
         else Some (bf_Text_f (bf_quo 64 bf1 bf2) decimals))"

section \<open>Tables\<close>

record TopBuilderDisplayEntry =
  td_Info :: TopBuilderEntry
  td_Children :: "TopBuilderEntry list"

definition builderTable :: "(u64 \<Rightarrow> string) \<Rightarrow> (string list \<Rightarrow> string list list \<Rightarrow> 't) \<Rightarrow> TopBuilderDisplayEntry list \<Rightarrow> 't" where
  "builderTable printer render builders =
     render [''Builder extra_data'', ''Blocks'', ''%'']
       (map (\<lambda>b. [tb_ExtraData (td_Info b), printer (tb_NumBlocks (td_Info b)), tb_Percent (td_Info b)]) builders)"

definition builderProfitTable :: "(u64 \<Rightarrow> string) \<Rightarrow> (string list \<Rightarrow> string list list \<Rightarrow> 't) \<Rightarrow> BuilderProfitEntry list \<Rightarrow> 't" where
  "builderProfitTable printer render entries =
     render [''Builder extra_data'', ''Blocks'', ''Blocks profit'', ''Blocks subsidy'', ''Profit tot'', ''Subsidies tot'']
       (map (\<lambda>b. [bp_ExtraData b, printer (bp_NumBlocks b), printer (bp_NumBlocksProfit b),
                 printer (bp_NumBlocksSubsidised b), bp_ProfitTotal b, bp_SubsidiesTotal b]) entries)"

definition relayTable :: "(u64 \<Rightarrow> string) \<Rightarrow> (string list \<Rightarrow> string list list \<Rightarrow> 't) \<Rightarrow> TopRelayEntry list \<Rightarrow> 't" where
  "relayTable printer render relays =
     render [''Relay'', ''Payloads'', ''%'']
       (map (\<lambda>r. [tr_Relay r, printer (tr_NumPayloads r), tr_Percent r]) relays)"

section \<open>Consolidation\<close>

text \<open>
  The map both consolidations build: an entry that a group takes opens the group or joins it, any other entry
  is put under its own name, over what is there.  A join may panic, which is \<open>None\<close>.
\<close>

definition group_step ::
    "('e \<Rightarrow> string) \<Rightarrow> ('e \<Rightarrow> string option) \<Rightarrow> (string \<Rightarrow> 'e \<Rightarrow> 'd) \<Rightarrow> ('e \<Rightarrow> 'd \<Rightarrow> 'd option) \<Rightarrow> ('e \<Rightarrow> 'd) \<Rightarrow>
     'e \<Rightarrow> (string \<times> 'd) list \<Rightarrow> (string \<times> 'd) list option" where
  "group_step name grp opened join single e m =
     (case grp e of
        Some k \<Rightarrow>
          (case map_of m k of
             None \<Rightarrow> Some (AList.update k (opened k e) m)
           | Some d \<Rightarrow> (case join e d of None \<Rightarrow> None | Some d' \<Rightarrow> Some (AList.update k d' m)))
      | None \<Rightarrow> Some (AList.update (name e) (single e) m))"

fun group_all ::
    "('e \<Rightarrow> (string \<times> 'd) list \<Rightarrow> (string \<times> 'd) list option) \<Rightarrow> 'e list \<Rightarrow> (string \<times> 'd) list \<Rightarrow> (string \<times> 'd) list option" where
  "group_all step [] m = Some m"
| "group_all step (e # es) m = (case step e m of None \<Rightarrow> None | Some m' \<Rightarrow> group_all step es m')"

definition open_builder :: "string \<Rightarrow> TopBuilderEntry \<Rightarrow> TopBuilderDisplayEntry" where
  "open_builder k entry =
     \<lparr>td_Info = \<lparr>tb_ExtraData = k, tb_NumBlocks = tb_NumBlocks entry, tb_Percent = [], tb_Aliases = []\<rparr>,
      td_Children = [entry]\<rparr>"

definition join_builder :: "TopBuilderEntry \<Rightarrow> TopBuilderDisplayEntry \<Rightarrow> TopBuilderDisplayEntry" where
  "join_builder entry d = d
     \<lparr>td_Info := (td_Info d)\<lparr>tb_NumBlocks := tb_NumBlocks (td_Info d) + tb_NumBlocks entry\<rparr>,
      td_Children := td_Children d @ [entry]\<rparr>"

definition single_builder :: "TopBuilderEntry \<Rightarrow> TopBuilderDisplayEntry" where
  "single_builder entry = \<lparr>td_Info = entry, td_Children = []\<rparr>"

definition builder_step ::
    "(TopBuilderEntry \<Rightarrow> builder_group list) \<Rightarrow> TopBuilderEntry \<Rightarrow> (string \<times> TopBuilderDisplayEntry) list \<Rightarrow>
     (string \<times> TopBuilderDisplayEntry) list option" where
  "builder_step groups = group_step tb_ExtraData (\<lambda>entry. find_group (groups entry) (tb_ExtraData entry))
     open_builder (\<lambda>entry d. Some (join_builder entry d)) single_builder"

definition builders_map ::
    "(TopBuilderEntry \<Rightarrow> builder_group list) \<Rightarrow> TopBuilderEntry list \<Rightarrow> (string \<times> TopBuilderDisplayEntry) list" where
  "builders_map groups builders = the (group_all (builder_step groups) builders [])"

definition share :: "u64 \<Rightarrow> TopBuilderEntry \<Rightarrow> TopBuilderEntry" where
  "share tot entry = entry\<lparr>tb_Percent := fmt_2f (percent_value (tb_NumBlocks entry) tot)\<rparr>"

definition display_entry ::
    "(TopBuilderEntry list \<Rightarrow> TopBuilderEntry list) \<Rightarrow> u64 \<Rightarrow> TopBuilderDisplayEntry \<Rightarrow> TopBuilderDisplayEntry" where
  "display_entry plan tot d =
     \<lparr>td_Info = share tot (td_Info d),
      td_Children = order_desc plan tb_NumBlocks (map (share tot) (td_Children d))\<rparr>"

definition consolidateBuilderEntries ::
    "(TopBuilderEntry \<Rightarrow> builder_group list) \<Rightarrow> (TopBuilderEntry list \<Rightarrow> TopBuilderEntry list) \<Rightarrow>
     (TopBuilderDisplayEntry list \<Rightarrow> TopBuilderDisplayEntry list) \<Rightarrow> TopBuilderEntry list \<Rightarrow> TopBuilderDisplayEntry list" where
  "consolidateBuilderEntries groups childPlan plan builders =
     (let buildersNumPayloads = sum_list (map tb_NumBlocks builders)
      in order_desc plan (\<lambda>d. tb_NumBlocks (td_Info d))
           (map (\<lambda>(k, d). display_entry childPlan buildersNumPayloads d) (builders_map groups builders)))"

text \<open>Profits: the totals are strings with four decimals, the average is over the blocks of the group so far.\<close>

definition open_profit :: "string \<Rightarrow> BuilderProfitEntry \<Rightarrow> BuilderProfitEntry" where
  "open_profit k entry = entry\<lparr>bp_ExtraData := k, bp_Aliases := [bp_ExtraData entry], bp_ProfitPerBlockMedian := []\<rparr>"

definition join_profit :: "(string \<Rightarrow> bigfloat) \<Rightarrow> BuilderProfitEntry \<Rightarrow> BuilderProfitEntry \<Rightarrow> BuilderProfitEntry option" where
  "join_profit junk entry d =
     (let blocks = bp_NumBlocks d + bp_NumBlocks entry;
          profit = addFloatStrings junk (bp_ProfitTotal d) (bp_ProfitTotal entry) 4
      in case divFloatStrings junk profit (nat_str (unat blocks)) 4 of
           None \<Rightarrow> None
         | Some avg \<Rightarrow> Some (d
             \<lparr>bp_Aliases := bp_Aliases d @ [bp_ExtraData entry],
              bp_NumBlocks := blocks,
              bp_NumBlocksProfit := bp_NumBlocksProfit d + bp_NumBlocksProfit entry,
              bp_NumBlocksSubsidised := bp_NumBlocksSubsidised d + bp_NumBlocksSubsidised entry,
              bp_ProfitPerBlockAvg := avg,
              bp_ProfitTotal := profit,
              bp_SubsidiesTotal := addFloatStrings junk (bp_SubsidiesTotal d) (bp_SubsidiesTotal entry) 4\<rparr>))"

definition profit_step ::
    "(string \<Rightarrow> bigfloat) \<Rightarrow> (BuilderProfitEntry \<Rightarrow> builder_group list) \<Rightarrow> BuilderProfitEntry \<Rightarrow>
     (string \<times> BuilderProfitEntry) list \<Rightarrow> (string \<times> BuilderProfitEntry) list option" where
  "profit_step junk groups = group_step bp_ExtraData (\<lambda>entry. find_group (groups entry) (bp_ExtraData entry))
     open_profit (join_profit junk) (\<lambda>entry. entry)"

text \<open>\<open>Cmp\<close> orders finite floats by their value.\<close>

definition bf_rat :: "bigfloat \<Rightarrow> rat" where
  "bf_rat x = (if bf_neg x then - 1 else 1) * of_nat (bf_mant x) *
     (if bf_exp x < 0 then 1 / 2 ^ nat (- bf_exp x) else 2 ^ nat (bf_exp x))"

definition consolidateBuilderProfitEntries ::
    "(string \<Rightarrow> bigfloat) \<Rightarrow> (BuilderProfitEntry \<Rightarrow> builder_group list) \<Rightarrow> (BuilderProfitEntry list \<Rightarrow> BuilderProfitEntry list) \<Rightarrow>
     BuilderProfitEntry list \<Rightarrow> BuilderProfitEntry list option" where
  "consolidateBuilderProfitEntries junk groups plan entries =
     (case group_all (profit_step junk groups) entries [] of
        None \<Rightarrow> None
      | Some m \<Rightarrow> Some (order_desc plan (\<lambda>e. bf_rat (strToBigFloat junk (bp_ProfitTotal e))) (map snd m)))"

section \<open>Relays, dates and names\<close>

definition prepareRelaysEntries :: "TopRelayEntry list \<Rightarrow> TopRelayEntry list" where
  "prepareRelaysEntries relays =
     (let resp = filter (\<lambda>entry. tr_NumPayloads entry \<noteq> 0) relays;
          numPayloads = sum_list (map tr_NumPayloads resp)
      in map (\<lambda>entry. entry\<lparr>tr_Percent := fmt_2f (percent_value (tr_NumPayloads entry) numPayloads)\<rparr>) resp)"

text \<open>\<open>Weekday\<close> counts from Sunday; the first of January 1970 was a Thursday.\<close>

definition time_Weekday :: "gotime \<Rightarrow> int" where
  "time_Weekday t = (time_day t + 4) mod 7"

definition getLastWednesday :: "gotime \<Rightarrow> gotime" where
  "getLastWednesday now =
     (let dayOffset = time_Weekday now - 3;
          targetDay = time_day now - dayOffset;
          targetDate = midnight targetDay
      in if time_After targetDate now then midnight (targetDay - 7) else targetDate)"

text \<open>Strings beyond ASCII go through the tables of \<open>unicode\<close>, a parameter.\<close>

definition ascii_space :: "char \<Rightarrow> bool" where
  "ascii_space c \<longleftrightarrow> c \<in> {CHR 0x09, CHR 0x0A, CHR 0x0B, CHR 0x0C, CHR 0x0D, CHR 0x20}"

definition lowercaseNoWhitespace :: "(string \<Rightarrow> string) \<Rightarrow> string \<Rightarrow> string" where
  "lowercaseNoWhitespace unicode str =
     (if list_all (\<lambda>c. of_char c < (128 :: nat)) str
      then strings_ToLower (filter (\<lambda>c. \<not> ascii_space c) str) else unicode str)"

section \<open>What a consolidation keeps\<close>

text \<open>
  A consolidation relies on one contract: \<open>stands k d es\<close> says that the display entry \<open>d\<close> stands for the
  entries \<open>es\<close> under the name \<open>k\<close>; opening a group, joining one and displaying an entry alone keep it.  Then the
  map holds, under each name, an entry that stands for exactly the entries of that name, in order, provided
  no entry outside the groups bears the name of a group or of another entry.
\<close>

definition final_name :: "('e \<Rightarrow> string) \<Rightarrow> ('e \<Rightarrow> string option) \<Rightarrow> 'e \<Rightarrow> string" where
  "final_name name grp e = (case grp e of Some k \<Rightarrow> k | None \<Rightarrow> name e)"

definition no_impostors :: "string set \<Rightarrow> ('e \<Rightarrow> string) \<Rightarrow> ('e \<Rightarrow> string option) \<Rightarrow> 'e list \<Rightarrow> bool" where
  "no_impostors known name grp es \<longleftrightarrow> distinct (map name es) \<and>
     (\<forall>e \<in> set es. grp e = None \<longrightarrow> name e \<notin> known)"

lemma sum_regroup:
  fixes w :: "'e \<Rightarrow> 'm::comm_monoid_add"
  assumes "distinct ks"
  shows "sum_list (map (\<lambda>k. sum_list (map w (filter (\<lambda>e. f e = k) es))) ks) =
    sum_list (map w (filter (\<lambda>e. f e \<in> set ks) es))"
  using assms
proof (induction ks)
  case (Cons k ks)
  have "sum_list (map w (filter (\<lambda>e. f e = k \<or> f e \<in> set ks) es)) =
      sum_list (map w (filter (\<lambda>e. f e = k) es)) + sum_list (map w (filter (\<lambda>e. f e \<in> set ks) es))"
    using Cons.prems by (induction es) (auto simp: ac_simps)
  with Cons show ?case by simp
qed simp

lemma group_all_snoc:
  "group_all step (es @ [e]) m = (case group_all step es m of None \<Rightarrow> None | Some m' \<Rightarrow> step e m')"
  by (induction es arbitrary: m) (auto split: option.splits)

locale consolidation =
  fixes known :: "string set" and name :: "'e \<Rightarrow> string" and grp :: "'e \<Rightarrow> string option"
    and opened :: "string \<Rightarrow> 'e \<Rightarrow> 'd" and join :: "'e \<Rightarrow> 'd \<Rightarrow> 'd option" and single :: "'e \<Rightarrow> 'd"
    and is_group :: "'d \<Rightarrow> bool" and stands :: "string \<Rightarrow> 'd \<Rightarrow> 'e list \<Rightarrow> bool"
  assumes grp_known: "grp e = Some k \<Longrightarrow> k \<in> known"
    and opened: "is_group (opened k e) \<and> stands k (opened k e) [e]"
    and joined: "is_group d \<Longrightarrow> stands k d es \<Longrightarrow> join e d = Some d' \<Longrightarrow> is_group d' \<and> stands k d' (es @ [e])"
    and single: "stands (name e) (single e) [e]"
begin

abbreviation built :: "'e list \<Rightarrow> (string \<times> 'd) list \<Rightarrow> (string \<times> 'd) list option" where
  "built \<equiv> group_all (group_step name grp opened join single)"

abbreviation final :: "'e \<Rightarrow> string" where
  "final \<equiv> final_name name grp"

lemma step_update:
  assumes "group_step name grp opened join single e m = Some m'"
  obtains d where "m' = AList.update (final e) d m" and
    "grp e = None \<and> d = single e \<or> (\<exists>k. grp e = Some k \<and> (map_of m k = None \<and> d = opened k e \<or>
       (\<exists>d0. map_of m k = Some d0 \<and> join e d0 = Some d)))"
  using assms by (auto simp: group_step_def final_name_def split: option.splits)

lemma step_keys:
  assumes "group_step name grp opened join single e m = Some m'"
  shows "fst ` set m' = insert (final e) (fst ` set m)"
  using assms by (elim step_update) (simp add: dom_update)

lemma step_distinct:
  assumes "group_step name grp opened join single e m = Some m'" "distinct (map fst m)"
  shows "distinct (map fst m')"
  using assms by (elim step_update) (simp add: distinct_update)

lemma built_keys: "built es m = Some m' \<Longrightarrow> fst ` set m' = final ` set es \<union> fst ` set m"
proof (induction es arbitrary: m)
  case (Cons e es)
  then obtain m1 where "group_step name grp opened join single e m = Some m1" "built es m1 = Some m'"
    by (auto split: option.splits)
  with Cons.IH [of m1] step_keys [of e m m1] show ?case by simp
qed simp

lemma built_distinct: "built es m = Some m' \<Longrightarrow> distinct (map fst m) \<Longrightarrow> distinct (map fst m')"
proof (induction es arbitrary: m)
  case (Cons e es)
  then obtain m1 where "group_step name grp opened join single e m = Some m1" "built es m1 = Some m'"
    by (auto split: option.splits)
  with Cons step_distinct show ?case by blast
qed simp

lemma built_stands:
  assumes "built es [] = Some m" "no_impostors known name grp es" "map_of m k = Some d"
  shows "stands k d (filter (\<lambda>e. final e = k) es) \<and> (k \<in> known \<longrightarrow> is_group d)"
  using assms
proof (induction es arbitrary: m k d rule: rev_induct)
  case (snoc e es)
  from snoc.prems(1) obtain m0 where m0: "built es [] = Some m0" and step: "group_step name grp opened join single e m0 = Some m"
    by (auto simp: group_all_snoc split: option.splits)
  have no: "no_impostors known name grp es" and fresh: "name e \<notin> name ` set es"
      and own: "grp e = None \<Longrightarrow> name e \<notin> known"
    using snoc.prems(2) by (auto simp: no_impostors_def)
  note IH = snoc.IH [OF m0 no]
  have none: "filter (\<lambda>f. final f = l) es = []" if "map_of m0 l = None" for l
    using that built_keys [OF m0] by (auto simp: map_of_eq_None_iff filter_empty_conv)
  from step obtain d' where m: "m = AList.update (final e) d' m0"
    and d': "grp e = None \<and> d' = single e \<or> (\<exists>k. grp e = Some k \<and> (map_of m0 k = None \<and> d' = opened k e \<or>
       (\<exists>d0. map_of m0 k = Some d0 \<and> join e d0 = Some d')))"
    by (elim step_update)
  show ?case
  proof (cases "final e = k")
    case False
    with snoc.prems(3) have "map_of m0 k = Some d" by (simp add: m update_conv')
    with IH False show ?thesis by simp
  next
    case True
    with snoc.prems(3) have d: "d = d'" by (simp add: m update_conv')
    from d' consider "grp e = None" "d' = single e" | "grp e = Some k" "map_of m0 k = None" "d' = opened k e"
      | d0 where "grp e = Some k" "map_of m0 k = Some d0" "join e d0 = Some d'"
      using True by (auto simp: final_name_def)
    then show ?thesis
    proof cases
      case 1
      then have k: "k = name e" using True by (simp add: final_name_def)
      have "final f \<noteq> k" if "f \<in> set es" for f
      proof (cases "grp f")
        case None
        moreover have "name f \<in> name ` set es" using that by (rule imageI)
        ultimately show ?thesis using fresh by (metis final_name_def k option.simps(4))
      next
        case (Some l)
        with grp_known own 1(1) show ?thesis by (auto simp: final_name_def k)
      qed
      then have "filter (\<lambda>f. final f = k) es = []" by (simp add: filter_empty_conv)
      with 1 True own k d single show ?thesis by simp
    next
      case 2
      with True none d opened show ?thesis by simp
    next
      case 3
      then have "is_group d0" "stands k d0 (filter (\<lambda>e. final e = k) es)" using IH grp_known by blast+
      with 3 True d joined show ?thesis by simp
    qed
  qed
qed simp

text \<open>No join panics when none can for the entries at hand.\<close>

lemma built_some:
  assumes "no_impostors known name grp es"
    and "\<And>k d fs e. is_group d \<Longrightarrow> stands k d fs \<Longrightarrow> mset (fs @ [e]) \<subseteq># mset es \<Longrightarrow> join e d \<noteq> None"
  shows "\<exists>m. built es [] = Some m"
  using assms
proof (induction es rule: rev_induct)
  case (snoc e es)
  have no: "no_impostors known name grp es" using snoc.prems(1) by (auto simp: no_impostors_def)
  moreover have "join f d \<noteq> None" if "is_group d" "stands k d fs" "mset (fs @ [f]) \<subseteq># mset es" for k d fs f
  proof -
    have "mset es \<subseteq># mset (es @ [e])" by simp
    with that(3) have "mset (fs @ [f]) \<subseteq># mset (es @ [e])" by (rule subset_mset.order_trans)
    with that(1,2) show ?thesis by (rule snoc.prems(2))
  qed
  ultimately obtain m where m: "built es [] = Some m" using snoc.IH by blast
  have joins: "join e d \<noteq> None" if "grp e = Some k" "map_of m k = Some d" for k d
  proof (rule snoc.prems(2))
    show "stands k d (filter (\<lambda>e. final e = k) es)" "is_group d"
      using built_stands [OF m no that(2)] grp_known [OF that(1)] by blast+
    show "mset (filter (\<lambda>e. final e = k) es @ [e]) \<subseteq># mset (es @ [e])" by simp
  qed
  have "group_step name grp opened join single e m \<noteq> None"
  proof (cases "\<exists>k d. grp e = Some k \<and> map_of m k = Some d")
    case True
    then obtain k d d' where "grp e = Some k" "map_of m k = Some d" "join e d = Some d'" using joins by blast
    then show ?thesis by (simp add: group_step_def)
  qed (auto simp: group_step_def split: option.splits)
  then show ?case by (auto simp: group_all_snoc m)
qed simp

lemma built_sum:
  fixes w :: "'e \<Rightarrow> 'm::comm_monoid_add"
  assumes "built es [] = Some m" and "\<And>k d. (k, d) \<in> set m \<Longrightarrow> v d = sum_list (map w (filter (\<lambda>e. final e = k) es))"
  shows "sum_list (map (\<lambda>(k, d). v d) m) = sum_list (map w es)"
proof -
  have dist: "distinct (map fst m)" using built_distinct [OF assms(1)] by simp
  have "sum_list (map (\<lambda>(k, d). v d) m) =
      sum_list (map (\<lambda>k. sum_list (map w (filter (\<lambda>e. final e = k) es))) (map fst m))"
    using assms(2) by (auto simp: split_beta comp_def intro!: arg_cong [where f = sum_list])
  also have "\<dots> = sum_list (map w (filter (\<lambda>e. final e \<in> set (map fst m)) es))"
    using dist by (rule sum_regroup)
  also have "filter (\<lambda>e. final e \<in> set (map fst m)) es = es"
    using built_keys [OF assms(1)] by (simp add: filter_id_conv)
  finally show ?thesis .
qed

end

section \<open>Builders\<close>

definition known_groups :: "('e \<Rightarrow> builder_group list) \<Rightarrow> string set" where
  "known_groups groups = (\<Union>e. fst ` set (groups e))"

lemma find_group_known: "find_group (groups e) s = Some k \<Longrightarrow> k \<in> known_groups groups"
proof -
  have "find_group gs s = Some k \<Longrightarrow> k \<in> fst ` set gs" for gs by (induction gs s rule: find_group.induct) (auto split: if_splits)
  then show "find_group (groups e) s = Some k \<Longrightarrow> k \<in> known_groups groups" unfolding known_groups_def by blast
qed

lemma known_groups_perm:
  assumes "\<And>e. mset (groups e) = mset BuilderGroups"
  shows "known_groups groups = fst ` set BuilderGroups"
proof -
  have "set (groups e) = set BuilderGroups" for e using assms by (rule mset_eq_setD)
  then show ?thesis by (simp add: known_groups_def)
qed

abbreviation builder_group_of :: "(TopBuilderEntry \<Rightarrow> builder_group list) \<Rightarrow> TopBuilderEntry \<Rightarrow> string option" where
  "builder_group_of groups \<equiv> \<lambda>entry. find_group (groups entry) (tb_ExtraData entry)"

definition members :: "TopBuilderDisplayEntry \<Rightarrow> TopBuilderEntry list" where
  "members d = (if td_Children d = [] then [td_Info d] else td_Children d)"

definition stands_for :: "string \<Rightarrow> TopBuilderDisplayEntry \<Rightarrow> TopBuilderEntry list \<Rightarrow> bool" where
  "stands_for k d es \<longleftrightarrow> members d = es \<and> tb_ExtraData (td_Info d) = k \<and>
     tb_NumBlocks (td_Info d) = sum_list (map tb_NumBlocks es)"

interpretation builders: consolidation "known_groups groups" tb_ExtraData "builder_group_of groups"
    open_builder "\<lambda>entry d. Some (join_builder entry d)" single_builder "\<lambda>d. td_Children d \<noteq> []" stands_for for groups
  by unfold_locales
    (auto simp: open_builder_def join_builder_def single_builder_def stands_for_def members_def intro: find_group_known)

lemma builders_map_some: "group_all (builder_step groups) es [] = Some (builders_map groups es)"
proof -
  have "group_all (builder_step groups) es m \<noteq> None" for m
    by (induction es arbitrary: m) (auto simp: builder_step_def group_step_def split: option.splits)
  then show ?thesis by (simp add: builders_map_def)
qed


lemma sum_list_singletons: "sum_list (map (\<lambda>e. {#e#}) xs) = mset xs"
  by (induction xs) simp_all

lemma mset_concat_perm: "mset xs = mset ys \<Longrightarrow> mset (concat (map f xs)) = mset (concat (map f ys))"
  by (metis (no_types, lifting) mset_concat mset_map sum_mset_sum_list)

lemma builders_map_facts:
  assumes "\<And>e. mset (groups e) = mset BuilderGroups"
    and "no_impostors (fst ` set BuilderGroups) tb_ExtraData (builder_group_of groups) es"
  defines "m \<equiv> builders_map groups es" and "final \<equiv> final_name tb_ExtraData (builder_group_of groups)"
  shows "map (\<lambda>(k, d). tb_ExtraData (td_Info d)) m = map fst m" "distinct (map fst m)" "fst ` set m = final ` set es"
    "sum_list (map (\<lambda>(k, d). tb_NumBlocks (td_Info d)) m) = sum_list (map tb_NumBlocks es)"
    "mset (concat (map (\<lambda>(k, d). members d) m)) = mset es"
    "(k, d) \<in> set m \<Longrightarrow> members d = filter (\<lambda>e. final e = k) es \<and>
       tb_NumBlocks (td_Info d) = sum_list (map tb_NumBlocks (members d))"
proof -
  have m: "group_all (group_step tb_ExtraData (builder_group_of groups) open_builder (\<lambda>entry d. Some (join_builder entry d)) single_builder) es [] = Some m"
    using builders_map_some [of groups es] by (simp add: m_def builder_step_def)
  have no: "no_impostors (known_groups groups) tb_ExtraData (builder_group_of groups) es"
    using assms(2) known_groups_perm [of groups] assms(1) by simp
  show dist: "distinct (map fst m)" using builders.built_distinct [OF m] by simp
  have stands: "stands_for k d (filter (\<lambda>e. final e = k) es)" if "(k, d) \<in> set m" for k d
    using builders.built_stands [OF m no map_of_is_SomeI [OF dist that]] by (simp only: final_def)
  then show "map (\<lambda>(k, d). tb_ExtraData (td_Info d)) m = map fst m" by (auto simp: stands_for_def)
  show "fst ` set m = final ` set es" using builders.built_keys [OF m] by (simp add: final_def)
  show "sum_list (map (\<lambda>(k, d). tb_NumBlocks (td_Info d)) m) = sum_list (map tb_NumBlocks es)"
    using stands by (intro builders.built_sum [OF m]) (simp add: stands_for_def final_def)
  have "mset (concat (map (\<lambda>(k, d). members d) m)) = sum_list (map (\<lambda>(k, d). mset (members d)) m)"
    by (simp add: mset_concat comp_def case_prod_unfold)
  also have "\<dots> = sum_list (map (\<lambda>e. {#e#}) es)"
    using stands by (intro builders.built_sum [OF m]) (simp add: stands_for_def final_def sum_list_singletons del: mset_filter)
  finally show "mset (concat (map (\<lambda>(k, d). members d) m)) = mset es" by (simp only: sum_list_singletons)
  assume "(k, d) \<in> set m"
  from stands [OF this]
  show "members d = filter (\<lambda>e. final e = k) es \<and> tb_NumBlocks (td_Info d) = sum_list (map tb_NumBlocks (members d))"
    by (simp add: stands_for_def)
qed

lemma display_entry_info:
  "tb_ExtraData (td_Info (display_entry childPlan t d)) = tb_ExtraData (td_Info d)"
  "tb_NumBlocks (td_Info (display_entry childPlan t d)) = tb_NumBlocks (td_Info d)"
  by (simp_all add: display_entry_def share_def)

lemma display_entry_members:
  assumes "row_order childPlan"
  shows "mset (members (display_entry childPlan tot d)) = mset (map (share tot) (members d))"
proof -
  have "order_desc childPlan tb_NumBlocks xs = [] \<longleftrightarrow> xs = []" for xs
    using mset_order_desc [OF assms, of tb_NumBlocks xs] by (metis mset_zero_iff)
  then show ?thesis
    using mset_order_desc [OF assms, of tb_NumBlocks "map (share tot) (td_Children d)"]
    by (simp add: members_def display_entry_def)
qed

lemma display_entry_blocks:
  assumes "row_order childPlan"
  shows "sum_list (map tb_NumBlocks (members (display_entry childPlan tot d))) = sum_list (map tb_NumBlocks (members d))"
proof -
  have "map tb_NumBlocks (map (share tot) xs) = map tb_NumBlocks xs" for xs by (simp add: share_def)
  then show ?thesis using sum_list_map_perm [OF display_entry_members [OF assms]] by metis
qed

lemma consolidateBuilderEntries_keeps:
  assumes groups: "\<And>e. mset (groups e) = mset BuilderGroups" and plans: "row_order childPlan" "row_order plan"
    and no: "no_impostors (fst ` set BuilderGroups) tb_ExtraData (builder_group_of groups) es"
  defines "res \<equiv> consolidateBuilderEntries groups childPlan plan es"
    and "tot \<equiv> sum_list (map tb_NumBlocks es)"
  shows "mset (concat (map members res)) = mset (map (share tot) es) \<and>
    (\<forall>d \<in> set res. tb_NumBlocks (td_Info d) = sum_list (map tb_NumBlocks (members d))) \<and>
    sum_list (map (\<lambda>d. tb_NumBlocks (td_Info d)) res) = tot \<and>
    distinct (map (\<lambda>d. tb_ExtraData (td_Info d)) res) \<and>
    (\<lambda>d. tb_ExtraData (td_Info d)) ` set res = final_name tb_ExtraData (builder_group_of groups) ` set es \<and>
    sorted_wrt (\<lambda>a b. tb_NumBlocks (td_Info b) \<le> tb_NumBlocks (td_Info a)) res \<and>
    (\<forall>d \<in> set res. sorted_wrt (\<lambda>a b. tb_NumBlocks b \<le> tb_NumBlocks a) (td_Children d))"
proof (intro conjI)
  define m where "m = builders_map groups es"
  define ds where "ds = map (\<lambda>(k, d). display_entry childPlan tot d) m"
  have res: "res = order_desc plan (\<lambda>d. tb_NumBlocks (td_Info d)) ds"
    by (simp add: res_def consolidateBuilderEntries_def Let_def tot_def ds_def m_def)
  have perm: "mset res = mset ds" unfolding res by (rule mset_order_desc [OF plans(2)])
  note facts = builders_map_facts [OF groups no, folded m_def]
  have "mset (concat (map members res)) = mset (concat (map members ds))" by (rule mset_concat_perm [OF perm])
  also have "\<dots> = sum_list (map (\<lambda>(k, d). mset (map (share tot) (members d))) m)"
    by (simp add: ds_def mset_concat comp_def case_prod_unfold display_entry_members [OF plans(1)])
  also have "\<dots> = image_mset (share tot) (mset (concat (map (\<lambda>(k, d). members d) m)))"
    by (induction m) auto
  finally show "mset (concat (map members res)) = mset (map (share tot) es)" by (simp add: facts(5))
  show "\<forall>d \<in> set res. tb_NumBlocks (td_Info d) = sum_list (map tb_NumBlocks (members d))"
  proof
    fix d assume "d \<in> set res"
    then have "d \<in> set ds" using mset_eq_setD [OF perm] by blast
    then obtain k d0 where d0: "(k, d0) \<in> set m" "d = display_entry childPlan tot d0" by (auto simp: ds_def)
    with facts(6) [OF d0(1)] show "tb_NumBlocks (td_Info d) = sum_list (map tb_NumBlocks (members d))"
      by (simp add: display_entry_info display_entry_blocks [OF plans(1)])
  qed
  have "sum_list (map (\<lambda>d. tb_NumBlocks (td_Info d)) res) = sum_list (map (\<lambda>d. tb_NumBlocks (td_Info d)) ds)"
    by (rule sum_list_map_perm [OF perm])
  with facts(4) show "sum_list (map (\<lambda>d. tb_NumBlocks (td_Info d)) res) = tot"
    by (simp add: ds_def comp_def case_prod_unfold display_entry_info tot_def)
  have names: "map (\<lambda>d. tb_ExtraData (td_Info d)) ds = map fst m"
    using facts(1) by (simp add: ds_def comp_def case_prod_unfold display_entry_info)
  have names_perm: "mset (map (\<lambda>d. tb_ExtraData (td_Info d)) res) = mset (map fst m)"
    unfolding names [symmetric] by (simp only: mset_map perm)
  show "distinct (map (\<lambda>d. tb_ExtraData (td_Info d)) res)"
    using mset_eq_imp_distinct_iff [OF names_perm] facts(2) by blast
  show "(\<lambda>d. tb_ExtraData (td_Info d)) ` set res = final_name tb_ExtraData (builder_group_of groups) ` set es"
    using mset_eq_setD [OF names_perm] facts(3) by simp
  show "sorted_wrt (\<lambda>a b. tb_NumBlocks (td_Info b) \<le> tb_NumBlocks (td_Info a)) res"
    unfolding res by (rule order_desc_sorted)
  show "\<forall>d \<in> set res. sorted_wrt (\<lambda>a b. tb_NumBlocks b \<le> tb_NumBlocks a) (td_Children d)"
    using mset_eq_setD [OF perm] order_desc_sorted by (auto simp: ds_def display_entry_def)
qed


definition example_builder :: "string \<Rightarrow> u64 \<Rightarrow> TopBuilderEntry" where
  "example_builder extra n = \<lparr>tb_ExtraData = extra, tb_NumBlocks = n, tb_Percent = [], tb_Aliases = []\<rparr>"


text \<open>The case of \<open>TestConsolidateBuilderEntries\<close>.\<close>

lemma builders_map_test:
  "map (\<lambda>(k, d). (k, tb_NumBlocks (td_Info d), map tb_ExtraData (td_Children d)))
     (builders_map (\<lambda>_. BuilderGroups)
       [example_builder ''made by builder0x69'' 1, example_builder ''builder0x69'' 1, example_builder ''foo-builder'' 1]) =
   [(''builder0x69'', 2, [''made by builder0x69'', ''builder0x69'']), (''foo-builder'', 1, [])]"
  by code_simp

lemma percent_test: "fmt_2f (percent_value 2 3) = ''66.67''" "fmt_2f (percent_value 1 3) = ''33.33''"
  by (simp_all add: fmt_2f_def percent_value_def f64_of_u64_def round_quot_def round_exp_def bitlen.simps
    bf_quo_def bf_of_int_quot_def scale_num_def scale_den_def half_even_def bf_Text_f_def decimal_int_def fixed_str_def
    pad_left_def nat_str_eval Let_def)

text \<open>A builder that calls itself by the name of a group whose pattern it does not match replaces the group,
  and the blocks of the group are lost.\<close>

lemma impostor_replaces_group:
  "map (\<lambda>(k, d). (k, tb_NumBlocks (td_Info d)))
     (builders_map (\<lambda>_. BuilderGroups) [example_builder ''s1e2xf'' 7, example_builder ''bob the builder'' 2]) =
   [(''bob the builder'', 2)]"
  by code_simp

end
