(* ===== verification/DecimalSums.thy ===== *)
theory DecimalSums
  imports WebsiteUtils
begin

text \<open>
  The profit and subsidy totals of a consolidated builder are decimal strings that go through \<open>big.Float\<close> at
  every addition, and the percentages go through three roundings of \<open>float64\<close>.  The sums are exact, and the
  percentages are right to half a unit of the last printed digit but one part in ten thousand million.
\<close>

section \<open>Reading a number with four decimals\<close>

lemma digits_val_append_list: "digits_val (xs @ ys) = digits_val xs * 10 ^ length ys + digits_val ys"
proof (induction ys rule: rev_induct)
  case (snoc y ys)
  then show ?case by (simp add: digits_val_append flip: append_assoc)
qed (simp add: digits_val_def)

lemma pad_left_digits:
  assumes "n < 10 ^ w" "0 < w"
  shows "length (pad_left w (nat_str n)) = w" "digits_val (pad_left w (nat_str n)) = n"
    "\<forall>c \<in> set (pad_left w (nat_str n)). is_digit c"
proof -
  show "length (pad_left w (nat_str n)) = w" using length_nat_str_le [OF assms] by (simp add: pad_left_def)
  show "digits_val (pad_left w (nat_str n)) = n" by (simp add: pad_left_def digits_val_zeros)
  have "is_digit (CHR ''0'')" by (simp add: is_digit_def)
  then show "\<forall>c \<in> set (pad_left w (nat_str n)). is_digit c" using nat_str_digits by (auto simp: pad_left_def)
qed

lemma parse_numeric4: "bf_SetString 64 (numeric4 v) = Some (round_quot 64 (v < 0) (nat \<bar>v\<bar>) (10 ^ 4))"
proof -
  define N where "N = nat \<bar>v\<bar>"
  define whole frac where "whole = nat_str (N div 10 ^ 4)" and "frac = pad_left 4 (nat_str (N mod 10 ^ 4))"
  note frac = pad_left_digits [of "N mod 10 ^ 4" 4, folded frac_def, simplified]
  have dig: "\<forall>c \<in> set whole. is_digit c" "whole \<noteq> []" using nat_str_digits by (auto simp: whole_def)
  have str: "numeric4 v = (if v < 0 then ''-'' else []) @ whole @ CHR ''.'' # frac"
    by (simp add: numeric4_def fixed_str_def N_def whole_def frac_def)
  have "scan_sign (whole @ CHR ''.'' # frac) = (False, whole @ CHR ''.'' # frac)"
    using dig by (cases whole) (auto intro: scan_sign_digits)
  then have sign: "scan_sign (numeric4 v) = (v < 0, whole @ CHR ''.'' # frac)"
    by (auto simp: str scan_sign_def [of "CHR ''-'' # _"])
  have dot: "\<not> is_digit (CHR ''.'')" by (simp add: is_digit_def)
  have take: "takeWhile is_digit (whole @ CHR ''.'' # frac) = whole" "dropWhile is_digit (whole @ CHR ''.'' # frac) = CHR ''.'' # frac"
      "takeWhile is_digit frac = frac" "dropWhile is_digit frac = []"
    using dig dot frac(3) by (simp_all add: takeWhile_tail)
  have "digits_val (whole @ frac) = N div 10 ^ 4 * 10 ^ 4 + N mod 10 ^ 4"
    by (simp add: digits_val_append_list frac whole_def)
  then have val: "digits_val (whole @ frac) = N" by simp
  show ?thesis
    unfolding bf_SetString_def sign using dig(2) val frac(1)
    by (simp add: take parse_exponent_def N_def [symmetric] Let_def)
qed

section \<open>The error of a sum\<close>

lemma mant_at_value: "e \<le> bf_exp x \<Longrightarrow> real_of_int (mant_at x e) * 2 powi e = bf_val x"
  by (simp add: mant_at_def bf_val_def mult.assoc flip: power_int_of_nat power_int_add)

lemma bf_of_int_quot_error:
  assumes "0 < prec"
  shows "\<bar>bf_val (bf_of_int_quot prec z m e) - real_of_int m * 2 powi e\<bar> \<le> \<bar>real_of_int m * 2 powi e\<bar> / 2 ^ prec"
proof (cases "m = 0")
  case False
  define n d where "n = (if e < 0 then nat \<bar>m\<bar> else nat \<bar>m\<bar> * 2 ^ nat e)" and "d = (if e < 0 then 2 ^ nat (- e) else 1 :: nat)"
  have eq: "bf_of_int_quot prec z m e = round_quot prec (m < 0) n d" using False by (simp add: bf_of_int_quot_def n_def d_def)
  have quot: "real n / real d = \<bar>real_of_int m\<bar> * 2 powi e"
  proof (cases "e < 0")
    case True
    then have "2 powi e = 1 / (2 :: real) ^ nat (- e)" by (simp add: power_int_def power_one_over inverse_eq_divide)
    with True show ?thesis by (simp add: n_def d_def)
  next
    case False
    then have "2 powi e = (2 :: real) ^ nat e" by (simp add: power_int_def)
    with False show ?thesis by (simp add: n_def d_def)
  qed
  have "(if m < 0 then - 1 else 1) * \<bar>real_of_int m\<bar> = real_of_int m" by simp
  then have "(if m < 0 then - 1 else 1) * (real n / real d) = real_of_int m * 2 powi e" unfolding quot by (simp add: mult.assoc [symmetric])
  moreover have "\<bar>real_of_int m * 2 powi e\<bar> = real n / real d" by (simp add: quot abs_mult)
  moreover have "0 < d" by (simp add: d_def)
  ultimately show ?thesis using round_quot_error [of d prec "m < 0" n] assms unfolding eq by simp
qed (simp add: bf_of_int_quot_def bf_val_def)

lemma bf_add_error:
  assumes "0 < prec"
  shows "\<bar>bf_val (bf_add prec x y) - (bf_val x + bf_val y)\<bar> \<le> \<bar>bf_val x + bf_val y\<bar> / 2 ^ prec"
proof -
  define e where "e = min (bf_exp x) (bf_exp y)"
  have "real_of_int (mant_at x e + mant_at y e) * 2 powi e = bf_val x + bf_val y"
    by (simp add: algebra_simps mant_at_value e_def)
  with bf_of_int_quot_error [OF assms, of "bf_neg x \<and> bf_neg y" "mant_at x e + mant_at y e" e]
  show ?thesis by (simp add: bf_add_def e_def Let_def)
qed

lemma decimal_int_error: "\<bar>real (decimal_int x k) - \<bar>bf_val x\<bar> * 10 ^ k\<bar> \<le> 1 / 2"
proof -
  have "real (scale_num (bf_mant x * 10 ^ k) (- bf_exp x)) / real (scale_den 1 (- bf_exp x)) = \<bar>bf_val x\<bar> * 10 ^ k"
    using scale_quot [of 1 "bf_mant x * 10 ^ k" "- bf_exp x"] by (simp add: bf_val_def abs_mult power_int_minus divide_inverse ac_simps)
  then show ?thesis
    using half_even_error [of "scale_den 1 (- bf_exp x)" "scale_num (bf_mant x * 10 ^ k) (- bf_exp x)"]
    by (simp add: decimal_int_def)
qed

section \<open>Sums of totals\<close>

text \<open>A float close to a multiple of the last printed place prints that multiple.\<close>

lemma text_of_near:
  assumes "\<bar>bf_val x * 10 ^ k - real_of_int v\<bar> < 1 / 2" "v = 0 \<Longrightarrow> \<not> bf_neg x"
  shows "bf_Text_f x k = fixed_str (v < 0) k (nat \<bar>v\<bar>)"
proof -
  define S where "S = bf_val x * 10 ^ k"
  have abs: "\<bar>bf_val x\<bar> * 10 ^ k = \<bar>S\<bar>" by (simp add: S_def abs_mult)
  have "\<bar>\<bar>S\<bar> - \<bar>real_of_int v\<bar>\<bar> < 1 / 2" using assms(1) unfolding S_def [symmetric] by linarith
  then have "\<bar>real (decimal_int x k) - \<bar>real_of_int v\<bar>\<bar> < 1"
    using decimal_int_error [of x k] unfolding abs by linarith
  then have "\<bar>int (decimal_int x k) - \<bar>v\<bar>\<bar> < 1" by linarith
  then have N: "decimal_int x k = nat \<bar>v\<bar>" by linarith
  have "bf_neg x = (v < 0)"
  proof (cases "v = 0")
    case False
    then have "1 \<le> \<bar>real_of_int v\<bar>" by linarith
    then have "S < 0 \<longleftrightarrow> v < 0" "S \<noteq> 0" using assms(1) unfolding S_def [symmetric] by linarith+
    moreover have "bf_neg x \<Longrightarrow> S \<le> 0" "\<not> bf_neg x \<Longrightarrow> 0 \<le> S"
      by (simp_all add: S_def bf_val_def)
    ultimately show ?thesis by (cases "bf_neg x") auto
  qed (use assms(2) in simp)
  with N show ?thesis by (simp add: bf_Text_f_def)
qed

lemma round_quot_opposite: "round_quot prec (\<not> neg) n d = BF (\<not> neg) (bf_mant (round_quot prec neg n d)) (bf_exp (round_quot prec neg n d))"
  by (simp add: round_quot_def Let_def)

text \<open>Adding two totals that are printed with four decimals gives their exact sum printed with four decimals,
  for amounts below ten thousand million: the two parses, the addition and the printing round, and the
  roundings never reach a printed digit.\<close>

lemma addFloatStrings_exact:
  assumes "\<bar>a\<bar> < 10 ^ 14" "\<bar>b\<bar> < 10 ^ 14"
  shows "addFloatStrings junk (numeric4 a) (numeric4 b) 4 = numeric4 (a + b)"
proof -
  define x y where "x = round_quot 64 (a < 0) (nat \<bar>a\<bar>) (10 ^ 4)" and "y = round_quot 64 (b < 0) (nat \<bar>b\<bar>) (10 ^ 4)"
  define s where "s = bf_add 64 x y"
  define A B X Y S where "A = real_of_int a / 10 ^ 4" and "B = real_of_int b / 10 ^ 4"
    and "X = bf_val x" and "Y = bf_val y" and "S = bf_val s"
  have parsed: "\<bar>bf_val (round_quot 64 (v < 0) (nat \<bar>v\<bar>) (10 ^ 4)) - real_of_int v / 10 ^ 4\<bar> \<le> \<bar>real_of_int v / 10 ^ 4\<bar> / 2 ^ 64" for v
    using round_quot_error [of "10 ^ 4" 64 "v < 0" "nat \<bar>v\<bar>"] by (cases "v < 0") simp_all
  have small: "\<bar>A\<bar> \<le> 10 ^ 10" "\<bar>B\<bar> \<le> 10 ^ 10" using assms by (simp_all add: A_def B_def abs_if split: if_splits)
  have XY: "\<bar>X - A\<bar> \<le> \<bar>A\<bar> / 2 ^ 64" "\<bar>Y - B\<bar> \<le> \<bar>B\<bar> / 2 ^ 64"
    using parsed unfolding X_def Y_def A_def B_def x_def y_def by blast+
  have "\<bar>S - (X + Y)\<bar> \<le> \<bar>X + Y\<bar> / 2 ^ 64" unfolding S_def X_def Y_def s_def by (rule bf_add_error) simp
  with XY small have near: "\<bar>S - (A + B)\<bar> < 1 / 10 ^ 5" by (simp add: abs_if field_simps split: if_splits)
  have "(A + B) * 10 ^ 4 = real_of_int (a + b)" by (simp add: A_def B_def field_simps)
  with near have "\<bar>bf_val s * 10 ^ 4 - real_of_int (a + b)\<bar> < 1 / 2" unfolding S_def by (simp add: abs_if split: if_splits)
  moreover have "\<not> bf_neg s" if "a + b = 0"
  proof -
    have b: "b = - a" using that by simp
    have "bf_mant y = bf_mant x \<and> bf_exp y = bf_exp x \<and> (bf_mant x = 0 \<or> bf_neg y = (\<not> bf_neg x)) \<and> \<not> (bf_neg x \<and> bf_neg y)"
      by (auto simp: x_def y_def b round_quot_def Let_def)
    then show ?thesis
      by (cases "bf_mant x = 0") (auto simp: s_def bf_add_def bf_of_int_quot_def mant_at_def Let_def)
  qed
  ultimately have "bf_Text_f s 4 = fixed_str (a + b < 0) 4 (nat \<bar>a + b\<bar>)" by (rule text_of_near)
  moreover have "strToBigFloat junk (numeric4 a) = x" "strToBigFloat junk (numeric4 b) = y"
    by (simp_all add: strToBigFloat_def parse_numeric4 x_def y_def)
  ultimately show ?thesis
    by (simp only: addFloatStrings_def s_def [symmetric] numeric4_def [symmetric] Let_def)
qed

section \<open>Consolidated profits\<close>

definition fits :: "(BuilderProfitEntry \<Rightarrow> int) \<Rightarrow> BuilderProfitEntry list \<Rightarrow> bool" where
  "fits p es \<longleftrightarrow> sum_list (map (\<lambda>e. \<bar>p e\<bar>) es) < 10 ^ 14"

lemma fits_bound: "fits p es \<Longrightarrow> \<bar>sum_list (map p es)\<bar> < 10 ^ 14"
  using sum_list_abs [of "map p es"] by (simp add: fits_def comp_def)

lemma sum_list_abs_nonneg: "0 \<le> sum_list (map (\<lambda>e. \<bar>p e :: int\<bar>) es)"
  by (induction es) simp_all

lemma fits_snoc: "fits p (es @ [e]) \<Longrightarrow> fits p es \<and> \<bar>p e\<bar> < 10 ^ 14"
  using sum_list_abs_nonneg [of p es] by (simp add: fits_def)

text \<open>The totals that entries carry, in units of the last printed place.\<close>

definition totals :: "(BuilderProfitEntry \<Rightarrow> string) \<Rightarrow> (BuilderProfitEntry \<Rightarrow> int) \<Rightarrow> BuilderProfitEntry \<Rightarrow> BuilderProfitEntry list \<Rightarrow> bool" where
  "totals field p d es \<longleftrightarrow> ((\<forall>e \<in> set es. field e = numeric4 (p e)) \<and> fits p es \<longrightarrow> field d = numeric4 (sum_list (map p es)))"

lemma totals_join:
  assumes "totals field p d es" "field d' = addFloatStrings junk (field d) (field e) 4"
  shows "totals field p d' (es @ [e])"
proof -
  have "field d' = numeric4 (sum_list (map p (es @ [e])))"
    if known: "\<forall>f \<in> set (es @ [e]). field f = numeric4 (p f)" and bound: "fits p (es @ [e])"
  proof -
    have "field d = numeric4 (sum_list (map p es))" using assms(1) known fits_snoc [OF bound] by (simp add: totals_def)
    moreover have "field e = numeric4 (p e)" using known by simp
    ultimately show ?thesis
      using assms(2) addFloatStrings_exact fits_bound fits_snoc [OF bound] by simp
  qed
  then show ?thesis by (simp only: totals_def) blast
qed

definition profit_stands :: "(BuilderProfitEntry \<Rightarrow> int) \<Rightarrow> (BuilderProfitEntry \<Rightarrow> int) \<Rightarrow> string \<Rightarrow> BuilderProfitEntry \<Rightarrow> BuilderProfitEntry list \<Rightarrow> bool" where
  "profit_stands p q k d es \<longleftrightarrow> bp_ExtraData d = k \<and> bp_NumBlocks d = sum_list (map bp_NumBlocks es) \<and>
     bp_NumBlocksProfit d = sum_list (map bp_NumBlocksProfit es) \<and>
     bp_NumBlocksSubsidised d = sum_list (map bp_NumBlocksSubsidised es) \<and>
     totals bp_ProfitTotal p d es \<and> totals bp_SubsidiesTotal q d es"

abbreviation profit_group_of :: "(BuilderProfitEntry \<Rightarrow> builder_group list) \<Rightarrow> BuilderProfitEntry \<Rightarrow> string option" where
  "profit_group_of groups \<equiv> \<lambda>entry. find_group (groups entry) (bp_ExtraData entry)"

interpretation profits: consolidation "known_groups groups" bp_ExtraData "profit_group_of groups"
    open_profit "join_profit junk" "\<lambda>entry. entry" "\<lambda>_. True" "profit_stands p q" for groups junk p q
proof unfold_locales
  fix d e d' :: BuilderProfitEntry and k es
  assume stands: "profit_stands p q k d es" and "join_profit junk e d = Some d'"
  then obtain avg where d': "d' = d
             \<lparr>bp_Aliases := bp_Aliases d @ [bp_ExtraData e],
              bp_NumBlocks := bp_NumBlocks d + bp_NumBlocks e,
              bp_NumBlocksProfit := bp_NumBlocksProfit d + bp_NumBlocksProfit e,
              bp_NumBlocksSubsidised := bp_NumBlocksSubsidised d + bp_NumBlocksSubsidised e,
              bp_ProfitPerBlockAvg := avg,
              bp_ProfitTotal := addFloatStrings junk (bp_ProfitTotal d) (bp_ProfitTotal e) 4,
              bp_SubsidiesTotal := addFloatStrings junk (bp_SubsidiesTotal d) (bp_SubsidiesTotal e) 4\<rparr>"
    by (auto simp: join_profit_def Let_def split: option.splits)
  have "totals bp_ProfitTotal p d' (es @ [e])"
    using stands by (intro totals_join [of _ _ d _ _ junk]) (simp_all add: profit_stands_def d')
  moreover have "totals bp_SubsidiesTotal q d' (es @ [e])"
    using stands by (intro totals_join [of _ _ d _ _ junk]) (simp_all add: profit_stands_def d')
  ultimately show "True \<and> profit_stands p q k d' (es @ [e])" using stands by (simp add: profit_stands_def d')
qed (auto simp: open_profit_def profit_stands_def totals_def intro: find_group_known)

text \<open>The average is a quotient by a number of blocks; it panics only when that is zero.\<close>

lemma join_profit_some:
  assumes "bp_NumBlocks d + bp_NumBlocks e \<noteq> 0"
  shows "join_profit junk e d \<noteq> None"
proof -
  define n where "n = unat (bp_NumBlocks d + bp_NumBlocks e)"
  have n: "0 < n" using assms by (simp add: n_def unat_gt_0)
  have parse: "strToBigFloat junk (nat_str n) = round_quot 64 False n 1"
    using bf_SetString_int_str [of 64 "int n"] by (simp add: strToBigFloat_def int_str_def)
  have "\<bar>bf_val (round_quot 64 False n 1) - real n\<bar> \<le> real n / 2 ^ 64"
    using round_quot_error [of 1 64 False n] by simp
  moreover have "real n / 2 ^ 64 < real n" using n by simp
  ultimately have "bf_val (round_quot 64 False n 1) \<noteq> 0" by linarith
  then have "bf_mant (round_quot 64 False n 1) \<noteq> 0" by (auto simp: bf_val_def)
  then show ?thesis
    by (auto simp: join_profit_def Let_def divFloatStrings_def parse n_def [symmetric])
qed

lemma sum_list_words: "sum_list (map f es) = (of_nat (sum_list (map (\<lambda>e. unat (f e)) es)) :: u64)"
  by (induction es) simp_all

lemma sum_list_sub: "mset fs \<subseteq># mset es \<Longrightarrow> sum_list (map (f :: 'a \<Rightarrow> nat) fs) \<le> sum_list (map f es)"
proof -
  assume "mset fs \<subseteq># mset es"
  then obtain N where "mset es = mset fs + N" by (auto simp: mset_subset_eq_exists_conv)
  then have "sum_mset (image_mset f (mset fs)) \<le> sum_mset (image_mset f (mset es))" by simp
  then show ?thesis by (simp flip: mset_map add: sum_mset_sum_list)
qed

lemma of_nat_u64_nonzero: "0 < n \<Longrightarrow> n < 2 ^ 64 \<Longrightarrow> (of_nat n :: u64) \<noteq> 0"
proof
  assume n: "0 < n" "n < 2 ^ 64" and zero: "(of_nat n :: u64) = 0"
  have "unat (of_nat n :: u64) = n" using n(2) by (simp add: unat_of_nat take_bit_nat_eq_self)
  then show False using n(1) unfolding zero by simp
qed

text \<open>A further entry of a group can always be joined: the number of blocks it is divided by is not zero.\<close>

lemma join_profit_defined:
  assumes st: "profit_stands p q k d fs" and sub: "mset (fs @ [e]) \<subseteq># mset es"
    and blocks: "\<forall>e \<in> set es. 0 < bp_NumBlocks e" "sum_list (map (\<lambda>e. unat (bp_NumBlocks e)) es) < 2 ^ 64"
  shows "join_profit junk e d \<noteq> None"
proof (rule join_profit_some)
  let ?n = "sum_list (map (\<lambda>e. unat (bp_NumBlocks e)) (fs @ [e]))"
  have "?n < 2 ^ 64" using sum_list_sub [OF sub] blocks(2) by (rule le_less_trans)
  moreover have "e \<in> set es" using set_mset_mono [OF sub] by simp
  then have "0 < ?n" using blocks(1) by (simp add: word_greater_zero_iff unat_gt_0)
  ultimately have "(of_nat ?n :: u64) \<noteq> 0" using of_nat_u64_nonzero by blast
  then show "bp_NumBlocks d + bp_NumBlocks e \<noteq> 0"
    using st by (simp add: profit_stands_def sum_list_words)
qed

lemma fits_filter: "fits f es \<Longrightarrow> fits f (filter P es)"
proof -
  have "sum_list (map (\<lambda>e. \<bar>f e\<bar>) (filter P es)) \<le> sum_list (map (\<lambda>e. \<bar>f e\<bar>) es)" by (induction es) auto
  then show "fits f es \<Longrightarrow> fits f (filter P es)" unfolding fits_def by (rule le_less_trans)
qed

text \<open>Sorting the values of a map that holds each entry under its own name.\<close>

lemma sorted_values:
  fixes num :: "BuilderProfitEntry \<Rightarrow> u64"
  assumes perm: "mset res = mset (map snd m)" and dist: "distinct (map fst m)" and named: "\<forall>(k, d) \<in> set m. bp_ExtraData d = k"
  shows "distinct (map bp_ExtraData res)" "bp_ExtraData ` set res = fst ` set m" "\<forall>d \<in> set res. \<exists>k. (k, d) \<in> set m"
    "sum_list (map num res) = sum_list (map (\<lambda>(k, d). num d) m)"
proof -
  have "map bp_ExtraData (map snd m) = map fst m" using named by auto
  then have names: "mset (map bp_ExtraData res) = mset (map fst m)" by (metis mset_map perm)
  show "distinct (map bp_ExtraData res)" using mset_eq_imp_distinct_iff [OF names] dist by blast
  show "bp_ExtraData ` set res = fst ` set m" using mset_eq_setD [OF names] by simp
  show "\<forall>d \<in> set res. \<exists>k. (k, d) \<in> set m" using mset_eq_setD [OF perm] by auto
  show "sum_list (map num res) = sum_list (map (\<lambda>(k, d). num d) m)"
    using sum_list_map_perm [OF perm, of num] by (simp add: comp_def case_prod_unfold)
qed

text \<open>C16. Consolidated profits are exact: with totals of four decimals that stay below ten thousand million
  ether, and positive numbers of blocks that do not overflow together, the consolidation does not panic, every
  displayed builder carries the exact sums of the profits and of the subsidies of the entries under its name, and
  the sums of their counters, every name is displayed once, and no block is lost.\<close>

theorem consolidateBuilderProfitEntries_exact:
  assumes groups: "\<And>e. mset (groups e) = mset BuilderGroups" and plan: "row_order plan"
    and no: "no_impostors (fst ` set BuilderGroups) bp_ExtraData (profit_group_of groups) es"
    and known: "\<forall>e \<in> set es. bp_ProfitTotal e = numeric4 (p e) \<and> bp_SubsidiesTotal e = numeric4 (q e)"
    and bounds: "fits p es" "fits q es"
    and blocks: "\<forall>e \<in> set es. 0 < bp_NumBlocks e" "sum_list (map (\<lambda>e. unat (bp_NumBlocks e)) es) < 2 ^ 64"
  defines "entries \<equiv> \<lambda>k. filter (\<lambda>e. final_name bp_ExtraData (profit_group_of groups) e = k) es"
  shows "\<exists>res. consolidateBuilderProfitEntries junk groups plan es = Some res \<and>
    (\<forall>d \<in> set res. bp_ProfitTotal d = numeric4 (sum_list (map p (entries (bp_ExtraData d)))) \<and>
       bp_SubsidiesTotal d = numeric4 (sum_list (map q (entries (bp_ExtraData d)))) \<and>
       bp_NumBlocks d = sum_list (map bp_NumBlocks (entries (bp_ExtraData d))) \<and>
       bp_NumBlocksProfit d = sum_list (map bp_NumBlocksProfit (entries (bp_ExtraData d))) \<and>
       bp_NumBlocksSubsidised d = sum_list (map bp_NumBlocksSubsidised (entries (bp_ExtraData d)))) \<and>
    distinct (map bp_ExtraData res) \<and>
    bp_ExtraData ` set res = final_name bp_ExtraData (profit_group_of groups) ` set es \<and>
    sum_list (map bp_NumBlocks res) = sum_list (map bp_NumBlocks es)"
proof -
  define step where "step = group_step bp_ExtraData (profit_group_of groups) open_profit (join_profit junk) (\<lambda>entry. entry)"
  have no': "no_impostors (known_groups groups) bp_ExtraData (profit_group_of groups) es"
    using no known_groups_perm [of groups] groups by simp
  have "join_profit junk e d \<noteq> None" if "profit_stands p q k d fs" "mset (fs @ [e]) \<subseteq># mset es" for k d fs e
    using that blocks by (rule join_profit_defined)
  then obtain m where m: "group_all step es [] = Some m"
    using profits.built_some [of groups es p q junk, OF no'] unfolding step_def by blast
  have dist: "distinct (map fst m)" using profits.built_distinct [of groups junk es "[]" m] m by (simp add: step_def)
  have stands: "profit_stands p q k d (entries k)" if "(k, d) \<in> set m" for k d
    using profits.built_stands [of groups junk es m k d p q] no' m map_of_is_SomeI [OF dist that]
    by (simp add: step_def entries_def)
  define res where "res = order_desc plan (\<lambda>e. bf_rat (strToBigFloat junk (bp_ProfitTotal e))) (map snd m)"
  have "\<forall>(k, d) \<in> set m. bp_ExtraData d = k" using stands by (auto simp: profit_stands_def)
  have perm: "mset res = mset (map snd m)" unfolding res_def by (rule mset_order_desc [OF plan])
  note sorted = sorted_values [OF perm dist \<open>\<forall>(k, d) \<in> set m. bp_ExtraData d = k\<close>]
  have result: "consolidateBuilderProfitEntries junk groups plan es = Some res"
    using m by (simp add: consolidateBuilderProfitEntries_def profit_step_def step_def res_def)
  have "fits p (entries k)" "fits q (entries k)" for k
    using bounds by (simp_all add: entries_def fits_filter)
  then have each: "bp_ProfitTotal d = numeric4 (sum_list (map p (entries (bp_ExtraData d)))) \<and>
       bp_SubsidiesTotal d = numeric4 (sum_list (map q (entries (bp_ExtraData d)))) \<and>
       bp_NumBlocks d = sum_list (map bp_NumBlocks (entries (bp_ExtraData d))) \<and>
       bp_NumBlocksProfit d = sum_list (map bp_NumBlocksProfit (entries (bp_ExtraData d))) \<and>
       bp_NumBlocksSubsidised d = sum_list (map bp_NumBlocksSubsidised (entries (bp_ExtraData d)))" if "(k, d) \<in> set m" for k d
    using stands [OF that] known by (simp add: profit_stands_def totals_def entries_def)
  have "sum_list (map (\<lambda>(k, d). bp_NumBlocks d) m) = sum_list (map bp_NumBlocks es)"
    using stands m by (intro profits.built_sum [of groups junk]) (simp_all add: step_def profit_stands_def entries_def)
  moreover have "fst ` set m = final_name bp_ExtraData (profit_group_of groups) ` set es"
    using profits.built_keys [of groups junk es "[]" m] m by (simp add: step_def)
  ultimately have "sum_list (map bp_NumBlocks res) = sum_list (map bp_NumBlocks es)"
      "bp_ExtraData ` set res = final_name bp_ExtraData (profit_group_of groups) ` set es"
    using sorted by simp_all
  with result each sorted(1, 3) show ?thesis by blast
qed

lemma replicate_3: "replicate 3 x = [x, x, x]"
  by (simp add: numeral_3_eq_3)

definition example_profits :: "BuilderProfitEntry list" where
  "example_profits = [profit_group ''rsync-a'' [Some 12345678], profit_group ''rsync-b'' [Some (- 20010000)], profit_group ''x'' [None]]"

theorem consolidateBuilderProfitEntries_exact_witness:
  "\<exists>res. consolidateBuilderProfitEntries (\<lambda>_. BF False 0 0) (\<lambda>_. BuilderGroups) (\<lambda>rows. rows) example_profits = Some res \<and>
     {(bp_ExtraData d, bp_ProfitTotal d) | d. d \<in> set res} = {(''rsync-builder.xyz'', ''-0.0766''), (''x'', ''0.0000'')}"
proof -
  let ?p = "\<lambda>e. if bp_ExtraData e = ''rsync-a'' then 1235 else if bp_ExtraData e = ''rsync-b'' then - 2001 else 0 :: int"
  let ?q = "\<lambda>e. if bp_ExtraData e = ''rsync-b'' then 2001 else 0 :: int"
  let ?final = "final_name bp_ExtraData (profit_group_of (\<lambda>_. BuilderGroups))"
  define entries where "entries = (\<lambda>k. filter (\<lambda>e. ?final e = k) example_profits)"
  have find: "find_group BuilderGroups ''rsync-a'' = Some ''rsync-builder.xyz''"
      "find_group BuilderGroups ''rsync-b'' = Some ''rsync-builder.xyz''" "find_group BuilderGroups ''x'' = None"
    and x: "''x'' \<notin> fst ` set BuilderGroups" by code_simp+
  have no: "no_impostors (fst ` set BuilderGroups) bp_ExtraData (profit_group_of (\<lambda>_. BuilderGroups)) example_profits"
    using find x by (simp add: no_impostors_def example_profits_def profit_group_def Let_def)
  have known: "\<forall>e \<in> set example_profits. bp_ProfitTotal e = numeric4 (?p e) \<and> bp_SubsidiesTotal e = numeric4 (?q e)"
    by (simp add: example_profits_def profit_group_def round_away_def Let_def)
  have bounds: "fits ?p example_profits" "fits ?q example_profits"
    and blocks: "\<forall>e \<in> set example_profits. 0 < bp_NumBlocks e" "sum_list (map (\<lambda>e. unat (bp_NumBlocks e)) example_profits) < 2 ^ 64"
    by (simp_all add: fits_def example_profits_def profit_group_def Let_def)
  have plan: "row_order (\<lambda>rows. rows)" by (simp add: row_order_def)
  obtain res where res: "consolidateBuilderProfitEntries (\<lambda>_. BF False 0 0) (\<lambda>_. BuilderGroups) (\<lambda>rows. rows) example_profits = Some res"
      and each: "\<forall>d \<in> set res. bp_ProfitTotal d = numeric4 (sum_list (map ?p (entries (bp_ExtraData d))))"
      and names: "bp_ExtraData ` set res = ?final ` set example_profits"
    unfolding entries_def
    using consolidateBuilderProfitEntries_exact [OF refl plan no known bounds blocks, of "\<lambda>_. BF False 0 0"] by blast
  have finals: "?final ` set example_profits = {''rsync-builder.xyz'', ''x''}"
    using find by (auto simp: final_name_def example_profits_def profit_group_def Let_def)
  have "map bp_ExtraData (entries ''rsync-builder.xyz'') = [''rsync-a'', ''rsync-b'']" "map bp_ExtraData (entries ''x'') = [''x'']"
    using find by (simp_all add: entries_def final_name_def example_profits_def profit_group_def Let_def)
  then have "sum_list (map ?p (entries ''rsync-builder.xyz'')) = - 766" "sum_list (map ?p (entries ''x'')) = 0"
    by (auto simp: map_eq_Cons_conv)
  then have sums: "numeric4 (sum_list (map ?p (entries ''rsync-builder.xyz''))) = ''-0.0766''"
      "numeric4 (sum_list (map ?p (entries ''x''))) = ''0.0000''"
    by (simp_all add: numeric4_def fixed_str_def pad_left_def nat_str_eval replicate_3)
  have "{(bp_ExtraData d, bp_ProfitTotal d) | d. d \<in> set res} =
      (\<lambda>k. (k, numeric4 (sum_list (map ?p (entries k))))) ` bp_ExtraData ` set res"
    using each by (auto simp: image_image)
  also have "\<dots> = {(''rsync-builder.xyz'', ''-0.0766''), (''x'', ''0.0000'')}"
    unfolding names finals by (simp only: image_insert image_empty sums)
  finally show ?thesis using res by blast
qed

section \<open>Percentages\<close>

lemma rel_error_trans:
  fixes v :: real
  assumes "\<bar>a - v\<bar> \<le> \<bar>v\<bar> * p" "\<bar>r - a\<bar> \<le> \<bar>a\<bar> * q" "0 \<le> q"
  shows "\<bar>r - v\<bar> \<le> \<bar>v\<bar> * (p + q + p * q)"
proof -
  have "\<bar>a\<bar> \<le> \<bar>v\<bar> + \<bar>v\<bar> * p" using assms(1) by linarith
  then have "\<bar>a\<bar> * q \<le> (\<bar>v\<bar> + \<bar>v\<bar> * p) * q" using assms(3) by (rule mult_right_mono)
  then have "\<bar>r - v\<bar> \<le> \<bar>v\<bar> * p + (\<bar>v\<bar> + \<bar>v\<bar> * p) * q" using assms(1,2) by linarith
  then show ?thesis by (simp add: algebra_simps)
qed

lemma f64_of_u64_error: "\<bar>bf_val (f64_of_u64 n) - real (unat n)\<bar> \<le> real (unat n) * (1 / 2 ^ 53)"
  using round_quot_error [of 1 53 False "unat n"] by (simp add: f64_of_u64_def)

lemma quotient_of_rounded:
  fixes c t :: real
  assumes "\<bar>c' - c\<bar> \<le> c * u" "\<bar>t' - t\<bar> \<le> t * u" "0 < t" "0 \<le> c" "0 \<le> u" "u \<le> 1 / 3"
  shows "\<bar>c' / t' - c / t\<bar> \<le> \<bar>c / t\<bar> * (3 * u)"
proof -
  have "t * u \<le> t * (1 / 3)" using assms(3,6) by (intro mult_left_mono) simp_all
  then have t': "t * 2 \<le> t' * 3" using assms(2) by (simp add: abs_le_iff)
  then have pos: "0 < t'" using assms(3) by linarith
  have "c' * t - c * t' = (c' - c) * t - c * (t' - t)" by (simp add: algebra_simps)
  then have "\<bar>c' * t - c * t'\<bar> \<le> \<bar>c' - c\<bar> * t + c * \<bar>t' - t\<bar>"
    using abs_triangle_ineq4 [of "(c' - c) * t" "c * (t' - t)"] assms(3,4) by (simp add: abs_mult)
  also have "\<dots> \<le> c * u * t + c * (t * u)"
    using assms(1-4) by (intro add_mono mult_right_mono mult_left_mono) simp_all
  also have "\<dots> = c * u * (t * 2)" by (simp add: algebra_simps)
  also have "\<dots> \<le> c * u * (t' * 3)" using t' assms(4,5) by (intro mult_left_mono) simp_all
  finally have "\<bar>c' * t - c * t'\<bar> \<le> c * (3 * u) * t'" by (simp add: algebra_simps)
  then have "\<bar>c' * t - c * t'\<bar> / (t' * t) \<le> c * (3 * u) * t' / (t' * t)"
    using pos assms(3) by (intro divide_right_mono) simp_all
  moreover have "c' / t' - c / t = (c' * t - c * t') / (t' * t)" using pos assms(3) by (simp add: field_simps)
  ultimately show ?thesis using pos assms(3,4) by (simp add: abs_divide abs_mult)
qed

text \<open>A percentage is printed with two decimals that are off by at most half a hundredth, but for one part in ten
  thousand million of a percent: three roundings of \<open>float64\<close> do not show.\<close>

theorem percent_accurate:
  assumes "0 < tot" "cnt \<le> tot"
  shows "\<exists>N. fmt_2f (percent_value cnt tot) = fixed_str False 2 N \<and>
    \<bar>real N / 100 - 100 * real (unat cnt) / real (unat tot)\<bar> \<le> 1 / 200 + 1 / 10 ^ 10"
proof -
  define c t where "c = real (unat cnt)" and "t = real (unat tot)"
  have "unat cnt \<le> unat tot" "0 < unat tot" using assms by (simp_all add: word_le_nat_alt word_less_nat_alt)
  then have ct: "0 \<le> c" "c \<le> t" "0 < t" unfolding c_def t_def by (simp_all only: of_nat_0_le_iff of_nat_le_iff of_nat_0_less_iff)
  define q where "q = bf_quo 53 (f64_of_u64 cnt) (f64_of_u64 tot)"
  define x where "x = bf_of_int_quot 53 False (int (bf_mant q) * 100) (bf_exp q)"
  have tot: "tot \<noteq> 0" using assms(1) by auto
  have p: "percent_value cnt tot = F64 x" using tot by (simp add: percent_value_def q_def x_def Let_def)
  have t'0: "bf_mant (f64_of_u64 tot) \<noteq> 0"
  proof
    assume "bf_mant (f64_of_u64 tot) = 0"
    then have "bf_val (f64_of_u64 tot) = 0" by (simp add: bf_val_def)
    with f64_of_u64_error [of tot] ct(3) show False by (simp add: t_def)
  qed
  have neg: "\<not> bf_neg (f64_of_u64 n)" for n by (simp add: f64_of_u64_def round_quot_def Let_def)
  then have qneg: "\<not> bf_neg q" by (simp add: q_def bf_quo_def round_quot_def Let_def)
  have xneg: "\<not> bf_neg x" by (simp add: x_def bf_of_int_quot_def round_quot_def Let_def)
  have 1: "\<bar>bf_val (f64_of_u64 cnt) / bf_val (f64_of_u64 tot) - c / t\<bar> \<le> \<bar>c / t\<bar> * (3 * (1 / 2 ^ 53))"
    using quotient_of_rounded [OF f64_of_u64_error f64_of_u64_error] ct by (simp add: c_def t_def)
  have 2: "\<bar>bf_val q - c / t\<bar> \<le> \<bar>c / t\<bar> * (3 * (1 / 2 ^ 53) + 1 / 2 ^ 53 + 3 * (1 / 2 ^ 53) * (1 / 2 ^ 53))"
    using bf_quo_error [OF t'0, of 53 "f64_of_u64 cnt"] by (intro rel_error_trans [OF 1]) (simp_all add: q_def)
  have q100: "real_of_int (int (bf_mant q) * 100) * 2 powi bf_exp q = 100 * bf_val q" using qneg by (simp add: bf_val_def)
  have "\<bar>bf_val x - 100 * bf_val q\<bar> \<le> \<bar>100 * bf_val q\<bar> / 2 ^ 53"
    using bf_of_int_quot_error [of 53 False "int (bf_mant q) * 100" "bf_exp q"] unfolding q100 x_def by simp
  then have "\<bar>bf_val x - 100 * bf_val q\<bar> / 100 \<le> \<bar>bf_val q\<bar> * (1 / 2 ^ 53)" by (simp add: abs_mult)
  moreover have "bf_val x / 100 - bf_val q = (bf_val x - 100 * bf_val q) / 100" by simp
  then have "\<bar>bf_val x / 100 - bf_val q\<bar> = \<bar>bf_val x - 100 * bf_val q\<bar> / 100" by (simp only: abs_divide abs_numeral)
  ultimately have 3: "\<bar>bf_val x / 100 - bf_val q\<bar> \<le> \<bar>bf_val q\<bar> * (1 / 2 ^ 53)" by linarith
  have "\<bar>bf_val x / 100 - c / t\<bar> \<le> \<bar>c / t\<bar> * (1 / 10 ^ 13)"
    by (rule order_trans [OF rel_error_trans [OF 2 3]], simp, rule mult_left_mono) simp_all
  moreover have "\<bar>c / t\<bar> \<le> 1" using ct by simp
  then have "\<bar>c / t\<bar> * (1 / 10 ^ 13) \<le> 1 * (1 / 10 ^ 13)" by (rule mult_right_mono) simp
  ultimately have "\<bar>bf_val x / 100 - c / t\<bar> \<le> 1 * (1 / 10 ^ 13)" by (rule order_trans)
  moreover have "bf_val x / 100 - c / t = (bf_val x - 100 * c / t) / 100" by simp
  ultimately have "\<bar>bf_val x - 100 * c / t\<bar> \<le> 1 / 10 ^ 11" by (simp add: abs_divide)
  moreover have "0 \<le> bf_val x" using xneg by (simp add: bf_val_def)
  then have "\<bar>real (decimal_int x 2) - bf_val x * 100\<bar> \<le> 1 / 2" using decimal_int_error [of x 2] by simp
  then have "\<bar>real (decimal_int x 2) / 100 - bf_val x\<bar> \<le> 1 / 200" by linarith
  ultimately have "\<bar>real (decimal_int x 2) / 100 - 100 * c / t\<bar> \<le> 1 / 200 + 1 / 10 ^ 11" by linarith
  then have "\<bar>real (decimal_int x 2) / 100 - 100 * c / t\<bar> \<le> 1 / 200 + 1 / 10 ^ 10" by (rule order_trans) simp
  then show ?thesis unfolding p fmt_2f_def bf_Text_f_def c_def t_def using xneg by auto
qed

theorem percent_accurate_witness:
  "\<exists>N. fmt_2f (percent_value 2 3) = fixed_str False 2 N \<and> \<bar>real N / 100 - 200 / 3\<bar> \<le> 1 / 200 + 1 / 10 ^ 10"
  using percent_accurate [of 3 2] by simp

end
