(* ===== verification/WebsiteData.thy ===== *)
theory WebsiteData
  imports WebsiteUtils CommonUtils
begin

text \<open>
  \<open>services/website/webserver_data.go\<close> and \<open>html.go\<close>, with the server type of \<open>webserver.go\<close>: the loops that
  keep the statistics and the rendered pages of each time span up to date, and the daily statistics.  The
  queries are the ones of the database service; templates and minifier are a parameter that renders a page or
  fails.
\<close>

section \<open>Types\<close>

record Stats =
  ws_Since :: gotime
  ws_Until :: gotime
  ws_TimeStr :: string
  ws_TopRelays :: "TopRelayEntry list"
  ws_TopBuilders :: "TopBuilderDisplayEntry list"
  ws_BuilderProfits :: "BuilderProfitEntry list"
  ws_TopBuildersByRelay :: "string \<rightharpoonup> TopBuilderDisplayEntry list"

record HTMLData =
  hd_Title :: string
  hd_TimeSpans :: "string list"
  hd_TimeSpan :: string
  hd_View :: string
  hd_Stats :: Stats
  hd_LastUpdateSlot :: u64
  hd_LastUpdateTime :: gotime
  hd_LastUpdateTimeStr :: string

record HTMLDataDailyStats =
  dd_Title :: string
  dd_Day :: string
  dd_DayPrev :: string
  dd_DayNext :: string
  dd_TimeSince :: string
  dd_TimeUntil :: string
  dd_TopRelays :: "TopRelayEntry list"
  dd_TopBuildersBySummary :: "TopBuilderDisplayEntry list"
  dd_BuilderProfits :: "BuilderProfitEntry list"

record WebserverOpts =
  wo_ListenAddress :: string
  wo_EnablePprof :: bool
  wo_Dev :: bool
  wo_Only24h :: bool

record Webserver =
  srv_opts :: WebserverOpts
  srv_Started :: bool
  srv_stats :: "string \<rightharpoonup> Stats"
  srv_html :: "string \<rightharpoonup> string"
  srv_latestSlot :: u64
  srv_markdownOverview :: string
  srv_markdownBuilderProfit :: string

definition timespans :: "string list" where
  "timespans = [''7d'', ''24h'', ''12h'', ''1h'']"

text \<open>What the server is run with: the iteration and sorting orders of the consolidation, the state a failed
  number parse leaves, the genesis time, the page renderer and the text of a database error.\<close>

record site_env =
  se_genesis :: i64
  se_groups :: "TopBuilderEntry \<Rightarrow> builder_group list"
  se_profitGroups :: "BuilderProfitEntry \<Rightarrow> builder_group list"
  se_childPlan :: "TopBuilderEntry list \<Rightarrow> TopBuilderEntry list"
  se_plan :: "TopBuilderDisplayEntry list \<Rightarrow> TopBuilderDisplayEntry list"
  se_profitPlan :: "BuilderProfitEntry list \<Rightarrow> BuilderProfitEntry list"
  se_junk :: "string \<Rightarrow> bigfloat"
  se_render :: "HTMLData \<Rightarrow> string + string"
  se_errText :: "sql_error \<Rightarrow> string"

record site_queries =
  sq_TopRelays :: "gotime \<Rightarrow> gotime \<Rightarrow> sql_error + TopRelayEntry list"
  sq_TopBuilders :: "gotime \<Rightarrow> gotime \<Rightarrow> string \<Rightarrow> sql_error + TopBuilderEntry list"
  sq_BuilderProfits :: "gotime \<Rightarrow> gotime \<Rightarrow> sql_error + BuilderProfitEntry list"
  sq_LatestDelivered :: "DataAPIPayloadDeliveredEntry \<times> sql_error option"
  sq_RecentPayloads :: "string list \<Rightarrow> i64 \<Rightarrow> sql_error + TmpPayloadsForExtraDataEntry list"

abbreviation site_builders :: "site_env \<Rightarrow> TopBuilderEntry list \<Rightarrow> TopBuilderDisplayEntry list" where
  "site_builders env \<equiv> consolidateBuilderEntries (se_groups env) (se_childPlan env) (se_plan env)"

abbreviation site_profits :: "site_env \<Rightarrow> BuilderProfitEntry list \<Rightarrow> BuilderProfitEntry list option" where
  "site_profits env \<equiv> consolidateBuilderProfitEntries (se_junk env) (se_profitGroups env) (se_profitPlan env)"

definition NewStats :: Stats where
  "NewStats = \<lparr>ws_Since = zero_time, ws_Until = zero_time, ws_TimeStr = [], ws_TopRelays = [], ws_TopBuilders = [],
     ws_BuilderProfits = [], ws_TopBuildersByRelay = Map.empty\<rparr>"

text \<open>A new server; either template may fail to parse.\<close>

definition NewWebserver :: "string option \<Rightarrow> string option \<Rightarrow> WebserverOpts \<Rightarrow> string + Webserver" where
  "NewWebserver dailyErr indexErr opts =
     (case dailyErr of Some e \<Rightarrow> Inl e
      | None \<Rightarrow> (case indexErr of Some e \<Rightarrow> Inl e
          | None \<Rightarrow> Inr \<lparr>srv_opts = opts\<lparr>wo_Only24h := wo_Dev opts\<rparr>, srv_Started = False, srv_stats = Map.empty,
              srv_html = Map.empty, srv_latestSlot = 0, srv_markdownOverview = [], srv_markdownBuilderProfit = []\<rparr>))"

text \<open>\<open>StartServer\<close>: the server after it, whether it started the update loops, and its error.  The flag is swapped, so a
  second call changes nothing and starts nothing; that the server was closed is not an error.\<close>

datatype listen_error = ErrServerAlreadyStarted | ErrServerClosed | ErrListen string

definition StartServer :: "(string \<Rightarrow> listen_error) \<Rightarrow> Webserver \<Rightarrow> Webserver \<times> bool \<times> listen_error option" where
  "StartServer ListenAndServe srv =
     (if srv_Started srv then (srv, False, Some ErrServerAlreadyStarted)
      else (srv\<lparr>srv_Started := True\<rparr>, True,
        (case ListenAndServe (wo_ListenAddress (srv_opts srv)) of ErrServerClosed \<Rightarrow> None | err \<Rightarrow> Some err)))"

section \<open>The update loops\<close>

definition startRootHTMLUpdateLoops :: "bool \<Rightarrow> i64 list" where
  "startRootHTMLUpdateLoops envSkip7dStats = [24, 12, 1] @ (if envSkip7dStats then [] else [7 * 24])"

text \<open>One round of the loop over the latest slot; every branch sleeps a minute.\<close>

definition latestSlotUpdateLoop :: "site_queries \<Rightarrow> Webserver \<Rightarrow> Webserver" where
  "latestSlotUpdateLoop q srv =
     (case sq_LatestDelivered q of
        (lastPayload, None) \<Rightarrow> srv\<lparr>srv_latestSlot := pd_Slot lastPayload\<rparr>
      | (_, Some err) \<Rightarrow> srv)"

abbreviation dur_Hour :: duration where
  "dur_Hour \<equiv> 3600 * dur_Second"

definition dur_Abs :: "duration \<Rightarrow> duration" where
  "dur_Abs d = (if 0 \<le> sint d then d else if d = minDuration then maxDuration else - d)"

fun buildersPerRelay ::
    "site_env \<Rightarrow> site_queries \<Rightarrow> gotime \<Rightarrow> gotime \<Rightarrow> TopRelayEntry list \<Rightarrow> (string \<rightharpoonup> TopBuilderDisplayEntry list) \<Rightarrow>
     sql_error + (string \<rightharpoonup> TopBuilderDisplayEntry list)" where
  "buildersPerRelay env q since until [] m = Inr m"
| "buildersPerRelay env q since until (relay # relays) m =
     (case sq_TopBuilders q since until (tr_Relay relay) of
        Inl err \<Rightarrow> Inl err
      | Inr builders \<Rightarrow> buildersPerRelay env q since until relays (m(tr_Relay relay \<mapsto> site_builders env builders)))"

text \<open>\<open>None\<close> is a panic of the profit consolidation.\<close>

definition getStatsForHours :: "site_env \<Rightarrow> site_queries \<Rightarrow> gotime \<Rightarrow> duration \<Rightarrow> (sql_error + Stats) option" where
  "getStatsForHours env q now duration =
     (let hours = i64_div duration dur_Hour;
          timeStr = (if hours = 168 then ''7d'' else i64_str hours @ ''h'');
          until = now;
          since = time_Add until (- dur_Abs duration)
      in case sq_TopRelays q since until of Inl err \<Rightarrow> Some (Inl err)
         | Inr topRelays \<Rightarrow> (case sq_TopBuilders q since until [] of Inl err \<Rightarrow> Some (Inl err)
         | Inr topBuilders \<Rightarrow> (case sq_BuilderProfits q since until of Inl err \<Rightarrow> Some (Inl err)
         | Inr builderProfits \<Rightarrow> (case site_profits env builderProfits of None \<Rightarrow> None
         | Some profits \<Rightarrow> Some (case buildersPerRelay env q since until topRelays Map.empty of Inl err \<Rightarrow> Inl err
             | Inr byRelay \<Rightarrow> Inr \<lparr>ws_Since = since, ws_Until = until, ws_TimeStr = timeStr,
                 ws_TopRelays = prepareRelaysEntries topRelays, ws_TopBuilders = site_builders env topBuilders,
                 ws_BuilderProfits = profits, ws_TopBuildersByRelay = byRelay\<rparr>)))))"

definition page_data :: "site_env \<Rightarrow> Webserver \<Rightarrow> Stats \<Rightarrow> HTMLData" where
  "page_data env srv stats =
     (let latestSlotInDB = srv_latestSlot srv; latestSlotInDBTime = SlotToTime (se_genesis env) latestSlotInDB
      in \<lparr>hd_Title = ''MEV-Boost Relay & Builder Stats'', hd_TimeSpans = timespans, hd_TimeSpan = ws_TimeStr stats,
          hd_View = ''overview'', hd_Stats = stats, hd_LastUpdateSlot = latestSlotInDB,
          hd_LastUpdateTime = latestSlotInDBTime, hd_LastUpdateTimeStr = fmt_DateHourMin latestSlotInDBTime\<rparr>)"

definition renderRootHTML :: "site_env \<Rightarrow> Webserver \<Rightarrow> Stats \<Rightarrow> string + string \<times> string" where
  "renderRootHTML env srv stats =
     (let htmlData = page_data env srv stats
      in case se_render env htmlData of Inl err \<Rightarrow> Inl err
         | Inr overviewBytes \<Rightarrow>
             (case se_render env (htmlData\<lparr>hd_Title := ''MEV-Boost Builder Profitability'', hd_View := ''builder-profit''\<rparr>) of
                Inl err \<Rightarrow> Inl err
              | Inr profitBytes \<Rightarrow> Inr (overviewBytes, profitBytes)))"

definition htmlKey :: "string \<Rightarrow> string \<Rightarrow> string" where
  "htmlKey timespan view = timespan @ ''-'' @ view"

text \<open>One round of an update loop: the server after it and whether it sleeps before the next.\<close>

definition rootDataUpdateLoop :: "site_env \<Rightarrow> site_queries \<Rightarrow> gotime \<Rightarrow> i64 \<Rightarrow> Webserver \<Rightarrow> (Webserver \<times> bool) option" where
  "rootDataUpdateLoop env q now hours srv =
     (case getStatsForHours env q now (hours * dur_Hour) of
        None \<Rightarrow> None
      | Some (Inl err) \<Rightarrow> Some (srv, False)
      | Some (Inr stats) \<Rightarrow>
          (case renderRootHTML env srv stats of
             Inl err \<Rightarrow> Some (srv, False)
           | Inr (overviewBytes, profitBytes) \<Rightarrow>
               Some (srv\<lparr>srv_stats := (srv_stats srv)(ws_TimeStr stats \<mapsto> stats),
                         srv_html := (srv_html srv)(htmlKey (ws_TimeStr stats) ''overview'' \<mapsto> overviewBytes,
                                                    htmlKey (ws_TimeStr stats) ''builder-profit'' \<mapsto> profitBytes)\<rparr>, True)))"

section \<open>Daily statistics\<close>

definition end_of_day :: "int \<Rightarrow> gotime" where
  "end_of_day day = GoTime (word_of_int (day * day_secs + 86399)) 0"

definition daily_min_date :: "gotime \<Rightarrow> gotime" where
  "daily_min_date now = time_Add (midnight (time_day now)) (- 24 * dur_Hour)"

definition getDailyStats ::
    "site_env \<Rightarrow> site_queries \<Rightarrow> gotime \<Rightarrow> gotime \<Rightarrow>
     string + gotime \<times> gotime \<times> gotime \<times> TopRelayEntry list \<times> TopBuilderEntry list \<times> BuilderProfitEntry list" where
  "getDailyStats env q now t =
     (let minDate = daily_min_date now
      in if time_After t minDate then Inl ''date is too recent''
         else let since = midnight (time_day t); until = end_of_day (time_day t)
              in case GetStatsForTimerange (sq_TopRelays q since until) (sq_TopBuilders q since until []) (sq_BuilderProfits q since until) of
                   Inl err \<Rightarrow> Inl (se_errText env err)
                 | Inr (relays, builders, profits) \<Rightarrow> Inr (since, until, minDate, relays, builders, profits))"

section \<open>The server while it runs\<close>

inductive site_step :: "site_env \<Rightarrow> bool \<Rightarrow> Webserver \<Rightarrow> Webserver \<Rightarrow> bool" for env skip where
  latest: "site_step env skip srv (latestSlotUpdateLoop q srv)"
| root: "hours \<in> set (startRootHTMLUpdateLoops skip) \<Longrightarrow> rootDataUpdateLoop env q now hours srv = Some (srv', slept) \<Longrightarrow>
    site_step env skip srv srv'"

inductive site_reachable :: "site_env \<Rightarrow> bool \<Rightarrow> WebserverOpts \<Rightarrow> Webserver \<Rightarrow> bool" for env skip opts where
  start: "NewWebserver None None opts = Inr srv0 \<Longrightarrow> StartServer ListenAndServe srv0 = (srv, True, err) \<Longrightarrow>
    site_reachable env skip opts srv"
| step: "site_reachable env skip opts srv \<Longrightarrow> site_step env skip srv srv' \<Longrightarrow> site_reachable env skip opts srv'"

inductive_cases site_stepE: "site_step env skip srv srv'"

definition loop_timespan :: "i64 \<Rightarrow> string" where
  "loop_timespan hours = (if hours = 168 then ''7d'' else i64_str hours @ ''h'')"

lemma loop_timespans:
  "loop_timespan ` set (startRootHTMLUpdateLoops True) = {''24h'', ''12h'', ''1h''}"
  "loop_timespan ` set (startRootHTMLUpdateLoops False) = set timespans"
  by code_simp+

lemma loop_hours: "hours \<in> set (startRootHTMLUpdateLoops skip) \<Longrightarrow> i64_div (hours * dur_Hour) dur_Hour = hours"
proof -
  have "\<forall>h \<in> set (startRootHTMLUpdateLoops False). i64_div (h * dur_Hour) dur_Hour = h" by code_simp
  moreover assume "hours \<in> set (startRootHTMLUpdateLoops skip)"
  then have "hours \<in> set (startRootHTMLUpdateLoops False)" by (auto simp: startRootHTMLUpdateLoops_def split: if_splits)
  ultimately show ?thesis by blast
qed

lemma getStatsForHours_time:
  assumes "getStatsForHours env q now duration = Some (Inr stats)"
  shows "ws_TimeStr stats = loop_timespan (i64_div duration dur_Hour)" "ws_Until stats = now"
    "ws_Since stats = time_Add now (- dur_Abs duration)"
  using assms by (auto simp: getStatsForHours_def loop_timespan_def Let_def split: sum.splits option.splits)

definition served_views :: "string set" where
  "served_views = {''overview'', ''builder-profit''}"

lemma htmlKey_inject:
  assumes "v \<in> served_views" "w \<in> served_views"
  shows "htmlKey t v = htmlKey u w \<longleftrightarrow> t = u \<and> v = w"
proof -
  have "t @ ''-overview'' \<noteq> u @ ''-builder-profit''" for t u
  proof
    assume "t @ ''-overview'' = u @ ''-builder-profit''"
    then have "last (t @ ''-overview'') = last (u @ ''-builder-profit'')" by (rule arg_cong)
    then show False by simp
  qed
  then show ?thesis using assms by (auto simp: htmlKey_def served_views_def dest: sym)
qed

text \<open>A page is there for exactly the time spans that have statistics, and every time span is its own.\<close>

definition site_inv :: "bool \<Rightarrow> Webserver \<Rightarrow> bool" where
  "site_inv skip srv \<longleftrightarrow>
     dom (srv_stats srv) \<subseteq> loop_timespan ` set (startRootHTMLUpdateLoops skip) \<and>
     (\<forall>t s. srv_stats srv t = Some s \<longrightarrow> ws_TimeStr s = t \<and>
        (\<exists>hours \<in> set (startRootHTMLUpdateLoops skip). t = loop_timespan hours \<and>
           ws_Since s = time_Add (ws_Until s) (- dur_Abs (hours * dur_Hour)))) \<and>
     (\<forall>t. \<forall>view \<in> served_views. srv_html srv (htmlKey t view) = None \<longleftrightarrow> srv_stats srv t = None)"

lemma site_inv_root:
  assumes "site_inv skip srv" "hours \<in> set (startRootHTMLUpdateLoops skip)"
    "rootDataUpdateLoop env q now hours srv = Some (srv', slept)"
  shows "site_inv skip srv'"
proof (cases "srv' = srv")
  case False
  with assms(3) obtain stats o1 p1 where stats: "getStatsForHours env q now (hours * dur_Hour) = Some (Inr stats)"
    and srv': "srv' = srv\<lparr>srv_stats := (srv_stats srv)(ws_TimeStr stats \<mapsto> stats),
       srv_html := (srv_html srv)(htmlKey (ws_TimeStr stats) ''overview'' \<mapsto> o1,
                                  htmlKey (ws_TimeStr stats) ''builder-profit'' \<mapsto> p1)\<rparr>"
    by (auto simp: rootDataUpdateLoop_def split: option.splits sum.splits)
  note time = getStatsForHours_time [OF stats, unfolded loop_hours [OF assms(2)]]
  have views: "''overview'' \<in> served_views" "''builder-profit'' \<in> served_views" by (simp_all add: served_views_def)
  have html: "srv_html srv' (htmlKey t view) = None \<longleftrightarrow> srv_stats srv' t = None" if view: "view \<in> served_views" for t view
  proof (cases "t = ws_TimeStr stats")
    case True
    then have "srv_html srv' (htmlKey t view) \<noteq> None" using view by (auto simp: srv' served_views_def)
    with True show ?thesis by (simp add: srv')
  next
    case False
    then have "srv_html srv' (htmlKey t view) = srv_html srv (htmlKey t view)" "srv_stats srv' t = srv_stats srv t"
      using htmlKey_inject views view by (simp_all add: srv')
    with assms(1) view show ?thesis by (simp add: site_inv_def)
  qed
  have "\<exists>hours' \<in> set (startRootHTMLUpdateLoops skip). loop_timespan hours = loop_timespan hours' \<and>
      ws_Since stats = time_Add (ws_Until stats) (- dur_Abs (hours' * dur_Hour))"
    using assms(2) time by metis
  with assms(1,2) time(1) html show ?thesis by (auto simp: site_inv_def srv')
qed (use assms(1) in simp)

lemma site_inv_latest: "site_inv skip srv \<Longrightarrow> site_inv skip (latestSlotUpdateLoop q srv)"
  by (auto simp: site_inv_def latestSlotUpdateLoop_def split: prod.splits option.splits)

lemma site_inv_reachable: "site_reachable env skip opts srv \<Longrightarrow> site_inv skip srv \<and> wo_Dev (srv_opts srv) = wo_Dev opts"
proof (induction rule: site_reachable.induct)
  case (start srv0 ListenAndServe srv err)
  then show ?case by (auto simp: NewWebserver_def StartServer_def site_inv_def split: if_splits)
next
  case (step srv srv')
  have "srv_opts srv' = srv_opts srv"
    using step.hyps(2) by cases
      (auto simp: latestSlotUpdateLoop_def rootDataUpdateLoop_def split: prod.splits option.splits sum.splits)
  with step.hyps(2) step.IH show ?case by (auto elim!: site_stepE intro: site_inv_root site_inv_latest)
qed

end
