(* ===== verification/WebHandlers.thy ===== *)
theory WebHandlers
  imports WebsiteData
begin

text \<open>
  The handlers of \<open>services/website/webserver.go\<close>.  A response is the status code, once written, and the
  documents written after it; a handler that panics (which \<open>net/http\<close> turns into a closed connection) is
  \<open>None\<close>.
\<close>

section \<open>Responses\<close>

record overview_resp =
  or_Timespan :: string
  or_Since :: string
  or_Until :: string
  or_Relays :: "TopRelayEntry list"
  or_Builders :: "TopBuilderDisplayEntry list"

record profit_resp =
  pr_Timespan :: string
  pr_Since :: string
  pr_Until :: string
  pr_BuilderProfits :: "BuilderProfitEntry list"

record daily_resp =
  dr_Date :: string
  dr_Relays :: "TopRelayEntry list"
  dr_Builders :: "TopBuilderDisplayEntry list"

record cow_resp =
  cr_DateFrom :: string
  cr_DateTo :: string
  cr_TopBuilders :: "TopBuilderDisplayEntry list"

record health_resp =
  hr_IsHealthy :: bool
  hr_CurrentSlot :: u64
  hr_LatestUpdateSlot :: u64
  hr_SlotsSinceUpdate :: u64
  hr_Message :: string

record extra_resp =
  er_Slot :: u64
  er_SlotTime :: string
  er_ExtraData :: string
  er_PrevSlot :: u64
  er_MinSincePrevSlot :: u64

datatype document =
    HTTPErrorResp nat string
  | Bytes string
  | OverviewDoc overview_resp
  | ProfitDoc profit_resp
  | DailyDoc daily_resp
  | CowDoc cow_resp
  | HealthDoc health_resp
  | ExtraDoc "extra_resp list"

record response =
  rs_code :: "nat option"
  rs_docs :: "document list"

definition fresh_response :: response where
  "fresh_response = \<lparr>rs_code = None, rs_docs = []\<rparr>"

text \<open>The first status code is sent, later ones are ignored.\<close>

definition WriteHeader :: "nat \<Rightarrow> response \<Rightarrow> response" where
  "WriteHeader code w = (case rs_code w of None \<Rightarrow> w\<lparr>rs_code := Some code\<rparr> | Some _ \<Rightarrow> w)"

definition write_doc :: "document \<Rightarrow> response \<Rightarrow> response" where
  "write_doc d w = (let w' = WriteHeader 200 w in w'\<lparr>rs_docs := rs_docs w' @ [d]\<rparr>)"

definition sent_code :: "response \<Rightarrow> nat" where
  "sent_code w = (case rs_code w of None \<Rightarrow> 200 | Some code \<Rightarrow> code)"

definition RespondError :: "response \<Rightarrow> nat \<Rightarrow> string \<Rightarrow> response" where
  "RespondError w code message = write_doc (HTTPErrorResp code message) (WriteHeader code w)"

definition RespondErrorJSON :: "response \<Rightarrow> nat \<Rightarrow> document \<Rightarrow> response" where
  "RespondErrorJSON w code d = write_doc d (WriteHeader code w)"

definition RespondOK :: "response \<Rightarrow> document \<Rightarrow> response" where
  "RespondOK w d = write_doc d (WriteHeader 200 w)"

definition write_bytes :: "string \<Rightarrow> response \<Rightarrow> response" where
  "write_bytes b w = write_doc (Bytes b) (WriteHeader 200 w)"

section \<open>Pages and documents of a time span\<close>

definition query_timespan :: "string \<Rightarrow> string" where
  "query_timespan t = (if t = [] then ''24h'' else t)"

definition handleRoot :: "site_env \<Rightarrow> Webserver \<Rightarrow> string \<Rightarrow> string \<Rightarrow> response \<Rightarrow> response" where
  "handleRoot env srv t path w =
     (let timespan = query_timespan t;
          view = (if strings_HasSuffix path ''builder-profit'' then ''builder-profit'' else ''overview'')
      in if wo_Dev (srv_opts srv) then
           (case srv_stats srv timespan of
              None \<Rightarrow> RespondError w 500 ''no data for timespan''
            | Some stats \<Rightarrow>
                (case renderRootHTML env srv stats of
                   Inl err \<Rightarrow> RespondError w 500 err
                 | Inr (overviewBytes, profitBytes) \<Rightarrow>
                     write_bytes (if view = ''builder-profit'' then profitBytes else overviewBytes) w))
         else
           (case srv_html srv (htmlKey timespan view) of
              None \<Rightarrow> RespondError w 500
                (if timespan = ''24h'' \<and> view = ''overview'' then ''server starting, waiting for initial data...''
                 else ''no data for timespan'')
            | Some htmlBytes \<Rightarrow> write_bytes htmlBytes w))"

definition handleOverviewMarkdown :: "Webserver \<Rightarrow> response \<Rightarrow> response" where
  "handleOverviewMarkdown srv w = write_bytes (srv_markdownOverview srv) w"

definition handleBuilderProfitMarkdown :: "Webserver \<Rightarrow> response \<Rightarrow> response" where
  "handleBuilderProfitMarkdown srv w = write_bytes (srv_markdownBuilderProfit srv) w"

definition handleOverviewJSON :: "Webserver \<Rightarrow> string \<Rightarrow> response \<Rightarrow> response" where
  "handleOverviewJSON srv t w =
     (case srv_stats srv (query_timespan t) of
        None \<Rightarrow> RespondError w 500 ''no data for timespan''
      | Some stats \<Rightarrow> RespondOK w (OverviewDoc
          \<lparr>or_Timespan = ws_TimeStr stats, or_Since = fmt_DateTime (ws_Since stats), or_Until = fmt_DateTime (ws_Until stats),
           or_Relays = ws_TopRelays stats, or_Builders = ws_TopBuilders stats\<rparr>))"

definition handleBuilderProfitJSON :: "Webserver \<Rightarrow> string \<Rightarrow> response \<Rightarrow> response" where
  "handleBuilderProfitJSON srv t w =
     (case srv_stats srv (query_timespan t) of
        None \<Rightarrow> RespondError w 500 ''no data for timespan''
      | Some stats \<Rightarrow> RespondOK w (ProfitDoc
          \<lparr>pr_Timespan = ws_TimeStr stats, pr_Since = fmt_DateTime (ws_Since stats), pr_Until = fmt_DateTime (ws_Until stats),
           pr_BuilderProfits = ws_BuilderProfits stats\<rparr>))"

section \<open>Days and weeks\<close>

text \<open>The page of a day.  The template writes what it can before it fails; in development mode it is parsed
  again for every request.\<close>

definition daily_page :: "site_env \<Rightarrow> gotime \<Rightarrow> gotime \<times> gotime \<times> gotime \<times> TopRelayEntry list \<times> TopBuilderEntry list \<times> BuilderProfitEntry list \<Rightarrow>
    HTMLDataDailyStats option" where
  "daily_page env t = (\<lambda>(since, until, minDate, relays, builders, builderProfits).
     let dateNext = time_Add (midnight (time_day t)) (24 * dur_Hour);
         dayNext = (if time_After dateNext minDate then [] else fmt_DateOnly dateNext)
     in map_option (\<lambda>profits.
          \<lparr>dd_Title = ''MEV-Boost Stats for '' @ fmt_DateOnly t, dd_Day = fmt_DateOnly t,
           dd_DayPrev = fmt_DateOnly (time_Add t (- 24 * dur_Hour)), dd_DayNext = dayNext,
           dd_TimeSince = fmt_DateHourMin since, dd_TimeUntil = fmt_DateHourMin until,
           dd_TopRelays = prepareRelaysEntries relays, dd_TopBuildersBySummary = site_builders env builders,
           dd_BuilderProfits = profits\<rparr>) (site_profits env builderProfits))"

definition handleDailyStats ::
    "site_env \<Rightarrow> (HTMLDataDailyStats \<Rightarrow> string \<times> string option) \<Rightarrow> string option \<Rightarrow> site_queries \<Rightarrow> gotime \<Rightarrow> Webserver \<Rightarrow>
     string \<Rightarrow> response \<Rightarrow> response option" where
  "handleDailyStats env exec parseErr q now srv day w =
     (case parse_DateOnly day of
        None \<Rightarrow> Some (RespondError w 400 ''invalid date'')
      | Some t \<Rightarrow>
          (case getDailyStats env q now t of
             Inl err \<Rightarrow> Some (RespondError w 400 err)
           | Inr stats \<Rightarrow>
               (case daily_page env t stats of
                  None \<Rightarrow> None
                | Some htmlData \<Rightarrow>
                    if wo_Dev (srv_opts srv) \<and> parseErr \<noteq> None then Some w
                    else (case exec htmlData of
                       (bytes, err) \<Rightarrow> let w' = write_bytes bytes w in
                         if wo_Dev (srv_opts srv) then Some w'
                         else (case err of None \<Rightarrow> Some w' | Some e \<Rightarrow> Some (RespondError w' 500 e))))))"

definition handleDailyStatsJSON :: "site_env \<Rightarrow> site_queries \<Rightarrow> gotime \<Rightarrow> string \<Rightarrow> response \<Rightarrow> response" where
  "handleDailyStatsJSON env q now day w =
     (case parse_DateOnly day of
        None \<Rightarrow> RespondError w 400 ''invalid date''
      | Some t \<Rightarrow>
          (case getDailyStats env q now t of
             Inl err \<Rightarrow> RespondError w 400 err
           | Inr (since, until, minDate, relays, builders, builderProfits) \<Rightarrow>
               RespondOK w (DailyDoc \<lparr>dr_Date = fmt_DateOnly t, dr_Relays = prepareRelaysEntries relays,
                 dr_Builders = site_builders env builders\<rparr>)))"

text \<open>\<open>time.Time.String\<close> of a full second in UTC\<close>

definition time_String :: "gotime \<Rightarrow> string" where
  "time_String t = fmt_DateTime t @ '' +0000 UTC''"

definition handleCowstatsJSON :: "site_env \<Rightarrow> site_queries \<Rightarrow> gotime \<Rightarrow> response \<Rightarrow> response" where
  "handleCowstatsJSON env q now w =
     (let wednesday1 = getLastWednesday now;
          wednesday2 = midnight (time_day wednesday1 - 7)
      in case sq_TopBuilders q wednesday2 wednesday1 [] of
           Inl err \<Rightarrow> w
         | Inr topBuilders \<Rightarrow> RespondOK w (CowDoc \<lparr>cr_DateFrom = time_String wednesday2,
             cr_DateTo = time_String wednesday1, cr_TopBuilders = site_builders env topBuilders\<rparr>))"

section \<open>Health\<close>

definition handleLivenessCheck :: "response \<Rightarrow> response" where
  "handleLivenessCheck w = WriteHeader 200 w"

definition handleHealthCheck :: "site_env \<Rightarrow> gotime \<Rightarrow> Webserver \<Rightarrow> response \<Rightarrow> response" where
  "handleHealthCheck env now srv w =
     (let currentSlot = TimeToSlot (se_genesis env) now;
          slotsPerMinute = 5; maxMinutesSinceLastUpdate = 10;
          maxSlotsSinceLastUpdate = maxMinutesSinceLastUpdate * slotsPerMinute;
          latestSlotInDB = srv_latestSlot srv;
          resp = \<lparr>hr_IsHealthy = True, hr_CurrentSlot = currentSlot, hr_LatestUpdateSlot = latestSlotInDB,
             hr_SlotsSinceUpdate = currentSlot - latestSlotInDB, hr_Message = []\<rparr>
      in if currentSlot - latestSlotInDB > maxSlotsSinceLastUpdate then
           let resp' = resp\<lparr>hr_IsHealthy := False, hr_Message := ''No updates for too long''\<rparr>
           in RespondOK (RespondErrorJSON w 500 (HealthDoc resp')) (HealthDoc resp')
         else RespondOK w (HealthDoc resp))"

section \<open>Recent payloads\<close>

definition strconv_Atoi :: "string \<Rightarrow> i64 option" where
  "strconv_Atoi s =
     (case big_SetString s of (v, ok) \<Rightarrow>
        if ok \<and> - (2 ^ 63) \<le> v \<and> v < 2 ^ 63 then Some (word_of_int v) else None)"

text \<open>Whole minutes of a duration of whole seconds: the fraction that \<open>Minutes\<close> adds is cut off again.\<close>

definition dur_whole_minutes :: "duration \<Rightarrow> u64" where
  "dur_whole_minutes d = i64_div d (60 * dur_Second)"

definition extra_entry :: "i64 \<Rightarrow> u64 \<times> gotime \<Rightarrow> TmpPayloadsForExtraDataEntry \<Rightarrow> extra_resp" where
  "extra_entry genesis = (\<lambda>(prevSlot, prevSlotTime) payload.
     let slotStartTime = SlotToTime genesis (tp_Slot payload);
         entry = \<lparr>er_Slot = tp_Slot payload, er_SlotTime = fmt_DateTime slotStartTime,
            er_ExtraData = tp_ExtraData payload, er_PrevSlot = 0, er_MinSincePrevSlot = 0\<rparr>
     in if prevSlot > 0 then entry\<lparr>er_PrevSlot := prevSlot,
          er_MinSincePrevSlot := dur_whole_minutes (dur_Abs (time_Sub slotStartTime prevSlotTime))\<rparr>
        else entry)"

text \<open>The loop from the last payload to the first, with the slot and time of the payload before.\<close>

fun extra_loop :: "i64 \<Rightarrow> TmpPayloadsForExtraDataEntry list \<Rightarrow> extra_resp list \<times> u64 \<times> gotime" where
  "extra_loop genesis [] = ([], 0, zero_time)"
| "extra_loop genesis (payload # rest) =
     (case extra_loop genesis rest of
        (entries, prev) \<Rightarrow> (extra_entry genesis prev payload # entries, tp_Slot payload, SlotToTime genesis (tp_Slot payload)))"

definition extra_aliases :: "string \<Rightarrow> string list" where
  "extra_aliases extraData =
     (if extraData = ''fb'' then [''Illuminate Dmocratize Dstribute'', ''Illuminate Dmocrtz Dstrib Prtct''] else [extraData])"

definition handleExtraDataPayloads :: "site_env \<Rightarrow> site_queries \<Rightarrow> string \<Rightarrow> string \<Rightarrow> response \<Rightarrow> response option" where
  "handleExtraDataPayloads env q extraData limitArg w =
     (case (if limitArg = [] then Some 20 else strconv_Atoi limitArg) of
        None \<Rightarrow> Some (RespondError w 400 ''invalid limit'')
      | Some limit \<Rightarrow>
          (case sq_RecentPayloads q (extra_aliases extraData) (limit + 1) of
             Inl err \<Rightarrow> Some (RespondError w 500 ''error getting payloads'')
           | Inr rows \<Rightarrow>
               if rows = [] then None
               else Some (RespondOK w (ExtraDoc (butlast (fst (extra_loop (se_genesis env) rows)))))))"

section \<open>The queries of the database service\<close>

text \<open>The handlers run on these; a negative limit is an error of the server.\<close>

definition recent_payloads ::
    "sql_error option \<Rightarrow> (DataAPIPayloadDeliveredEntry list \<Rightarrow> DataAPIPayloadDeliveredEntry list) \<Rightarrow> DatabaseService \<Rightarrow>
     string list \<Rightarrow> i64 \<Rightarrow> sql_error + TmpPayloadsForExtraDataEntry list" where
  "recent_payloads fault plan db extraData limit =
     (if sint limit < 0 then Inl (ErrServer ''LIMIT must not be negative'')
      else GetRecentPayloadsForExtraData fault plan db extraData (nat (sint limit)))"

definition db_queries ::
    "(string \<Rightarrow> sql_error + TopBuilderEntry list) \<Rightarrow> (string \<Rightarrow> int) \<Rightarrow> DatabaseService \<Rightarrow> site_queries" where
  "db_queries injected eth8 db =
     \<lparr>sq_TopRelays = GetTopRelays None (\<lambda>rows. rows) db,
      sq_TopBuilders = GetTopBuilders None injected (\<lambda>rows. rows) db,
      sq_BuilderProfits = GetBuilderProfits None eth8 (\<lambda>rows. rows) db,
      sq_LatestDelivered = GetLatestDeliveredPayload None (\<lambda>rows. rows) db,
      sq_RecentPayloads = recent_payloads None (\<lambda>rows. rows) db\<rparr>"

end
