(* ===== verification/WebProperties.thy ===== *)
theory WebProperties
  imports WebHandlers
begin

text \<open>
  What the website shows: the pages of the running server, the days of the daily statistics, the weeks of
  the cow statistics, the health check and the recent payloads of a builder.
\<close>

section \<open>Pages\<close>

lemma write_bytes_ok: "sent_code (write_bytes b fresh_response) = 200"
  by (simp add: write_bytes_def write_doc_def WriteHeader_def fresh_response_def sent_code_def Let_def)

lemma RespondError_code: "sent_code (RespondError fresh_response c msg) = c"
  by (simp add: RespondError_def write_doc_def WriteHeader_def fresh_response_def sent_code_def Let_def)

text \<open>In every state that the update loops can reach, a server in production mode answers a page request
  with status 200 exactly when the requested time span has statistics, and otherwise with status 500; only the
  time spans of the menu ever have statistics (without 7d when it is skipped), each under its own name and over
  its own number of hours.\<close>

theorem handleRoot_serves_known_spans:
  assumes "site_reachable env skip opts srv" "\<not> wo_Dev opts"
  shows "sent_code (handleRoot env srv t path fresh_response) = (if srv_stats srv (query_timespan t) = None then 500 else 200) \<and>
    dom (srv_stats srv) \<subseteq> (if skip then {''24h'', ''12h'', ''1h''} else set timespans) \<and>
    (\<forall>u s. srv_stats srv u = Some s \<longrightarrow> ws_TimeStr s = u \<and>
       (\<exists>hours \<in> set (startRootHTMLUpdateLoops skip). u = loop_timespan hours \<and>
          ws_Since s = time_Add (ws_Until s) (- dur_Abs (hours * dur_Hour))))"
proof -
  have inv: "site_inv skip srv" and dev: "\<not> wo_Dev (srv_opts srv)"
    using site_inv_reachable [OF assms(1)] assms(2) by simp_all
  let ?view = "if strings_HasSuffix path ''builder-profit'' then ''builder-profit'' else ''overview''"
  have "srv_html srv (htmlKey (query_timespan t) ?view) = None \<longleftrightarrow> srv_stats srv (query_timespan t) = None"
    using inv by (simp add: site_inv_def served_views_def)
  then have "sent_code (handleRoot env srv t path fresh_response) = (if srv_stats srv (query_timespan t) = None then 500 else 200)"
    using dev by (auto simp: handleRoot_def Let_def write_bytes_ok RespondError_code split: option.splits)
  moreover have "dom (srv_stats srv) \<subseteq> (if skip then {''24h'', ''12h'', ''1h''} else set timespans)"
    using inv loop_timespans by (cases skip) (simp_all only: site_inv_def if_True if_False)
  ultimately show ?thesis using inv unfolding site_inv_def by blast
qed

definition example_site :: site_env where
  "example_site = \<lparr>se_genesis = GenesisDefault, se_groups = (\<lambda>_. BuilderGroups), se_profitGroups = (\<lambda>_. BuilderGroups),
     se_childPlan = (\<lambda>rows. rows), se_plan = (\<lambda>rows. rows), se_profitPlan = (\<lambda>rows. rows), se_junk = (\<lambda>_. BF False 0 0),
     se_render = (\<lambda>d. Inr (hd_View d)), se_errText = (\<lambda>_. ''pq: error'')\<rparr>"

definition example_opts :: WebserverOpts where
  "example_opts = \<lparr>wo_ListenAddress = ''localhost:9060'', wo_EnablePprof = False, wo_Dev = False, wo_Only24h = False\<rparr>"

text \<open>A server that has had one round of its update loop for a day.\<close>

lemma example_running: "\<exists>srv stats. site_reachable example_site True example_opts srv \<and> srv_stats srv = [''24h'' \<mapsto> stats]"
proof -
  let ?q = "\<lparr>sq_TopRelays = \<lambda>_ _. Inr [], sq_TopBuilders = \<lambda>_ _ _. Inr [], sq_BuilderProfits = \<lambda>_ _. Inr [],
    sq_LatestDelivered = (zero_payload, None), sq_RecentPayloads = \<lambda>_ _. Inr []\<rparr>"
  obtain new where new: "NewWebserver None None example_opts = Inr new" "srv_stats new = Map.empty" "\<not> srv_Started new"
    by (simp add: NewWebserver_def)
  define srv0 where "srv0 = new\<lparr>srv_Started := True\<rparr>"
  have started: "StartServer (\<lambda>_. ErrServerClosed) new = (srv0, True, None)" using new(3) by (simp add: StartServer_def srv0_def)
  have empty: "srv_stats srv0 = Map.empty" using new(2) by (simp add: srv0_def)
  have hours: "24 \<in> set (startRootHTMLUpdateLoops True)" by (simp add: startRootHTMLUpdateLoops_def)
  obtain stats where got: "getStatsForHours example_site ?q (GoTime 1700000000 0) (24 * dur_Hour) = Some (Inr stats)"
    by (simp add: getStatsForHours_def consolidateBuilderProfitEntries_def Let_def del: mult_numeral_left_semiring_numeral)
  have "ws_TimeStr stats = loop_timespan 24"
    unfolding getStatsForHours_time(1) [OF got] loop_hours [OF hours] by (rule refl)
  moreover note got
  moreover have "loop_timespan 24 = ''24h''" by code_simp
  ultimately obtain srv where srv: "rootDataUpdateLoop example_site ?q (GoTime 1700000000 0) 24 srv0 = Some (srv, True)"
      "srv_stats srv = [''24h'' \<mapsto> stats]"
    by (simp add: rootDataUpdateLoop_def renderRootHTML_def example_site_def empty Let_def)
  have "site_reachable example_site True example_opts srv"
    by (rule site_reachable.step [OF site_reachable.start [OF new(1) started] site_step.root [OF hours srv(1)]])
  with srv(2) show ?thesis by blast
qed

theorem handleRoot_serves_known_spans_witness:
  "\<exists>srv. site_reachable example_site True example_opts srv \<and>
     sent_code (handleRoot example_site srv [] ''/'' fresh_response) = 200 \<and>
     sent_code (handleRoot example_site srv ''7d'' ''/'' fresh_response) = 500"
proof -
  obtain srv stats where srv: "site_reachable example_site True example_opts srv" "srv_stats srv = [''24h'' \<mapsto> stats]"
    using example_running by blast
  moreover have "\<not> wo_Dev example_opts" by (simp add: example_opts_def)
  ultimately show ?thesis
    using handleRoot_serves_known_spans [of example_site True example_opts srv]
    by (intro exI [of _ srv]) (simp add: query_timespan_def)
qed

section \<open>Days\<close>

definition day_in_range :: "int \<Rightarrow> bool" where
  "day_in_range day \<longleftrightarrow> 18598 \<le> day \<and> day < 10 ^ 12"

lemma day_times:
  assumes "day_in_range day" "0 \<le> s" "s < day_secs"
  shows "sint (word_of_int (day * day_secs + s) :: i64) = day * day_secs + s"
    "time_after_genesis GenesisDefault (GoTime (word_of_int (day * day_secs + s)) 0)"
proof -
  show 1: "sint (word_of_int (day * day_secs + s) :: i64) = day * day_secs + s"
    using assms by (intro sint_word_of_int_small) (simp_all add: day_in_range_def day_secs_def)
  have "sint GenesisDefault = 1606824023" by (simp add: GenesisDefault_def)
  then show "time_after_genesis GenesisDefault (GoTime (word_of_int (day * day_secs + s)) 0)"
    using assms 1 by (simp add: time_after_genesis_def day_in_range_def day_secs_def)
qed

lemma slot_of_day_time:
  assumes "day_in_range day" "0 \<le> s" "s < day_secs"
  shows "uint (timeToSlot (GoTime (word_of_int (day * day_secs + s)) 0)) = (day * 86400 + s - 1606824023) div 12"
proof -
  have "sint GenesisDefault = 1606824023" by (simp add: GenesisDefault_def)
  with uint_timeToSlot [OF day_times(2) [OF assms]] day_times(1) [OF assms]
  show ?thesis by (simp add: day_secs_def)
qed

lemma daily_slots:
  assumes "day_in_range day"
  shows "uint (timeToSlot (midnight day)) = day * 7200 - 133902002"
    and "uint (timeToSlot (end_of_day day)) = day * 7200 + 7199 - 133902001"
proof -
  have "(day * 86400 - 1606824023) div 12 = day * 7200 - 133902002" by linarith
  then show "uint (timeToSlot (midnight day)) = day * 7200 - 133902002"
    using slot_of_day_time [OF assms, of 0] by (simp add: midnight_def day_secs_def)
  have "(day * 86400 + 86399 - 1606824023) div 12 = day * 7200 + 7199 - 133902001" by linarith
  then show "uint (timeToSlot (end_of_day day)) = day * 7200 + 7199 - 133902001"
    using slot_of_day_time [OF assms, of 86399] by (simp add: end_of_day_def day_secs_def)
qed

text \<open>The checked payloads that the statistics of a day are about.\<close>

definition daily_rows :: "DatabaseService \<Rightarrow> int \<Rightarrow> DataAPIPayloadDeliveredEntry list" where
  "daily_rows db day = checked_between (timeToSlot (midnight day)) (timeToSlot (end_of_day day)) db"

text \<open>The slots of the daily statistics overlap: from the first full day after genesis on, a day is given
  7201 slots although it has 7200, and the slot that starts on its last second, 23:59:59, is the first slot of
  the next day as well, so exactly the checked payloads of that slot are counted on both days.\<close>

theorem daily_stats_overlap:
  assumes "day_in_range day" "day_in_range (day + 1)"
  shows "uint (timeToSlot (end_of_day day)) - uint (timeToSlot (midnight day)) + 1 = 7201 \<and>
    timeToSlot (end_of_day day) = timeToSlot (midnight (day + 1)) \<and>
    slotToTime (timeToSlot (end_of_day day)) = end_of_day day \<and>
    set (daily_rows db day) \<inter> set (daily_rows db (day + 1)) =
      {r \<in> set (payloads db). pd_ValueCheckOk r \<noteq> None \<and> pd_Slot r = timeToSlot (end_of_day day)}"
proof -
  note slots = daily_slots [OF assms(1)] daily_slots [OF assms(2)]
  have same: "timeToSlot (end_of_day day) = timeToSlot (midnight (day + 1))"
    using slots by (simp add: word_uint_eq_iff)
  have g: "sint GenesisDefault = 1606824023" by (simp add: GenesisDefault_def)
  have ok: "slot_in_range GenesisDefault (timeToSlot (end_of_day day))"
    using slots(2) assms(1) by (simp add: slot_in_range_def g day_in_range_def)
  have "unixSec (slotToTime (timeToSlot (end_of_day day))) = word_of_int (day * day_secs + 86399)"
    using sint_SlotToTime(1) [OF ok] slots(2) day_times(1) [OF assms(1), of 86399]
    by (simp add: slotToTime_SlotToTime g day_secs_def flip: sint_inject)
  then have start: "slotToTime (timeToSlot (end_of_day day)) = end_of_day day"
    using sint_SlotToTime(2) [OF ok] by (cases "slotToTime (timeToSlot (end_of_day day))") (simp add: end_of_day_def slotToTime_SlotToTime)
  have le: "timeToSlot (midnight day) \<le> timeToSlot (end_of_day day)" "timeToSlot (midnight (day + 1)) \<le> timeToSlot (end_of_day (day + 1))"
    using slots by (simp_all add: word_le_def)
  have "set (daily_rows db day) \<inter> set (daily_rows db (day + 1)) =
      {r \<in> set (payloads db). pd_ValueCheckOk r \<noteq> None \<and> pd_Slot r = timeToSlot (end_of_day day)}"
    using le unfolding daily_rows_def checked_between_def same [symmetric] by auto
  with slots same start show ?thesis by simp
qed

theorem daily_stats_overlap_witness:
  "timeToSlot (end_of_day 19723) = timeToSlot (midnight 19724)"
proof -
  have "day_in_range 19723" "day_in_range (19723 + 1)" by (simp_all add: day_in_range_def)
  from daily_stats_overlap [OF this] show ?thesis by simp
qed

section \<open>Weeks\<close>

lemma midnight_key:
  assumes "- (2 ^ 62) \<le> z * day_secs" "z * day_secs < 2 ^ 62"
  shows "sint (unixSec (midnight z)) = z * day_secs" "time_day (midnight z) = z" "nanos (midnight z) = 0"
proof -
  show 1: "sint (unixSec (midnight z)) = z * day_secs"
    using assms unfolding midnight_def gotime.sel by (intro sint_word_of_int_small) simp_all
  then show "time_day (midnight z) = z" by (simp add: time_day_def day_secs_def)
qed (simp add: midnight_def)

text \<open>The start of a day near now is after now exactly when the day is a later one.\<close>

lemma midnight_after_now:
  assumes "\<bar>sint (unixSec now)\<bar> < 2 ^ 61" "y \<le> time_day now + 7" "time_day now - 7 \<le> y"
  shows "time_After (midnight y) now \<longleftrightarrow> time_day now < y"
proof -
  have sec: "time_day now * 86400 \<le> sint (unixSec now)" "sint (unixSec now) < time_day now * 86400 + 86400"
    by (simp_all add: time_day_def day_secs_def)
  have dlow: "- (2 ^ 61) - 86400 < time_day now * 86400" "time_day now * 86400 < 2 ^ 61" using sec assms(1) by linarith+
  note key = midnight_key [unfolded day_secs_def]
  have b: "- (2 ^ 62) \<le> y * 86400" "y * 86400 < 2 ^ 62" using assms(2,3) dlow by simp_all
  have "time_in_range (midnight y)" "time_in_range now"
    using key(1) [OF b] b assms(1) by (simp_all add: time_in_range_def)
  then have "midnight y \<le> now \<longleftrightarrow> y * 86400 \<le> sint (unixSec now)"
    by (simp add: time_le_in_range key(1) [OF b] key(3) [OF b]) linarith
  also have "\<dots> \<longleftrightarrow> y \<le> time_day now" using sec by linarith
  finally show ?thesis by (simp add: time_After_def flip: not_le)
qed

text \<open>\<open>getLastWednesday\<close> is the last start of a Wednesday that is not in the future: midnight on a Wednesday,
  at most now, and less than seven days ago.\<close>

theorem getLastWednesday_correct:
  assumes "time_sane now" "\<bar>sint (unixSec now)\<bar> < 2 ^ 61"
  shows "time_Weekday (getLastWednesday now) = 3 \<and> time_day_sec (getLastWednesday now) = 0 \<and> nanos (getLastWednesday now) = 0 \<and>
    getLastWednesday now \<le> now \<and> time_ns now - time_ns (getLastWednesday now) < 7 * day_secs * 10 ^ 9"
proof -
  define d where "d = time_day now"
  define w where "w = time_Weekday now"
  define z where "z = (if w < 3 then d - (w - 3) - 7 else d - (w - 3))"
  have w: "w = (d + 4) mod 7" by (simp add: w_def time_Weekday_def d_def)
  then have mod7: "0 \<le> w" "w < 7" by simp_all
  have sec: "d * 86400 \<le> sint (unixSec now)" "sint (unixSec now) < d * 86400 + 86400"
    by (simp_all add: d_def time_day_def day_secs_def)
  have n: "nanos now < 1000000000" using assms(1) by (simp add: time_sane_def)
  have zd: "z \<le> d" "d - z < 7" using mod7 by (auto simp: z_def)
  have dlow: "- (2 ^ 61) - 86400 < d * 86400" "d * 86400 < 2 ^ 61" using sec assms(2) by linarith+
  note key = midnight_key [unfolded day_secs_def]
  note target = midnight_after_now [OF assms(2), folded d_def]
  have "time_After (midnight (d - (w - 3))) now \<longleftrightarrow> d < d - (w - 3)" using mod7 by (intro target) linarith+
  also have "\<dots> \<longleftrightarrow> w < 3" by linarith
  finally have last: "getLastWednesday now = midnight z"
    by (simp only: getLastWednesday_def w_def [symmetric] d_def [symmetric] Let_def z_def if_distrib [of midnight])
  have b: "- (2 ^ 62) \<le> z * 86400" "z * 86400 < 2 ^ 62" using zd dlow by simp_all
  define k where "k = (d + 4) div 7"
  have "d + 4 = 7 * k + w" by (simp add: k_def w)
  then have "z + 4 = 3 + 7 * (if w < 3 then k - 1 else k)" by (simp add: z_def)
  then have "(z + 4) mod 7 = 3 mod 7" by (simp only: mod_mult_self2)
  then have "time_Weekday (midnight z) = 3" by (simp add: time_Weekday_def key(2) [OF b])
  moreover have "midnight z \<le> now" using target [of z] zd by (simp add: time_After_def not_less)
  moreover have "time_day_sec (midnight z) = 0" by (simp add: time_day_sec_def key(1) [OF b] day_secs_def)
  moreover have "time_ns now - time_ns (midnight z) < 7 * day_secs * 10 ^ 9"
    using zd sec n by (simp add: time_ns_def key(1) [OF b] key(3) [OF b] day_secs_def)
  ultimately show ?thesis by (simp add: last key(3) [OF b])
qed

theorem getLastWednesday_correct_witness:
  "getLastWednesday (GoTime 1704844799 5) \<le> GoTime 1704844799 5 \<and> time_Weekday (getLastWednesday (GoTime 1704844799 5)) = 3"
  using getLastWednesday_correct [of "GoTime 1704844799 5"] by (simp add: time_sane_def)

section \<open>Health\<close>

lemma two_documents:
  "RespondOK (RespondErrorJSON fresh_response c d) e = \<lparr>rs_code = Some c, rs_docs = [d, e]\<rparr>"
  "RespondOK fresh_response e = \<lparr>rs_code = Some 200, rs_docs = [e]\<rparr>"
  by (simp_all add: RespondOK_def RespondErrorJSON_def write_doc_def WriteHeader_def fresh_response_def Let_def)

lemma slots_behind:
  fixes cur lat :: u64
  assumes "uint cur < 2 ^ 63" "uint lat < 2 ^ 63"
  shows "50 < cur - lat \<longleftrightarrow> \<not> (lat \<le> cur \<and> uint cur - uint lat \<le> 50)"
proof (cases "uint lat \<le> uint cur")
  case True
  then show ?thesis by (simp add: word_less_def word_le_def uint_sub_if' not_le)
next
  case False
  have "0 \<le> uint cur" by simp
  moreover have "uint lat < 9223372036854775808" using assms(2) by simp
  ultimately have "50 < uint cur - uint lat + 18446744073709551616" by linarith
  with False show ?thesis by (simp add: word_less_def word_le_def uint_sub_if')
qed

text \<open>The health check is healthy exactly when the latest payload is at most 50 slots behind and not ahead of
  the clock; a payload ahead of the clock wraps around and is unhealthy.  An unhealthy answer has status 500 and
  a body of two documents, the second one written because the branch does not return.\<close>

theorem handleHealthCheck_answers:
  assumes "uint (TimeToSlot (se_genesis env) now) < 2 ^ 63" "uint (srv_latestSlot srv) < 2 ^ 63"
  defines "cur \<equiv> TimeToSlot (se_genesis env) now" and "lat \<equiv> srv_latestSlot srv"
  shows "handleHealthCheck env now srv fresh_response =
    (if lat \<le> cur \<and> uint cur - uint lat \<le> 50
     then \<lparr>rs_code = Some 200, rs_docs = [HealthDoc \<lparr>hr_IsHealthy = True, hr_CurrentSlot = cur,
             hr_LatestUpdateSlot = lat, hr_SlotsSinceUpdate = cur - lat, hr_Message = []\<rparr>]\<rparr>
     else let d = HealthDoc \<lparr>hr_IsHealthy = False, hr_CurrentSlot = cur,
             hr_LatestUpdateSlot = lat, hr_SlotsSinceUpdate = cur - lat, hr_Message = ''No updates for too long''\<rparr>
          in \<lparr>rs_code = Some 500, rs_docs = [d, d]\<rparr>)"
  using slots_behind [OF assms(1,2)] unfolding cur_def lat_def handleHealthCheck_def Let_def
  by (simp add: two_documents)

theorem handleHealthCheck_answers_witness:
  "length (rs_docs (handleHealthCheck example_site (GoTime 1700000000 0)
     \<lparr>srv_opts = example_opts, srv_Started = True, srv_stats = Map.empty, srv_html = Map.empty, srv_latestSlot = 7764700,
      srv_markdownOverview = [], srv_markdownBuilderProfit = []\<rparr> fresh_response)) = 2"
proof -
  have cur: "TimeToSlot (se_genesis example_site) (GoTime 1700000000 0) = 7764664" by code_simp
  show ?thesis by (subst handleHealthCheck_answers) (simp_all add: cur Let_def word_le_def)
qed

section \<open>Recent payloads\<close>

lemma extra_loop_Cons:
  "extra_loop g (r # rows) =
     (extra_entry g (snd (extra_loop g rows)) r # fst (extra_loop g rows), tp_Slot r, SlotToTime g (tp_Slot r))"
  by (cases "extra_loop g rows") simp

lemma extra_loop_entries:
  assumes "i < length rows"
  shows "length (fst (extra_loop g rows)) = length rows"
    "er_Slot (fst (extra_loop g rows) ! i) = tp_Slot (rows ! i)"
    "er_ExtraData (fst (extra_loop g rows) ! i) = tp_ExtraData (rows ! i)"
    "Suc i < length rows \<Longrightarrow> 0 < tp_Slot (rows ! Suc i) \<Longrightarrow>
       er_PrevSlot (fst (extra_loop g rows) ! i) = tp_Slot (rows ! Suc i) \<and>
       er_MinSincePrevSlot (fst (extra_loop g rows) ! i) =
         dur_whole_minutes (dur_Abs (time_Sub (SlotToTime g (tp_Slot (rows ! i))) (SlotToTime g (tp_Slot (rows ! Suc i)))))"
proof -
  have prev: "snd (extra_loop g rows) = (case rows of [] \<Rightarrow> (0, zero_time) | r # _ \<Rightarrow> (tp_Slot r, SlotToTime g (tp_Slot r)))" for rows
    by (cases rows) (simp_all add: extra_loop_Cons del: extra_loop.simps(2))
  have len: "length (fst (extra_loop g rows)) = length rows" for rows
    by (induction rows) (simp_all add: extra_loop_Cons del: extra_loop.simps(2))
  then show "length (fst (extra_loop g rows)) = length rows" .
  have nth: "fst (extra_loop g rows) ! i = extra_entry g (snd (extra_loop g (drop (Suc i) rows))) (rows ! i)"
    using assms
  proof (induction rows arbitrary: i)
    case (Cons r rows)
    then show ?case by (cases i) (simp_all add: extra_loop_Cons del: extra_loop.simps(2))
  qed simp
  show "er_Slot (fst (extra_loop g rows) ! i) = tp_Slot (rows ! i)" "er_ExtraData (fst (extra_loop g rows) ! i) = tp_ExtraData (rows ! i)"
    by (simp_all add: nth extra_entry_def Let_def split: prod.splits)
  assume next_: "Suc i < length rows" "0 < tp_Slot (rows ! Suc i)"
  then obtain rest where "drop (Suc i) rows = rows ! Suc i # rest" by (metis Cons_nth_drop_Suc)
  then show "er_PrevSlot (fst (extra_loop g rows) ! i) = tp_Slot (rows ! Suc i) \<and>
       er_MinSincePrevSlot (fst (extra_loop g rows) ! i) =
         dur_whole_minutes (dur_Abs (time_Sub (SlotToTime g (tp_Slot (rows ! i))) (SlotToTime g (tp_Slot (rows ! Suc i)))))"
    using next_(2) by (simp add: nth prev extra_entry_def Let_def del: extra_loop.simps)
qed

text \<open>Between two slots the minutes are a fifth of the slots, rounded down.\<close>

lemma minutes_between_slots:
  assumes "slot_in_range g a" "slot_in_range g b" "b < a" "uint a - uint b < 2 ^ 29"
  shows "uint (dur_whole_minutes (dur_Abs (time_Sub (SlotToTime g a) (SlotToTime g b)))) = (uint a - uint b) div 5"
proof -
  let ?t = "SlotToTime g a" and ?u = "SlotToTime g b" and ?n = "uint a - uint b"
  note sec = sint_SlotToTime(1) [OF assms(1)] sint_SlotToTime(1) [OF assms(2)]
    and ns = sint_SlotToTime(2) [OF assms(1)] sint_SlotToTime(2) [OF assms(2)]
  have pos: "0 < ?n" using assms(3) by (simp add: word_less_def)
  have r: "0 \<le> sint g" "uint a * 12 + sint g < 2 ^ 62" "uint b * 12 + sint g < 2 ^ 62"
    using assms(1,2) by (auto simp: slot_in_range_def)
  have nonneg: "0 \<le> uint a * 12 + sint g" "0 \<le> uint b * 12 + sint g" using r(1) by (simp_all add: add_nonneg_nonneg)
  have sane: "time_sane ?t" "time_sane ?u"
    using r(2,3) order.strict_trans2 [OF _ nonneg(1), of "- (2 ^ 62)"] order.strict_trans2 [OF _ nonneg(2), of "- (2 ^ 62)"]
    by (simp_all add: time_sane_def sec ns)
  have diff: "time_ns ?t - time_ns ?u = ?n * 12000000000" by (simp add: time_ns_def sec ns algebra_simps)
  then have "\<bar>time_ns ?t - time_ns ?u\<bar> < 2 ^ 63" using pos assms(4) by simp
  then have d: "sint (time_Sub ?t ?u) = ?n * 12000000000" using time_Sub_ns [OF sane] diff by simp
  then have abs: "dur_Abs (time_Sub ?t ?u) = time_Sub ?t ?u" using pos by (simp add: dur_Abs_def)
  have "sint (i64_div (time_Sub ?t ?u) (60 * dur_Second)) = (?n * 12000000000) div 60000000000"
    using pos by (simp add: sint_i64_div d sdiv_pos)
  also have "\<dots> = ?n div 5" using div_mult_mult2 [of 12000000000 ?n 5] by simp
  finally have m: "sint (i64_div (time_Sub ?t ?u) (60 * dur_Second)) = ?n div 5" .
  have "0 \<le> ?n div 5" using pos by simp
  with m have "uint (i64_div (time_Sub ?t ?u) (60 * dur_Second)) = ?n div 5" by (metis sint_nonneg_uint)
  then show ?thesis by (simp add: dur_whole_minutes_def abs)
qed

text \<open>C38. The recent payloads of a builder: an answer of the database with no row makes the handler panic; any
  other is listed without its last row, and every listed payload names the payload before it, with a fifth of
  the slots between the two as minutes, rounded down.  So a query that asks for one row more than the limit and
  gets fewer drops the oldest payload.\<close>

theorem handleExtraDataPayloads_lists:
  assumes "(if limitArg = [] then Some 20 else strconv_Atoi limitArg) = Some limit"
    and "sq_RecentPayloads q (extra_aliases extra) (limit + 1) = Inr rows"
    and "\<forall>r \<in> set rows. 0 < tp_Slot r \<and> slot_in_range (se_genesis env) (tp_Slot r)"
    and "sorted_wrt (\<lambda>r s. tp_Slot s < tp_Slot r \<and> uint (tp_Slot r) - uint (tp_Slot s) < 2 ^ 29) rows"
  shows "if rows = [] then handleExtraDataPayloads env q extra limitArg fresh_response = None
    else \<exists>entries. handleExtraDataPayloads env q extra limitArg fresh_response = Some \<lparr>rs_code = Some 200, rs_docs = [ExtraDoc entries]\<rparr> \<and>
      length entries = length rows - 1 \<and>
      (\<forall>i < length entries. er_Slot (entries ! i) = tp_Slot (rows ! i) \<and> er_ExtraData (entries ! i) = tp_ExtraData (rows ! i) \<and>
         er_PrevSlot (entries ! i) = tp_Slot (rows ! Suc i) \<and>
         uint (er_MinSincePrevSlot (entries ! i)) = (uint (tp_Slot (rows ! i)) - uint (tp_Slot (rows ! Suc i))) div 5)"
proof (cases "rows = []")
  case False
  define es where "es = fst (extra_loop (se_genesis env) rows)"
  have len: "length es = length rows" using extra_loop_entries(1) [of 0 rows] False by (simp add: es_def)
  have each: "er_Slot (butlast es ! i) = tp_Slot (rows ! i) \<and> er_ExtraData (butlast es ! i) = tp_ExtraData (rows ! i) \<and>
         er_PrevSlot (butlast es ! i) = tp_Slot (rows ! Suc i) \<and>
         uint (er_MinSincePrevSlot (butlast es ! i)) = (uint (tp_Slot (rows ! i)) - uint (tp_Slot (rows ! Suc i))) div 5"
    if "i < length rows - 1" for i
  proof -
    have i: "i < length rows" "Suc i < length rows" using that by simp_all
    have "tp_Slot (rows ! Suc i) < tp_Slot (rows ! i)" "uint (tp_Slot (rows ! i)) - uint (tp_Slot (rows ! Suc i)) < 2 ^ 29"
      using assms(4) i by (simp_all add: sorted_wrt_iff_nth_less)
    moreover have "slot_in_range (se_genesis env) (tp_Slot (rows ! i))" "slot_in_range (se_genesis env) (tp_Slot (rows ! Suc i))"
        "0 < tp_Slot (rows ! Suc i)"
      using assms(3) i by simp_all
    ultimately show ?thesis
      using extra_loop_entries(2-4) [OF i(1), of "se_genesis env"] i that minutes_between_slots len
      by (simp add: es_def [symmetric] nth_butlast)
  qed
  have "handleExtraDataPayloads env q extra limitArg fresh_response = Some \<lparr>rs_code = Some 200, rs_docs = [ExtraDoc (butlast es)]\<rparr>"
    using assms(1,2) False by (simp add: handleExtraDataPayloads_def two_documents es_def del: split_paired_All)
  then show ?thesis
    using False each len by (intro iffD2 [OF if_not_P] exI [of _ "butlast es"]) auto
qed (use assms(1,2) in \<open>simp add: handleExtraDataPayloads_def\<close>)

theorem handleExtraDataPayloads_lists_witness:
  "\<exists>entry. handleExtraDataPayloads example_site (db_queries (\<lambda>_. Inr []) (\<lambda>_. 0)
       (empty_db\<lparr>payloads := [example_payload ''a'' 7000\<lparr>pd_ExtraData := ''x''\<rparr>, example_payload ''a'' 7012\<lparr>pd_ExtraData := ''x''\<rparr>]\<rparr>))
       ''x'' [] fresh_response = Some \<lparr>rs_code = Some 200, rs_docs = [ExtraDoc [entry]]\<rparr> \<and>
     er_Slot entry = 7012 \<and> er_PrevSlot entry = 7000 \<and> uint (er_MinSincePrevSlot entry) = 2"
proof -
  let ?db = "empty_db\<lparr>payloads := [example_payload ''a'' 7000\<lparr>pd_ExtraData := ''x''\<rparr>, example_payload ''a'' 7012\<lparr>pd_ExtraData := ''x''\<rparr>]\<rparr>"
  let ?q = "db_queries (\<lambda>_. Inr []) (\<lambda>_. 0) ?db"
  let ?r = "\<lambda>s. \<lparr>tp_Slot = s, tp_ExtraData = ''x'', tp_InsertedAt = pd_InsertedAt zero_payload, tp_BlockTimestamp = None\<rparr>"
  have rows: "sq_RecentPayloads ?q (extra_aliases ''x'') (20 + 1) = Inr [?r 7012, ?r 7000]"
    by (simp add: db_queries_def recent_payloads_def GetRecentPayloadsForExtraData_def extra_aliases_def sql_Select_def
        example_payload_def zero_payload_def order_desc_def)
  have slots: "\<forall>r \<in> set [?r 7012, ?r 7000]. 0 < tp_Slot r \<and> slot_in_range (se_genesis example_site) (tp_Slot r)"
    by (simp add: slot_in_range_def example_site_def GenesisDefault_def)
  obtain entries where "handleExtraDataPayloads example_site ?q ''x'' [] fresh_response = Some \<lparr>rs_code = Some 200, rs_docs = [ExtraDoc entries]\<rparr>"
      "length entries = 1" "er_Slot (entries ! 0) = 7012 \<and> er_PrevSlot (entries ! 0) = 7000 \<and> uint (er_MinSincePrevSlot (entries ! 0)) = 2"
    using handleExtraDataPayloads_lists [of "[]" 20 ?q "''x''", OF _ rows slots] by auto
  moreover from this obtain entry where "entries = [entry]" by (auto simp: length_Suc_conv)
  ultimately show ?thesis by auto
qed

end
