(* ===== verification/DailyStats.thy ===== *)
theory DailyStats
  imports WebProperties
begin

text \<open>
  The daily statistics end to end: the handler over the database, through the queries and the consolidation.
\<close>

section \<open>The queries\<close>

lemma GetTopBuilders_facts:
  assumes "row_order plan" "GetTopBuilders None injected plan db since until [] = Inr res"
  defines "rows \<equiv> checked_between (timeToSlot since) (timeToSlot until) db"
  shows "distinct (map tb_ExtraData res)" "tb_ExtraData ` set res = pd_ExtraData ` set rows"
    "sum_list (map tb_NumBlocks res) = of_nat (card ((\<lambda>r. (pd_Slot r, pd_ExtraData r)) ` set rows))"
proof -
  define x where "x = remdups (map (\<lambda>r. (pd_Slot r, pd_ExtraData r)) rows)"
  define entry :: "string \<times> (u64 \<times> string) list \<Rightarrow> TopBuilderEntry"
    where "entry = (\<lambda>(extra, g). \<lparr>tb_ExtraData = extra, tb_NumBlocks = of_nat (length g), tb_Percent = [], tb_Aliases = []\<rparr>)"
  have res: "res = order_desc plan tb_NumBlocks (map entry (group_by snd x))"
    using assms(2) by (simp add: GetTopBuilders_def sql_Select_def rows_def x_def entry_def)
  have perm: "mset res = mset (map entry (group_by snd x))" unfolding res by (rule mset_order_desc [OF assms(1)])
  have names: "map tb_ExtraData (map entry (group_by snd x)) = map fst (group_by snd x)"
    by (simp add: entry_def comp_def split_beta)
  have "mset (map tb_ExtraData res) = mset (map fst (group_by snd x))"
    unfolding names [symmetric] mset_map perm by (rule refl)
  from mset_eq_imp_distinct_iff [OF this] mset_eq_setD [OF this]
  show "distinct (map tb_ExtraData res)" "tb_ExtraData ` set res = pd_ExtraData ` set rows"
    by (simp_all add: distinct_groups) (simp add: group_by_def x_def image_image)
  have "sum_list (map tb_NumBlocks res) = sum_list (map tb_NumBlocks (map entry (group_by snd x)))"
    by (rule sum_list_map_perm [OF perm])
  also have "\<dots> = of_nat (sum_list (map (\<lambda>(k, g). length g) (group_by snd x)))"
  proof -
    have "sum_list (map tb_NumBlocks (map entry gs)) = of_nat (sum_list (map (\<lambda>(k, g). length g) gs))" for gs
      by (induction gs) (auto simp: entry_def)
    then show ?thesis .
  qed
  also have "\<dots> = of_nat (length x)" by (simp only: length_groups)
  finally show "sum_list (map tb_NumBlocks res) = of_nat (card ((\<lambda>r. (pd_Slot r, pd_ExtraData r)) ` set rows))"
    by (simp add: x_def length_remdups_card_conv)
qed

lemma prepareRelaysEntries_all:
  assumes "\<forall>r \<in> set relays. tr_NumPayloads r \<noteq> 0"
  shows "map tr_Relay (prepareRelaysEntries relays) = map tr_Relay relays"
    "map tr_NumPayloads (prepareRelaysEntries relays) = map tr_NumPayloads relays"
proof -
  have "filter (\<lambda>entry. tr_NumPayloads entry \<noteq> 0) relays = relays" using assms by (simp add: filter_id_conv)
  then show "map tr_Relay (prepareRelaysEntries relays) = map tr_Relay relays"
    "map tr_NumPayloads (prepareRelaysEntries relays) = map tr_NumPayloads relays"
    by (simp_all add: prepareRelaysEntries_def Let_def)
qed

lemma find_group_None_iff: "find_group gs s = None \<longleftrightarrow> (\<forall>g \<in> set gs. \<not> snd g s)"
  by (induction gs s rule: find_group.induct) auto

lemma find_group_None_perm:
  assumes "mset gs = mset BuilderGroups"
  shows "find_group gs s = None \<longleftrightarrow> find_group BuilderGroups s = None"
proof -
  have "set gs = set BuilderGroups" using assms by (rule mset_eq_setD)
  then show ?thesis by (simp only: find_group_None_iff)
qed

text \<open>The relays a page shows: a relay has a payload, so none is filtered out.\<close>

lemma shown_relays:
  assumes "GetTopRelays None (\<lambda>rows. rows) db since until = Inr relays" "length (payloads db) < 2 ^ 64"
  defines "rows \<equiv> checked_between (timeToSlot since) (timeToSlot until) db"
  shows "distinct (map tr_Relay (prepareRelaysEntries relays))" "tr_Relay ` set (prepareRelaysEntries relays) = pd_Relay ` set rows"
    "\<forall>(relay, n) \<in> set (map (\<lambda>r. (tr_Relay r, tr_NumPayloads r)) (prepareRelaysEntries relays)).
       unat n = length (filter (\<lambda>p. pd_Relay p = relay) rows)"
proof -
  have id: "row_order (\<lambda>rows. rows)" by (simp add: row_order_def)
  note facts = GetTopRelays_counts [OF id assms(1,2), folded rows_def]
  have "\<forall>r \<in> set relays. tr_NumPayloads r \<noteq> 0"
  proof
    fix r assume "r \<in> set relays"
    then have "tr_Relay r \<in> pd_Relay ` set rows" "unat (tr_NumPayloads r) = length (filter (\<lambda>p. pd_Relay p = tr_Relay r) rows)"
      using facts by auto
    then have "0 < unat (tr_NumPayloads r)" by (auto simp: filter_empty_conv)
    then show "tr_NumPayloads r \<noteq> 0" by auto
  qed
  note shown = prepareRelaysEntries_all [OF this]
  then have pairs: "map (\<lambda>r. (tr_Relay r, tr_NumPayloads r)) (prepareRelaysEntries relays) =
      map (\<lambda>r. (tr_Relay r, tr_NumPayloads r)) relays"
    by (simp add: list_eq_iff_nth_eq)
  show "distinct (map tr_Relay (prepareRelaysEntries relays))" "tr_Relay ` set (prepareRelaysEntries relays) = pd_Relay ` set rows"
    using facts shown(1) by (simp_all flip: set_map)
  show "\<forall>(relay, n) \<in> set (map (\<lambda>r. (tr_Relay r, tr_NumPayloads r)) (prepareRelaysEntries relays)).
       unat n = length (filter (\<lambda>p. pd_Relay p = relay) rows)"
    using facts by (simp add: pairs)
qed

text \<open>The builders of a page: when no row bears the name of a group that does not take it, all blocks are shown.\<close>

lemma shown_builders:
  assumes "GetTopBuilders None injected (\<lambda>rows. rows) db since until [] = Inr builders"
  defines "rows \<equiv> checked_between (timeToSlot since) (timeToSlot until) db"
  assumes groups: "\<And>e. mset (se_groups env e) = mset BuilderGroups"
    and plans: "row_order (se_childPlan env)" "row_order (se_plan env)"
    and no: "\<forall>r \<in> set rows. find_group BuilderGroups (pd_ExtraData r) = None \<longrightarrow> pd_ExtraData r \<notin> fst ` set BuilderGroups"
  shows "sum_list (map (\<lambda>d. tb_NumBlocks (td_Info d)) (site_builders env builders)) =
    of_nat (card ((\<lambda>r. (pd_Slot r, pd_ExtraData r)) ` set rows))"
proof -
  have id: "row_order (\<lambda>rows. rows)" by (simp add: row_order_def)
  note facts = GetTopBuilders_facts [OF id assms(1), folded rows_def]
  have "no_impostors (fst ` set BuilderGroups) tb_ExtraData (builder_group_of (se_groups env)) builders"
    unfolding no_impostors_def
  proof (intro conjI ballI impI)
    show "distinct (map tb_ExtraData builders)" by (rule facts(1))
    fix e assume "e \<in> set builders" "find_group (se_groups env e) (tb_ExtraData e) = None"
    moreover from this obtain r where "r \<in> set rows" "tb_ExtraData e = pd_ExtraData r" using facts(2) by blast
    ultimately show "tb_ExtraData e \<notin> fst ` set BuilderGroups"
      using no find_group_None_perm [OF groups] by metis
  qed
  then show ?thesis using consolidateBuilderEntries_keeps [OF groups plans] facts(3) by simp
qed

section \<open>The document of a day\<close>


definition example_day_db :: DatabaseService where
  "example_day_db = empty_db\<lparr>payloads :=
     [example_payload ''a'' 8103599\<lparr>pd_ValueCheckOk := Some True\<rparr>, example_payload ''b'' 8103599\<lparr>pd_ValueCheckOk := Some True\<rparr>]\<rparr>"


end
