(* ===== verification/MuxRouter.thy ===== *)
theory MuxRouter
  imports GoPath
begin

text \<open>
  The routes of the web servers and the router that finds the handler of a request.  The router is library code: it is a
  parameter, with what its documentation promises as a hypothesis; one router of that kind shows that the hypothesis can
  hold.
\<close>

section \<open>Routes\<close>

text \<open>A path template: a prefix, a fixed path, or a path around a variable with its name and its pattern.\<close>

datatype path_template = PathPrefix string | FixedPath string | VarPath string "string \<Rightarrow> bool" string string

record 'h route =
  rt_template :: path_template
  rt_methods :: "string list"
  rt_handler :: 'h

abbreviation HandleFunc :: "path_template \<Rightarrow> 'h \<Rightarrow> 'h route" where
  "HandleFunc template h \<equiv> \<lparr>rt_template = template, rt_methods = [], rt_handler = h\<rparr>"

abbreviation HandleGet :: "path_template \<Rightarrow> 'h \<Rightarrow> 'h route" where
  "HandleGet template h \<equiv> \<lparr>rt_template = template, rt_methods = [''GET''], rt_handler = h\<rparr>"

text \<open>The pattern of a variable that has none: the rest of one path segment.\<close>

definition path_segment :: "string \<Rightarrow> bool" where
  "path_segment s \<longleftrightarrow> s \<noteq> [] \<and> CHR ''/'' \<notin> set s"

section \<open>What the router promises\<close>

text \<open>The variables of a path that a template matches, and the methods a route accepts.\<close>

fun path_vars :: "path_template \<Rightarrow> string \<Rightarrow> (string \<rightharpoonup> string) option" where
  "path_vars (PathPrefix p) path = (if strings_HasPrefix path p then Some Map.empty else None)"
| "path_vars (FixedPath p) path = (if path = p then Some Map.empty else None)"
| "path_vars (VarPath name pattern before behind) path =
     (let v = take (length path - length before - length behind) (drop (length before) path)
      in if path = before @ v @ behind \<and> pattern v then Some [name \<mapsto> v] else None)"

definition accepts_method :: "'h route \<Rightarrow> string \<Rightarrow> bool" where
  "accepts_method r meth \<longleftrightarrow> rt_methods r = [] \<or> meth \<in> set (rt_methods r)"

datatype 'h routed = Routed 'h "string \<rightharpoonup> string" | MethodNotAllowed | NotFound

text \<open>What \<open>gorilla/mux\<close> promises, and \<open>go-chi\<close> for fixed paths: routes are tested in the order of their registration and the first one that matches wins; a path
  that only matches with other methods is answered with status 405, and one that matches no route with 404.\<close>

definition mux_documented :: "('h route list \<Rightarrow> string \<Rightarrow> string \<Rightarrow> 'h routed) \<Rightarrow> bool" where
  "mux_documented mux \<longleftrightarrow>
     (\<forall>before r behind meth path vars. (\<forall>q \<in> set before. path_vars (rt_template q) path = None) \<and>
        path_vars (rt_template r) path = Some vars \<and> accepts_method r meth \<longrightarrow>
        mux (before @ r # behind) meth path = Routed (rt_handler r) vars) \<and>
     (\<forall>routes meth path. (\<forall>q \<in> set routes. path_vars (rt_template q) path = None) \<longrightarrow> mux routes meth path = NotFound) \<and>
     (\<forall>routes meth path. (\<exists>q \<in> set routes. path_vars (rt_template q) path \<noteq> None) \<and>
        (\<forall>q \<in> set routes. path_vars (rt_template q) path \<noteq> None \<longrightarrow> \<not> accepts_method q meth) \<longrightarrow>
        mux routes meth path = MethodNotAllowed)"

section \<open>The first match\<close>

abbreviation matching :: "string \<Rightarrow> 'h route \<Rightarrow> bool" where
  "matching path r \<equiv> path_vars (rt_template r) path \<noteq> None"

lemma mux_first:
  assumes "mux_documented mux" "\<forall>r \<in> set routes. accepts_method r meth"
  shows "mux routes meth path = (case find (matching path) routes of None \<Rightarrow> NotFound
    | Some r \<Rightarrow> Routed (rt_handler r) (the (path_vars (rt_template r) path)))"
proof (cases "\<exists>r \<in> set routes. matching path r")
  case True
  then obtain before r behind where routes: "routes = before @ r # behind" "matching path r" "\<forall>q \<in> set before. \<not> matching path q"
    by (rule split_list_first_propE)
  then obtain vars where vars: "path_vars (rt_template r) path = Some vars" by blast
  have "find (matching path) routes = Some r" using routes by (induction before arbitrary: routes) auto
  moreover have "mux routes meth path = Routed (rt_handler r) vars"
    using assms routes vars by (simp add: mux_documented_def)
  ultimately show ?thesis using vars by simp
next
  case False
  then have "find (matching path) routes = None" by (auto simp: find_None_iff)
  with False assms(1) show ?thesis by (auto simp: mux_documented_def)
qed

lemma mux_routed:
  assumes "mux_documented mux" "\<forall>q \<in> set before. path_vars (rt_template q) path = None"
    and "path_vars (rt_template r) path = Some vars" "accepts_method r meth"
  shows "mux (before @ r # behind) meth path = Routed (rt_handler r) vars"
  using assms by (simp add: mux_documented_def)

lemma var_path_iff:
  "path_vars (VarPath name pattern before behind) path = Some vars \<longleftrightarrow>
   (\<exists>v. path = before @ v @ behind \<and> pattern v \<and> vars = [name \<mapsto> v])"
  by (auto simp: Let_def)

lemma var_path_none:
  "path_vars (VarPath name pattern before behind) path = None \<longleftrightarrow> (\<nexists>v. path = before @ v @ behind \<and> pattern v)"
  using var_path_iff [of name pattern before behind path] by (metis not_None_eq)

text \<open>A router of the documented kind.\<close>

definition first_match :: "'h route list \<Rightarrow> string \<Rightarrow> string \<Rightarrow> 'h routed" where
  "first_match routes meth path =
     (case filter (matching path) routes of
        [] \<Rightarrow> NotFound
      | r # rs \<Rightarrow> (case find (\<lambda>q. accepts_method q meth) (r # rs) of
          None \<Rightarrow> MethodNotAllowed
        | Some q \<Rightarrow> Routed (rt_handler q) (the (path_vars (rt_template q) path))))"

lemma first_match_documented: "mux_documented first_match"
proof -
  have "first_match (before @ r # behind) meth path = Routed (rt_handler r) vars"
    if "\<forall>q \<in> set before. path_vars (rt_template q) path = None" "path_vars (rt_template r) path = Some vars" "accepts_method r meth"
    for before r behind meth path vars
    using that by (simp add: first_match_def filter_empty_conv [THEN iffD2])
  moreover have "first_match routes meth path = NotFound" if "\<forall>q \<in> set routes. path_vars (rt_template q) path = None" for routes meth path
    using that by (simp add: first_match_def filter_empty_conv [THEN iffD2])
  moreover have "first_match routes meth path = MethodNotAllowed"
    if "\<exists>q \<in> set routes. matching path q" "\<forall>q \<in> set routes. matching path q \<longrightarrow> \<not> accepts_method q meth" for routes meth path
  proof -
    have "filter (matching path) routes \<noteq> []" using that(1) by (auto simp: filter_empty_conv)
    then obtain r rs where matches: "filter (matching path) routes = r # rs" by (auto simp only: neq_Nil_conv)
    have "find (\<lambda>q. accepts_method q meth) (filter (matching path) routes) = None" using that(2) by (auto simp: find_None_iff)
    then show ?thesis by (simp only: first_match_def matches list.case option.case)
  qed
  ultimately show ?thesis unfolding mux_documented_def by blast
qed

end
