(* ===== verification/SiteRouter.thy ===== *)
theory SiteRouter
  imports Commands WebProperties MuxRouter
begin

text \<open>
  The start of the website (\<open>cmd/service/website.go\<close>, \<open>StartServer\<close>) and its router: which handler of
  \<open>services/website/webserver.go\<close> a request reaches, and what the pages of the running server show.  The router
  itself is that of \<open>MuxRouter\<close>.
\<close>

section \<open>The routes\<close>

datatype site_handler = StaticFiles | RootPage | OverviewMarkdown | OverviewJSON | BuilderProfitMarkdown | BuilderProfitJSON
  | CowstatsJSON | DailyStatsPage | DailyStatsJSON | ExtraDataPayloads | LivenessCheck | HealthCheck | DebugPprof

text \<open>The pattern of the variable: \<open>[0-9]{4}-[0-9]{1,2}-[0-9]{1,2}\<close>.\<close>

definition day_pattern :: "string \<Rightarrow> bool" where
  "day_pattern s =
     (let y = takeWhile is_digit s; r = dropWhile is_digit s;
          m = takeWhile is_digit (drop 1 r); r' = dropWhile is_digit (drop 1 r); d = drop 1 r'
      in length y = 4 \<and> take 1 r = ''-'' \<and> length m \<in> {1, 2} \<and> take 1 r' = ''-'' \<and> length d \<in> {1, 2} \<and> all_digits d)"

abbreviation DayPath :: "string \<Rightarrow> string \<Rightarrow> path_template" where
  "DayPath before behind \<equiv> VarPath ''day'' day_pattern before behind"

definition getRouter :: "WebserverOpts \<Rightarrow> site_handler route list" where
  "getRouter opts =
     [HandleFunc (PathPrefix ''/static/'') StaticFiles,
      HandleGet (FixedPath ''/'') RootPage,
      HandleGet (FixedPath ''/overview'') RootPage,
      HandleGet (FixedPath ''/builder-profit'') RootPage,
      HandleGet (FixedPath ''/overview/md'') OverviewMarkdown,
      HandleGet (FixedPath ''/overview/json'') OverviewJSON,
      HandleGet (FixedPath ''/builder-profit/md'') BuilderProfitMarkdown,
      HandleGet (FixedPath ''/builder-profit/json'') BuilderProfitJSON,
      HandleGet (FixedPath ''/stats/cowstats'') CowstatsJSON,
      HandleGet (DayPath ''/stats/day/'' []) DailyStatsPage,
      HandleGet (DayPath ''/stats/day/'' ''/json'') DailyStatsJSON,
      HandleGet (FixedPath ''/stats/_test/extradata-payloads'') ExtraDataPayloads,
      HandleFunc (FixedPath ''/livez'') LivenessCheck,
      HandleFunc (FixedPath ''/healthz'') HealthCheck]
     @ (if wo_EnablePprof opts then [HandleFunc (PathPrefix ''/debug/pprof/'') DebugPprof] else [])"

section \<open>Serving a request\<close>

record site_request =
  sr_Method :: string
  sr_Path :: string
  sr_Query :: "string \<Rightarrow> string"

text \<open>The inputs of the handlers: the environment, the daily template with its parse error in development mode, the
  database and the clock; the file server and the profiler are library handlers.\<close>

record site_inputs =
  si_env :: site_env
  si_exec :: "HTMLDataDailyStats \<Rightarrow> string \<times> string option"
  si_parseErr :: "string option"
  si_queries :: site_queries
  si_now :: gotime
  si_library :: "site_handler \<Rightarrow> string \<Rightarrow> response option"

definition site_handle :: "site_inputs \<Rightarrow> Webserver \<Rightarrow> site_handler \<Rightarrow> (string \<rightharpoonup> string) \<Rightarrow> site_request \<Rightarrow> response option" where
  "site_handle inp srv h vars req =
     (let env = si_env inp; q = si_queries inp; now = si_now inp; w = fresh_response;
          day = (case vars ''day'' of None \<Rightarrow> [] | Some d \<Rightarrow> d)
      in case h of
           RootPage \<Rightarrow> Some (handleRoot env srv (sr_Query req ''t'') (sr_Path req) w)
         | OverviewMarkdown \<Rightarrow> Some (handleOverviewMarkdown srv w)
         | OverviewJSON \<Rightarrow> Some (handleOverviewJSON srv (sr_Query req ''t'') w)
         | BuilderProfitMarkdown \<Rightarrow> Some (handleBuilderProfitMarkdown srv w)
         | BuilderProfitJSON \<Rightarrow> Some (handleBuilderProfitJSON srv (sr_Query req ''t'') w)
         | CowstatsJSON \<Rightarrow> Some (handleCowstatsJSON env q now w)
         | DailyStatsPage \<Rightarrow> handleDailyStats env (si_exec inp) (si_parseErr inp) q now srv day w
         | DailyStatsJSON \<Rightarrow> Some (handleDailyStatsJSON env q now day w)
         | ExtraDataPayloads \<Rightarrow> handleExtraDataPayloads env q (sr_Query req ''extra_data'') (sr_Query req ''limit'') w
         | LivenessCheck \<Rightarrow> Some (handleLivenessCheck w)
         | HealthCheck \<Rightarrow> Some (handleHealthCheck env now srv w)
         | StaticFiles \<Rightarrow> si_library inp StaticFiles (drop (length ''/static/'') (sr_Path req))
         | DebugPprof \<Rightarrow> si_library inp DebugPprof (sr_Path req))"

definition site_serve ::
    "(site_handler route list \<Rightarrow> string \<Rightarrow> string \<Rightarrow> site_handler routed) \<Rightarrow> site_inputs \<Rightarrow> Webserver \<Rightarrow> site_request \<Rightarrow> response option" where
  "site_serve mux inp srv req =
     (case mux (getRouter (srv_opts srv)) (sr_Method req) (sr_Path req) of
        Routed h vars \<Rightarrow> site_handle inp srv h vars req
      | MethodNotAllowed \<Rightarrow> Some (WriteHeader 405 fresh_response)
      | NotFound \<Rightarrow> Some (write_doc (Bytes (''404 page not found'' @ [CHR 0x0A])) (WriteHeader 404 fresh_response)))"

section \<open>The command\<close>

text \<open>How a process of the website ends: before it has a server, or when \<open>StartServer\<close> returns, which it only does
  to end the process with \<open>log.Fatal\<close>.\<close>

datatype site_exit = NotStarted | Stopped Webserver bool "listen_error option"

definition websiteCmd ::
    "connection \<Rightarrow> string option \<Rightarrow> string option \<Rightarrow> (string \<Rightarrow> listen_error) \<Rightarrow> string \<Rightarrow> bool \<Rightarrow> site_exit" where
  "websiteCmd db dailyErr indexErr ListenAndServe websiteListenAddr websiteDev =
     (if db = ConnectFatal then NotStarted
      else (case NewWebserver dailyErr indexErr
             \<lparr>wo_ListenAddress = websiteListenAddr, wo_EnablePprof = False, wo_Dev = websiteDev, wo_Only24h = False\<rparr> of
              Inl err \<Rightarrow> NotStarted
            | Inr srv \<Rightarrow> (case StartServer ListenAndServe srv of (srv', loops, err) \<Rightarrow> Stopped srv' loops err)))"

section \<open>Days in paths\<close>

lemma day_pattern_parts:
  assumes "day_pattern s"
  obtains y m d where "s = y @ ''-'' @ m @ ''-'' @ d" "all_digits y" "all_digits m" "all_digits d"
    "length y = 4" "length m \<in> {1, 2}" "length d \<in> {1, 2}"
proof -
  define y r where "y = takeWhile is_digit s" and "r = dropWhile is_digit s"
  define m r' where "m = takeWhile is_digit (drop 1 r)" and "r' = dropWhile is_digit (drop 1 r)"
  have p: "length y = 4" "take 1 r = ''-''" "length m \<in> {1, 2}" "take 1 r' = ''-''" "length (drop 1 r') \<in> {1, 2}" "all_digits (drop 1 r')"
    using assms unfolding day_pattern_def Let_def y_def r_def m_def r'_def by blast+
  have "s = y @ r" "drop 1 r = m @ r'" by (simp_all add: y_def r_def m_def r'_def)
  moreover have "r = ''-'' @ drop 1 r" "r' = ''-'' @ drop 1 r'" using p(2,4) append_take_drop_id by metis+
  ultimately have "s = y @ ''-'' @ m @ ''-'' @ drop 1 r'" by metis
  moreover have "all_digits y" "all_digits m" by (auto simp: y_def m_def all_digits_def dest: set_takeWhileD)
  ultimately show thesis using that p by blast
qed

text \<open>The pattern and the layout of the handlers differ: a day is read exactly when month and day have two digits and
  the day exists.\<close>

lemma parse_day_pattern:
  assumes "day_pattern day"
  shows "parse_DateOnly day \<noteq> None \<longleftrightarrow> length day = 10 \<and>
    valid_civil (int (digits_val (take 4 day)), int (digits_val (take 2 (drop 5 day))), int (digits_val (take 2 (drop 8 day))))"
proof -
  obtain y m d where day: "day = y @ ''-'' @ m @ ''-'' @ d" "all_digits y" "all_digits m" "all_digits d"
      "length y = 4" "length m \<in> {1, 2}" "length d \<in> {1, 2}"
    using assms by (rule day_pattern_parts)
  show ?thesis
  proof (cases "length day = 10")
    case True
    then have two: "length m = 2" "length d = 2" using day by auto
    then have "take 4 day = y" "take 2 (drop 5 day) = m" "take 2 (drop 8 day) = d" "day ! 4 = CHR ''-''" "day ! 7 = CHR ''-''"
      using day by (simp_all add: nth_append)
    then show ?thesis using True day by (auto simp: parse_DateOnly_def Let_def all_digits_def)
  qed (simp add: parse_DateOnly_def Let_def)
qed

lemma day_pattern_not_slash: "day_pattern s \<Longrightarrow> CHR ''/'' \<notin> set s"
  by (erule day_pattern_parts) (auto simp: all_digits_def is_digit_def)

lemma day_pattern_nonempty: "day_pattern s \<Longrightarrow> s \<noteq> []"
  by (auto simp: day_pattern_def Let_def)

section \<open>Which handler a path reaches\<close>

definition fixed_pages :: "(string \<times> site_handler) list" where
  "fixed_pages =
     [(''/'', RootPage), (''/overview'', RootPage), (''/builder-profit'', RootPage), (''/overview/md'', OverviewMarkdown),
      (''/overview/json'', OverviewJSON), (''/builder-profit/md'', BuilderProfitMarkdown),
      (''/builder-profit/json'', BuilderProfitJSON), (''/stats/cowstats'', CowstatsJSON),
      (''/stats/_test/extradata-payloads'', ExtraDataPayloads), (''/livez'', LivenessCheck), (''/healthz'', HealthCheck)]"

lemma router_accepts_get: "r \<in> set (getRouter opts) \<Longrightarrow> accepts_method r ''GET''"
  by (auto simp: getRouter_def accepts_method_def split: if_splits)

text \<open>What a reader of the route table expects: the handler and the variables of a path.\<close>

inductive served :: "WebserverOpts \<Rightarrow> string \<Rightarrow> site_handler \<Rightarrow> (string \<rightharpoonup> string) \<Rightarrow> bool" for opts where
  static: "served opts (''/static/'' @ file) StaticFiles Map.empty"
| page: "(path, h) \<in> set fixed_pages \<Longrightarrow> served opts path h Map.empty"
| day: "day_pattern day \<Longrightarrow> served opts (''/stats/day/'' @ day) DailyStatsPage [''day'' \<mapsto> day]"
| day_json: "day_pattern day \<Longrightarrow> served opts (''/stats/day/'' @ day @ ''/json'') DailyStatsJSON [''day'' \<mapsto> day]"
| pprof: "wo_EnablePprof opts \<Longrightarrow> served opts (''/debug/pprof/'' @ rest) DebugPprof Map.empty"

inductive_simps served_iff: "served opts path h vars"

lemma fixed_pages_apart:
  assumes "(path, h) \<in> set fixed_pages"
  shows "path \<noteq> ''/static/'' @ file" "path \<noteq> ''/stats/day/'' @ day" "path \<noteq> ''/debug/pprof/'' @ rest"
  using assms by (auto simp: fixed_pages_def)

lemma day_pattern_json: "\<not> day_pattern (d @ ''/json'')"
  using day_pattern_not_slash [of "d @ ''/json''"] by auto

text \<open>No path has two handlers, so the order of the registrations does not matter.\<close>

lemma served_unique:
  assumes "served opts path h vars" "served opts path h' vars'"
  shows "h = h' \<and> vars = vars'"
proof -
  have "distinct (map fst fixed_pages)" by (simp add: fixed_pages_def)
  then have "h = h'" if "(path, h) \<in> set fixed_pages" "(path, h') \<in> set fixed_pages"
    using that by (metis eq_key_imp_eq_value)
  then show ?thesis
    using assms by (elim served.cases) (use day_pattern_json in \<open>auto dest: fixed_pages_apart\<close>)
qed

lemma router_templates:
  assumes "r \<in> set (getRouter opts)"
  shows "case rt_template r of
      PathPrefix p \<Rightarrow> (p = ''/static/'' \<and> rt_handler r = StaticFiles) \<or> (p = ''/debug/pprof/'' \<and> rt_handler r = DebugPprof \<and> wo_EnablePprof opts)
    | FixedPath p \<Rightarrow> (p, rt_handler r) \<in> set fixed_pages
    | VarPath name pattern before behind \<Rightarrow> name = ''day'' \<and> pattern = day_pattern \<and> before = ''/stats/day/'' \<and>
        (behind = [] \<and> rt_handler r = DailyStatsPage \<or> behind = ''/json'' \<and> rt_handler r = DailyStatsJSON)"
proof -
  have "\<forall>r \<in> set (getRouter opts). case rt_template r of
      PathPrefix p \<Rightarrow> (p = ''/static/'' \<and> rt_handler r = StaticFiles) \<or> (p = ''/debug/pprof/'' \<and> rt_handler r = DebugPprof \<and> wo_EnablePprof opts)
    | FixedPath p \<Rightarrow> (p, rt_handler r) \<in> set fixed_pages
    | VarPath name pattern before behind \<Rightarrow> name = ''day'' \<and> pattern = day_pattern \<and> before = ''/stats/day/'' \<and>
        (behind = [] \<and> rt_handler r = DailyStatsPage \<or> behind = ''/json'' \<and> rt_handler r = DailyStatsJSON)"
    by (simp add: getRouter_def fixed_pages_def)
  with assms show ?thesis by blast
qed

lemma served_if_matches:
  assumes "r \<in> set (getRouter opts)" "path_vars (rt_template r) path = Some vars"
  shows "served opts path (rt_handler r) vars"
proof (cases "rt_template r")
  case (PathPrefix p)
  then show ?thesis using router_templates [OF assms(1)] assms(2)
    by (auto simp: strings_HasPrefix_iff simp del: append_Cons split: if_splits intro: served.intros)
next
  case (FixedPath p)
  then show ?thesis using router_templates [OF assms(1)] assms(2) by (auto split: if_splits intro: served.page)
next
  case (VarPath name pattern before behind)
  then show ?thesis using router_templates [OF assms(1)] assms(2)
    by (auto simp: var_path_iff simp del: append_Cons path_vars.simps dest: served.day served.day_json)
qed

lemma route_if_served:
  assumes "served opts path h vars"
  shows "\<exists>r \<in> set (getRouter opts). matching path r"
  using assms
proof cases
  case page
  then show ?thesis by (auto simp: fixed_pages_def getRouter_def)
qed (auto simp: getRouter_def strings_HasPrefix_def var_path_none simp del: path_vars.simps(3))

lemma router_result:
  assumes "mux_documented mux"
  shows "case mux (getRouter opts) ''GET'' path of
      Routed h vars \<Rightarrow> served opts path h vars
    | NotFound \<Rightarrow> (\<nexists>h vars. served opts path h vars)
    | MethodNotAllowed \<Rightarrow> False"
proof (cases "find (matching path) (getRouter opts)")
  case None
  then have "\<nexists>h vars. served opts path h vars" using route_if_served by (force simp: find_None_iff)
  with None mux_first [OF assms] router_accepts_get show ?thesis by simp
next
  case (Some r)
  then obtain vars where r: "r \<in> set (getRouter opts)" "path_vars (rt_template r) path = Some vars"
    by (auto simp: find_Some_iff)
  have "served opts path (rt_handler r) vars" by (rule served_if_matches [OF r])
  with Some r mux_first [OF assms] router_accepts_get show ?thesis by simp
qed

lemma router_get: "mux_documented mux \<Longrightarrow> served opts path h vars \<Longrightarrow> mux (getRouter opts) ''GET'' path = Routed h vars"
  using router_result [of mux opts path] served_unique by (cases "mux (getRouter opts) ''GET'' path") auto

text \<open>The handler and the variables that a \<open>GET\<close> of a path reaches are those of the route table, whatever order
  the routes were registered in, and every other path is answered with status 404.\<close>

theorem getRouter_serves:
  assumes "mux_documented mux"
  shows "(mux (getRouter opts) ''GET'' path = Routed h vars \<longleftrightarrow> served opts path h vars) \<and>
    (mux (getRouter opts) ''GET'' path = NotFound \<longleftrightarrow> (\<nexists>h vars. served opts path h vars))"
proof -
  note result = router_result [OF assms, of opts path]
  have "served opts path h vars" if "mux (getRouter opts) ''GET'' path = Routed h vars" using result that by simp
  moreover have "\<nexists>h vars. served opts path h vars" if "mux (getRouter opts) ''GET'' path = NotFound" using result that by simp
  moreover have "\<exists>h vars. served opts path h vars" if "mux (getRouter opts) ''GET'' path \<noteq> NotFound"
    using result that by (cases "mux (getRouter opts) ''GET'' path") auto
  ultimately show ?thesis using router_get [OF assms] by metis
qed

theorem getRouter_serves_witness:
  "first_match (getRouter example_opts) ''GET'' ''/stats/day/2024-1-5/json'' = Routed DailyStatsJSON [''day'' \<mapsto> ''2024-1-5''] \<and>
   first_match (getRouter example_opts) ''GET'' ''/healthz'' = Routed HealthCheck Map.empty"
proof -
  have "day_pattern ''2024-1-5''" by code_simp
  then have "served example_opts (''/stats/day/'' @ ''2024-1-5'' @ ''/json'') DailyStatsJSON [''day'' \<mapsto> ''2024-1-5'']"
    by (rule served.day_json)
  moreover have "served example_opts ''/healthz'' HealthCheck Map.empty" by (rule served.page) (simp add: fixed_pages_def)
  ultimately show ?thesis
    using getRouter_serves [OF first_match_documented, of example_opts "''/stats/day/2024-1-5/json''" DailyStatsJSON "[''day'' \<mapsto> ''2024-1-5'']"]
      getRouter_serves [OF first_match_documented, of example_opts "''/healthz''" HealthCheck Map.empty] by simp
qed

section \<open>The pages of the running server\<close>

text \<open>The data of a page: that of the overview with the title and the view of the profits.\<close>

definition view_data :: "site_env \<Rightarrow> Webserver \<Rightarrow> Stats \<Rightarrow> string \<Rightarrow> HTMLData" where
  "view_data env srv stats view =
     (if view = ''builder-profit'' then (page_data env srv stats)\<lparr>hd_Title := ''MEV-Boost Builder Profitability'', hd_View := view\<rparr>
      else page_data env srv stats)"

text \<open>Every stored page was rendered from the stored statistics of its time span, with the latest slot of the server
  at that moment.\<close>

definition pages_inv :: "site_env \<Rightarrow> Webserver \<Rightarrow> bool" where
  "pages_inv env srv \<longleftrightarrow> (\<forall>t stats. srv_stats srv t = Some stats \<longrightarrow>
     (\<exists>srv0. \<forall>view \<in> served_views. \<exists>bytes.
        srv_html srv (htmlKey t view) = Some bytes \<and> se_render env (view_data env srv0 stats view) = Inr bytes))"

lemma renderRootHTML_views:
  assumes "renderRootHTML env srv stats = Inr (o1, p1)"
  shows "se_render env (view_data env srv stats ''overview'') = Inr o1"
    "se_render env (view_data env srv stats ''builder-profit'') = Inr p1"
  using assms by (auto simp: renderRootHTML_def view_data_def Let_def split: sum.splits)

lemma pages_inv_root:
  assumes "pages_inv env srv" "rootDataUpdateLoop env q now hours srv = Some (srv', slept)"
  shows "pages_inv env srv'"
proof (cases "srv' = srv")
  case False
  with assms(2) obtain stats o1 p1 where render: "renderRootHTML env srv stats = Inr (o1, p1)"
    and srv': "srv' = srv\<lparr>srv_stats := (srv_stats srv)(ws_TimeStr stats \<mapsto> stats),
       srv_html := (srv_html srv)(htmlKey (ws_TimeStr stats) ''overview'' \<mapsto> o1,
                                  htmlKey (ws_TimeStr stats) ''builder-profit'' \<mapsto> p1)\<rparr>"
    by (auto simp: rootDataUpdateLoop_def split: option.splits sum.splits)
  have views: "''overview'' \<in> served_views" "''builder-profit'' \<in> served_views" by (simp_all add: served_views_def)
  show ?thesis unfolding pages_inv_def
  proof (intro allI impI)
    fix t s assume s: "srv_stats srv' t = Some s"
    show "\<exists>srv0. \<forall>view \<in> served_views. \<exists>bytes.
        srv_html srv' (htmlKey t view) = Some bytes \<and> se_render env (view_data env srv0 s view) = Inr bytes"
    proof (cases "t = ws_TimeStr stats")
      case True
      with s have "s = stats" by (simp add: srv')
      with True renderRootHTML_views [OF render] show ?thesis
        by (intro exI [of _ srv]) (simp add: srv' served_views_def htmlKey_def)
    next
      case False
      then have "srv_html srv' (htmlKey t view) = srv_html srv (htmlKey t view)" if "view \<in> served_views" for view
        using that htmlKey_inject views by (simp add: srv')
      moreover have "srv_stats srv t = Some s" using s False by (simp add: srv')
      ultimately show ?thesis using assms(1) by (simp add: pages_inv_def)
    qed
  qed
qed (use assms(1) in simp)

lemma pages_inv_reachable:
  "site_reachable env skip opts srv \<Longrightarrow> pages_inv env srv \<and> wo_EnablePprof (srv_opts srv) = wo_EnablePprof opts"
proof (induction rule: site_reachable.induct)
  case (start srv0 ListenAndServe srv err)
  then show ?case by (auto simp: NewWebserver_def StartServer_def pages_inv_def split: if_splits)
next
  case (step srv srv')
  have "srv_opts srv' = srv_opts srv"
    using step.hyps(2) by cases
      (auto simp: latestSlotUpdateLoop_def rootDataUpdateLoop_def split: prod.splits option.splits sum.splits)
  moreover have "pages_inv env (latestSlotUpdateLoop q srv)" for q
    using step.IH by (auto simp: pages_inv_def latestSlotUpdateLoop_def split: prod.splits option.splits)
  ultimately show ?case using step.hyps(2) step.IH by (auto elim!: site_stepE intro: pages_inv_root)
qed

abbreviation get_request :: "string \<Rightarrow> (string \<Rightarrow> string) \<Rightarrow> site_request" where
  "get_request path query \<equiv> \<lparr>sr_Method = ''GET'', sr_Path = path, sr_Query = query\<rparr>"

definition page_views :: "(string \<times> string) list" where
  "page_views = [(''/'', ''overview''), (''/overview'', ''overview''), (''/builder-profit'', ''builder-profit'')]"

lemma page_views_root: "(path, view) \<in> set page_views \<Longrightarrow> (path, RootPage) \<in> set fixed_pages"
  by (auto simp: page_views_def fixed_pages_def)

lemma page_views_suffix:
  "(path, view) \<in> set page_views \<Longrightarrow> (if strings_HasSuffix path ''builder-profit'' then ''builder-profit'' else ''overview'') = view"
  by (auto simp: page_views_def strings_HasSuffix_def)

lemma page_views_served: "(path, view) \<in> set page_views \<Longrightarrow> view \<in> served_views"
  by (auto simp: page_views_def served_views_def)

text \<open>C17. Whatever its update loops did, the running server answers the paths of its pages with the view of the path
  for the requested time span: rendered from the statistics it holds for that span, and an error only when it
  holds none.\<close>

theorem website_shows_views:
  assumes "mux_documented mux" and reach: "site_reachable (si_env inp) skip opts srv" and "\<not> wo_Dev opts"
    and view: "(path, view) \<in> set page_views"
  shows "\<exists>w. site_serve mux inp srv (get_request path query) = Some w \<and>
    (case srv_stats srv (query_timespan (query ''t'')) of
       None \<Rightarrow> sent_code w = 500
     | Some stats \<Rightarrow> ws_TimeStr stats = query_timespan (query ''t'') \<and>
         (\<exists>srv0 bytes. se_render (si_env inp) (view_data (si_env inp) srv0 stats view) = Inr bytes \<and>
            w = write_bytes bytes fresh_response))"
proof -
  define t where "t = query_timespan (query ''t'')"
  define w where "w = handleRoot (si_env inp) srv (query ''t'') path fresh_response"
  have inv: "site_inv skip srv" "\<not> wo_Dev (srv_opts srv)" and pages: "pages_inv (si_env inp) srv"
    using site_inv_reachable [OF reach] pages_inv_reachable [OF reach] assms(3) by simp_all
  have "mux (getRouter (srv_opts srv)) ''GET'' path = Routed RootPage Map.empty"
    by (intro router_get assms(1) served.page page_views_root [OF view])
  then have "site_serve mux inp srv (get_request path query) = Some w"
    by (simp add: site_serve_def site_handle_def w_def Let_def)
  moreover have w: "w = (case srv_html srv (htmlKey t view) of
      None \<Rightarrow> RespondError fresh_response 500 (if t = ''24h'' \<and> view = ''overview'' then ''server starting, waiting for initial data...'' else ''no data for timespan'')
    | Some bytes \<Rightarrow> write_bytes bytes fresh_response)"
    using inv(2) page_views_suffix [OF view] by (simp add: w_def handleRoot_def t_def Let_def)
  moreover have "srv_html srv (htmlKey t view) = None \<longleftrightarrow> srv_stats srv t = None"
    using inv(1) page_views_served [OF view] by (simp add: site_inv_def)
  moreover have "ws_TimeStr stats = t" if "srv_stats srv t = Some stats" for stats
    using inv(1) that by (simp add: site_inv_def)
  moreover have "\<exists>srv0 bytes. srv_html srv (htmlKey t view) = Some bytes \<and>
      se_render (si_env inp) (view_data (si_env inp) srv0 stats view) = Inr bytes" if "srv_stats srv t = Some stats" for stats
    using pages [unfolded pages_inv_def] page_views_served [OF view] that by blast
  ultimately show ?thesis unfolding t_def [symmetric]
    by (cases "srv_stats srv t") (force simp: RespondError_code)+
qed

text \<open>C39. The router accepts days and months of one digit that the handlers refuse: both daily routes hand the day of
  the path to their handler, and answer with status 400 when it does not have ten characters or does not exist.\<close>

theorem daily_routes:
  assumes "mux_documented mux" "day_pattern day"
  shows "site_serve mux inp srv (get_request (''/stats/day/'' @ day @ ''/json'') query) =
      Some (handleDailyStatsJSON (si_env inp) (si_queries inp) (si_now inp) day fresh_response) \<and>
    site_serve mux inp srv (get_request (''/stats/day/'' @ day) query) =
      handleDailyStats (si_env inp) (si_exec inp) (si_parseErr inp) (si_queries inp) (si_now inp) srv day fresh_response \<and>
    (length day \<noteq> 10 \<or> \<not> valid_civil (int (digits_val (take 4 day)), int (digits_val (take 2 (drop 5 day))), int (digits_val (take 2 (drop 8 day)))) \<longrightarrow>
      site_serve mux inp srv (get_request (''/stats/day/'' @ day @ ''/json'') query) = Some (RespondError fresh_response 400 ''invalid date'') \<and>
      site_serve mux inp srv (get_request (''/stats/day/'' @ day) query) = Some (RespondError fresh_response 400 ''invalid date''))"
proof -
  have json: "site_serve mux inp srv (get_request (''/stats/day/'' @ day @ ''/json'') query) =
      Some (handleDailyStatsJSON (si_env inp) (si_queries inp) (si_now inp) day fresh_response)"
    using router_get [OF assms(1) served.day_json [OF assms(2)]] by (simp add: site_serve_def site_handle_def Let_def)
  have page: "site_serve mux inp srv (get_request (''/stats/day/'' @ day) query) =
      handleDailyStats (si_env inp) (si_exec inp) (si_parseErr inp) (si_queries inp) (si_now inp) srv day fresh_response"
    using router_get [OF assms(1) served.day [OF assms(2)]] by (simp add: site_serve_def site_handle_def Let_def)
  have "handleDailyStatsJSON (si_env inp) (si_queries inp) (si_now inp) day fresh_response = RespondError fresh_response 400 ''invalid date''"
    "handleDailyStats (si_env inp) (si_exec inp) (si_parseErr inp) (si_queries inp) (si_now inp) srv day fresh_response =
       Some (RespondError fresh_response 400 ''invalid date'')" if "parse_DateOnly day = None"
    using that by (simp_all add: handleDailyStatsJSON_def handleDailyStats_def)
  then show ?thesis using json page parse_day_pattern [OF assms(2)] by auto
qed

definition example_inputs :: site_inputs where
  "example_inputs =
     \<lparr>si_env = example_site, si_exec = (\<lambda>_. ([], None)), si_parseErr = None,
      si_queries = \<lparr>sq_TopRelays = \<lambda>_ _. Inr [], sq_TopBuilders = \<lambda>_ _ _. Inr [], sq_BuilderProfits = \<lambda>_ _. Inr [],
        sq_LatestDelivered = (zero_payload, None), sq_RecentPayloads = \<lambda>_ _. Inr []\<rparr>,
      si_now = GoTime 1700000000 0, si_library = \<lambda>_ _. None\<rparr>"

theorem website_shows_views_witness:
  "\<exists>srv. site_reachable example_site True example_opts srv \<and>
     site_serve first_match example_inputs srv (get_request ''/builder-profit'' (\<lambda>_. ''24h'')) =
       Some (write_bytes ''builder-profit'' fresh_response) \<and>
     map_option sent_code (site_serve first_match example_inputs srv (get_request ''/'' (\<lambda>_. ''7d''))) = Some 500"
proof -
  obtain srv stats where srv: "site_reachable example_site True example_opts srv" "srv_stats srv = [''24h'' \<mapsto> stats]"
    using example_running by blast
  have dev: "\<not> wo_Dev example_opts" by (simp add: example_opts_def)
  have reach: "site_reachable (si_env example_inputs) True example_opts srv" using srv(1) by (simp add: example_inputs_def)
  have views: "(''/builder-profit'', ''builder-profit'') \<in> set page_views" "(''/'', ''overview'') \<in> set page_views"
    by (simp_all add: page_views_def)
  have "se_render (si_env example_inputs) d = Inr (hd_View d)" for d by (simp add: example_inputs_def example_site_def)
  then show ?thesis
    using website_shows_views [OF first_match_documented reach dev views(1), of "\<lambda>_. ''24h''"]
      website_shows_views [OF first_match_documented reach dev views(2), of "\<lambda>_. ''7d''"] srv
    by (intro exI [of _ srv]) (auto simp: query_timespan_def view_data_def)
qed

theorem daily_routes_witness:
  "\<forall>srv. site_serve first_match example_inputs srv (get_request ''/stats/day/2024-1-5/json'' (\<lambda>_. [])) =
     Some (RespondError fresh_response 400 ''invalid date'')"
proof
  fix srv
  have "day_pattern ''2024-1-5''" by code_simp
  moreover have "length ''2024-1-5'' \<noteq> 10" by simp
  ultimately have "site_serve first_match example_inputs srv (get_request (''/stats/day/'' @ ''2024-1-5'' @ ''/json'') (\<lambda>_. [])) =
      Some (RespondError fresh_response 400 ''invalid date'')"
    using daily_routes [OF first_match_documented] by blast
  then show "site_serve first_match example_inputs srv (get_request ''/stats/day/2024-1-5/json'' (\<lambda>_. [])) =
      Some (RespondError fresh_response 400 ''invalid date'')" by simp
qed

end
