(* ===== verification/FloatText.thy ===== *)
theory FloatText
  imports GoFloat GoTime
begin

text \<open>
  The text of a \<open>big.Float\<close> read again as a decimal number: \<open>String()\<close> keeps ten significant digits, in one of four
  layouts, and whichever it chooses the text reads as the number it stands for.
\<close>

section \<open>Decimal numbers in text\<close>

text \<open>A sign, a mantissa and a decimal exponent.\<close>

definition decimal_parts :: "string \<Rightarrow> (bool \<times> nat \<times> int) option" where
  "decimal_parts s =
     (case scan_sign s of (neg, t) \<Rightarrow>
        let whole = takeWhile is_digit t;
            rest = dropWhile is_digit t;
            frac = (case rest of c # u \<Rightarrow> if c = CHR ''.'' then takeWhile is_digit u else [] | [] \<Rightarrow> []);
            tail = (case rest of c # u \<Rightarrow> if c = CHR ''.'' then dropWhile is_digit u else rest | [] \<Rightarrow> [])
        in if whole @ frac = [] then None
           else map_option (\<lambda>x. (neg, digits_val (whole @ frac), x - int (length frac))) (parse_exponent tail))"

lemma bf_SetString_parts:
  "bf_SetString prec s = map_option (\<lambda>(neg, m, e).
     if e < 0 then round_quot prec neg m (10 ^ nat (- e)) else round_quot prec neg (m * 10 ^ nat e) 1) (decimal_parts s)"
  by (auto simp: bf_SetString_def decimal_parts_def Let_def split: prod.splits option.splits)

lemma takeWhile_digits: "\<forall>c \<in> set a. is_digit c \<Longrightarrow> (b = [] \<or> \<not> is_digit (hd b)) \<Longrightarrow> takeWhile is_digit (a @ b) = a"
  by (induction a) (auto simp: takeWhile_eq_Nil_iff)

lemma dropWhile_digits: "\<forall>c \<in> set a. is_digit c \<Longrightarrow> (b = [] \<or> \<not> is_digit (hd b)) \<Longrightarrow> dropWhile is_digit (a @ b) = b"
  by (induction a) (auto simp: dropWhile_eq_self_iff)

lemma scan_sign_signed:
  assumes "is_digit (hd t)" "t \<noteq> []"
  shows "scan_sign ((if neg then ''-'' else []) @ t) = (neg, t)"
  using assms by (cases neg) (simp_all add: scan_sign_digits scan_sign_def [of "CHR ''-'' # _"])

text \<open>A text of the layouts that a number is printed in: digits, a fraction after a point, an exponent.\<close>

lemma decimal_parts_text:
  assumes "\<forall>c \<in> set whole. is_digit c" "\<forall>c \<in> set fr. is_digit c" "whole \<noteq> []"
    and "parse_exponent tail = Some x" "tail = [] \<or> hd tail = CHR ''e''"
  shows "decimal_parts ((if neg then ''-'' else []) @ whole @ (if fr = [] then [] else ''.'' @ fr) @ tail) =
    Some (neg, digits_val (whole @ fr), x - int (length fr))"
proof -
  let ?t = "whole @ (if fr = [] then [] else ''.'' @ fr) @ tail"
  have "\<not> is_digit (CHR ''e'')" by (simp add: is_digit_def)
  then have tail: "tail = [] \<or> \<not> is_digit (hd tail)" using assms(5) by auto
  have sign: "scan_sign ((if neg then ''-'' else []) @ ?t) = (neg, ?t)"
    using assms(1,3) by (intro scan_sign_signed) (cases whole; simp)+
  have whole: "takeWhile is_digit ?t = whole" "dropWhile is_digit ?t = (if fr = [] then [] else ''.'' @ fr) @ tail"
    using assms(1) tail by (intro takeWhile_digits dropWhile_digits; auto)+
  have fr: "takeWhile is_digit (fr @ tail) = fr" "dropWhile is_digit (fr @ tail) = tail"
    using assms(2) tail by (intro takeWhile_digits dropWhile_digits; auto)+
  have "decimal_parts ((if neg then ''-'' else []) @ ?t) =
      map_option (\<lambda>x. (neg, digits_val (whole @ fr), x - int (length fr))) (parse_exponent tail)"
  proof (cases "fr = []")
    case True
    note w = whole [unfolded True, simplified]
    have "tail = [] \<or> (\<exists>u. tail = CHR ''e'' # u)" using assms(5) by (cases tail) auto
    then show ?thesis using True w assms(3) unfolding decimal_parts_def sign by (auto simp: Let_def)
  next
    case False
    note w = whole [simplified False if_False]
    show ?thesis using False w fr assms(3) unfolding decimal_parts_def sign by (simp add: Let_def)
  qed
  then show ?thesis by (simp add: assms(4))
qed

lemma digits_val_append_digits: "digits_val (a @ b) = digits_val a * 10 ^ length b + digits_val b"
proof (induction b rule: rev_induct)
  case (snoc c b)
  have "digits_val (a @ b @ [c]) = 10 * digits_val (a @ b) + digit_val c"
    using digits_val_append [of "a @ b" c] by simp
  with snoc show ?case by (simp add: digits_val_append algebra_simps)
qed (simp add: digits_val_def)

section \<open>The decimal exponent\<close>

lemma nat_str_length_bounds: "m < 10 ^ length (nat_str m) \<and> (0 < m \<longrightarrow> 10 ^ (length (nat_str m) - 1) \<le> m)"
proof (induction m rule: nat_str.induct)
  case (1 m)
  show ?case
  proof (cases "m < 10")
    case True
    then show ?thesis by (simp add: nat_str.simps [of m])
  next
    case False
    define l where "l = length (nat_str (m div 10))"
    have "m div 10 < 10 ^ l" "10 ^ (l - 1) \<le> m div 10" using 1 False by (simp_all add: l_def)
    moreover have "0 < l" by (simp add: l_def)
    then have "(10::nat) ^ l = 10 * 10 ^ (l - 1)" by (cases l) simp_all
    moreover have "length (nat_str m) = Suc l" using False by (simp add: nat_str.simps [of m] l_def)
    ultimately show ?thesis using False by (simp add: less_eq_div_iff_mult_less_eq div_less_iff_less_mult)
  qed
qed

abbreviation bf_num :: "bigfloat \<Rightarrow> nat" where
  "bf_num x \<equiv> scale_num (bf_mant x) (- bf_exp x)"

abbreviation bf_den :: "bigfloat \<Rightarrow> nat" where
  "bf_den x \<equiv> scale_den 1 (- bf_exp x)"

lemma bf_val_quot: "\<bar>bf_val x\<bar> = real (bf_num x) / real (bf_den x)"
  using scale_quot [of 1 "bf_mant x" "- bf_exp x"]
  by (simp add: bf_val_def abs_mult power_int_minus divide_inverse)

lemma bf_num_pos: "bf_mant x \<noteq> 0 \<Longrightarrow> 0 < bf_num x"
  by (simp add: scale_num_def)

text \<open>The magnitude is between two neighbouring powers of ten.\<close>

lemma bf_dexp_bounds:
  assumes "bf_mant x \<noteq> 0"
  shows "10 powi (bf_dexp x - 1) \<le> \<bar>bf_val x\<bar>" "\<bar>bf_val x\<bar> < 10 powi bf_dexp x"
proof -
  let ?n = "bf_num x" and ?d = "bf_den x"
  have d: "0 < ?d" and n: "0 < ?n" using bf_num_pos [OF assms] by simp_all
  have "10 powi (bf_dexp x - 1) \<le> \<bar>bf_val x\<bar> \<and> \<bar>bf_val x\<bar> < 10 powi bf_dexp x"
  proof (cases "?d \<le> ?n")
    case True
    define q L where "q = ?n div ?d" and "L = length (nat_str q)"
    have q: "0 < q" using True d by (simp add: q_def div_greater_zero_iff)
    have L: "0 < L" by (simp add: L_def)
    have "q < 10 ^ L" "10 ^ (L - 1) \<le> q" using nat_str_length_bounds [of q] q by (simp_all add: L_def)
    then have "?n < 10 ^ L * ?d" "10 ^ (L - 1) * ?d \<le> ?n"
      using d by (simp_all add: q_def div_less_iff_less_mult less_eq_div_iff_mult_less_eq)
    then have "real ?n < real (10 ^ L * ?d)" "real (10 ^ (L - 1) * ?d) \<le> real ?n" by (simp_all only: of_nat_less_iff of_nat_le_iff)
    then have "\<bar>bf_val x\<bar> < 10 ^ L" "10 ^ (L - 1) \<le> \<bar>bf_val x\<bar>"
      using d by (simp_all add: bf_val_quot pos_divide_less_eq pos_le_divide_eq)
    moreover have "bf_dexp x = int L" using True by (simp add: bf_dexp_def q_def L_def)
    moreover have "int L - 1 = int (L - 1)" using L by simp
    ultimately show ?thesis by (simp only: power_int_of_nat)
  next
    case False
    define q L where "q = (?d - 1) div ?n" and "L = length (nat_str q)"
    have q: "0 < q" using False n by (simp add: q_def div_greater_zero_iff)
    have L: "0 < L" by (simp add: L_def)
    have "q < 10 ^ L" "10 ^ (L - 1) \<le> q" using nat_str_length_bounds [of q] q by (simp_all add: L_def)
    then have "?d - 1 < 10 ^ L * ?n" "10 ^ (L - 1) * ?n \<le> ?d - 1"
      using n by (simp_all add: q_def div_less_iff_less_mult less_eq_div_iff_mult_less_eq)
    then have "?d \<le> 10 ^ L * ?n" "10 ^ (L - 1) * ?n < ?d" using d by linarith+
    then have "real ?d \<le> real (10 ^ L * ?n)" "real (10 ^ (L - 1) * ?n) < real ?d" by (simp_all only: of_nat_less_iff of_nat_le_iff)
    then have "1 / 10 ^ L \<le> \<bar>bf_val x\<bar>" "\<bar>bf_val x\<bar> < 1 / 10 ^ (L - 1)"
      using d by (simp_all add: bf_val_quot field_simps)
    moreover have "bf_dexp x = 1 - int L" using False by (simp add: bf_dexp_def q_def L_def)
    then have "bf_dexp x = - int (L - 1)" "bf_dexp x - 1 = - int L" using L by simp_all
    ultimately show ?thesis by (simp only: power_int_minus power_int_of_nat inverse_eq_divide)
  qed
  then show "10 powi (bf_dexp x - 1) \<le> \<bar>bf_val x\<bar>" "\<bar>bf_val x\<bar> < 10 powi bf_dexp x" by blast+
qed

section \<open>The ten digits\<close>

text \<open>The digits before trailing zeros are removed.\<close>

definition rounded_10 :: "bigfloat \<Rightarrow> nat" where
  "rounded_10 x =
     (if bf_dexp x \<le> 10 then half_even (bf_num x * 10 ^ nat (10 - bf_dexp x)) (bf_den x)
      else half_even (bf_num x) (bf_den x * 10 ^ nat (bf_dexp x - 10)))"

lemma digits_10_rounded:
  "digits_10 x = (if rounded_10 x = 10 ^ 10 then (''1'', bf_dexp x + 1) else (strip_zeros (nat_str (rounded_10 x)), bf_dexp x))"
  by (simp add: digits_10_def rounded_10_def Let_def)

lemma rounded_10_error: "\<bar>real (rounded_10 x) - \<bar>bf_val x\<bar> * 10 powi (10 - bf_dexp x)\<bar> \<le> 1 / 2"
proof (cases "bf_dexp x \<le> 10")
  case True
  then have "(10::real) powi (10 - bf_dexp x) = 10 ^ nat (10 - bf_dexp x)" by (simp add: power_int_def)
  then show ?thesis
    using True half_even_error [of "bf_den x" "bf_num x * 10 ^ nat (10 - bf_dexp x)"] by (simp add: rounded_10_def bf_val_quot)
next
  case False
  then have "(10::real) powi (10 - bf_dexp x) = 1 / 10 ^ nat (bf_dexp x - 10)"
    by (simp add: power_int_def inverse_eq_divide power_one_over)
  then show ?thesis
    using False half_even_error [of "bf_den x * 10 ^ nat (bf_dexp x - 10)" "bf_num x"] by (simp add: rounded_10_def bf_val_quot)
qed

lemma rounded_10_range:
  assumes "bf_mant x \<noteq> 0"
  shows "10 ^ 9 \<le> rounded_10 x" "rounded_10 x \<le> 10 ^ 10"
proof -
  define v where "v = \<bar>bf_val x\<bar> * 10 powi (10 - bf_dexp x)"
  have pos: "(0::real) < 10 powi (10 - bf_dexp x)" by simp
  have "10 powi (bf_dexp x - 1) * 10 powi (10 - bf_dexp x) \<le> v"
    unfolding v_def using bf_dexp_bounds(1) [OF assms] pos by (intro mult_right_mono) simp_all
  moreover have "10 powi (bf_dexp x - 1) * 10 powi (10 - bf_dexp x) = (10::real) powi 9"
    by (simp flip: power_int_add)
  ultimately have low: "10 ^ 9 \<le> v" by simp
  have "v < 10 powi bf_dexp x * 10 powi (10 - bf_dexp x)"
    unfolding v_def using bf_dexp_bounds(2) [OF assms] pos by (rule mult_strict_right_mono)
  moreover have "10 powi bf_dexp x * 10 powi (10 - bf_dexp x) = (10::real) powi 10"
    by (simp flip: power_int_add)
  ultimately have high: "v < 10 ^ 10" by simp
  have "\<bar>real (rounded_10 x) - v\<bar> \<le> 1 / 2" using rounded_10_error [of x] by (simp only: v_def)
  with low high have "10 ^ 9 - 1 < real (rounded_10 x)" "real (rounded_10 x) < 10 ^ 10 + 1" by linarith+
  then have "real (10 ^ 9) < real (rounded_10 x + 1)" "real (rounded_10 x) < real (10 ^ 10 + 1)" by simp_all
  then have "10 ^ 9 < rounded_10 x + 1" "rounded_10 x < 10 ^ 10 + 1" by (simp_all only: of_nat_less_iff)
  then show "10 ^ 9 \<le> rounded_10 x" "rounded_10 x \<le> 10 ^ 10" by simp_all
qed

lemma strip_zeros_split: "\<exists>z. s = strip_zeros s @ replicate z (CHR ''0'')"
proof -
  have "rev s = takeWhile (\<lambda>c. c = CHR ''0'') (rev s) @ rev (strip_zeros s)" by (simp add: strip_zeros_def)
  moreover have "takeWhile (\<lambda>c. c = CHR ''0'') (rev s) = replicate (length (takeWhile (\<lambda>c. c = CHR ''0'') (rev s))) (CHR ''0'')"
    by (rule replicate_length_same [symmetric]) (auto dest: set_takeWhileD)
  ultimately have "s = rev (replicate (length (takeWhile (\<lambda>c. c = CHR ''0'') (rev s))) (CHR ''0'') @ rev (strip_zeros s))"
    by (metis rev_rev_ident)
  then show ?thesis by (auto simp: rev_replicate)
qed

lemma digits_val_zeros_end: "digits_val (s @ replicate z (CHR ''0'')) = digits_val s * 10 ^ z"
proof -
  have "digits_val (replicate z (CHR ''0'')) = 0" using digits_val_zeros [of z "[]"] by (simp add: digits_val_def)
  then show ?thesis by (simp add: digits_val_append_digits)
qed

lemma length_nat_str_eq: "10 ^ k \<le> m \<Longrightarrow> m < 10 ^ Suc k \<Longrightarrow> length (nat_str m) = Suc k"
proof -
  assume m: "10 ^ k \<le> m" "m < 10 ^ Suc k"
  have "m < 10 ^ length (nat_str m)" using nat_str_length_bounds by blast
  then have "(10::nat) ^ k < 10 ^ length (nat_str m)" using m(1) by (rule le_less_trans [rotated])
  then have "k < length (nat_str m)" by simp
  moreover have "length (nat_str m) \<le> Suc k" using m(2) by (rule length_nat_str_le) simp
  ultimately show ?thesis by simp
qed

lemma digits_10_value:
  assumes "bf_mant x \<noteq> 0" "digits_10 x = (mant, dexp)"
  shows "\<forall>c \<in> set mant. is_digit c" "mant \<noteq> []"
    "real (digits_val mant) * 10 powi (dexp - int (length mant)) = real (rounded_10 x) * 10 powi (bf_dexp x - 10)"
    "length mant \<le> 10" "dexp = bf_dexp x \<or> dexp = bf_dexp x + 1"
proof -
  define N where "N = rounded_10 x"
  have N: "10 ^ 9 \<le> N" "N \<le> 10 ^ 10" using rounded_10_range [OF assms(1)] by (simp_all add: N_def)
  have "(\<forall>c \<in> set mant. is_digit c) \<and> mant \<noteq> [] \<and>
      real (digits_val mant) * 10 powi (dexp - int (length mant)) = real N * 10 powi (bf_dexp x - 10) \<and>
      length mant \<le> 10 \<and> (dexp = bf_dexp x \<or> dexp = bf_dexp x + 1)"
  proof (cases "N = 10 ^ 10")
    case True
    then have "mant = ''1''" "dexp = bf_dexp x + 1" using assms(2) by (simp_all add: digits_10_rounded flip: N_def)
    moreover have "real N * 10 powi (bf_dexp x - 10) = 10 powi bf_dexp x"
      using True power_int_add [of "10::real" 10 "bf_dexp x - 10"] by simp
    ultimately show ?thesis by (simp add: is_digit_def digits_val_def digit_val_def)
  next
    case False
    then have m: "mant = strip_zeros (nat_str N)" "dexp = bf_dexp x" using assms(2) by (simp_all add: digits_10_rounded flip: N_def)
    obtain z where z: "nat_str N = mant @ replicate z (CHR ''0'')" using strip_zeros_split m(1) by metis
    have "length (nat_str N) = Suc 9" using N False by (intro length_nat_str_eq) simp_all
    then have len: "length mant + z = 10" unfolding z by simp
    have val: "N = digits_val mant * 10 ^ z" using digits_val_nat_str [of N] unfolding z digits_val_zeros_end by simp
    have "dexp - int (length mant) = bf_dexp x - 10 + int z" using len m(2) by simp
    then have "real (digits_val mant) * 10 powi (dexp - int (length mant)) = real N * 10 powi (bf_dexp x - 10)"
      by (simp add: val power_int_add)
    moreover have "mant \<noteq> []" using val N(1) by (auto simp: digits_val_def)
    moreover have "\<forall>c \<in> set mant. is_digit c" using nat_str_digits [of _ N] unfolding z by auto
    ultimately show ?thesis using len m(2) by simp
  qed
  then show "\<forall>c \<in> set mant. is_digit c" "mant \<noteq> []"
    "real (digits_val mant) * 10 powi (dexp - int (length mant)) = real (rounded_10 x) * 10 powi (bf_dexp x - 10)"
    "length mant \<le> 10" "dexp = bf_dexp x \<or> dexp = bf_dexp x + 1"
    by (simp_all add: N_def)
qed

section \<open>The four layouts\<close>

lemma parse_exp_str: "parse_exponent (CHR ''e'' # exp_str e) = Some e"
proof -
  let ?ds = "pad_left 2 (nat_str (nat \<bar>e\<bar>))"
  have zero: "is_digit (CHR ''0'')" by (simp add: is_digit_def)
  have digits: "\<forall>c \<in> set ?ds. is_digit c" "?ds \<noteq> []" using nat_str_digits zero by (auto simp: pad_left_def)
  have "scan_sign (exp_str e) = (e < 0, ?ds)" by (simp add: exp_str_def scan_sign_def)
  moreover have "digits_val ?ds = nat \<bar>e\<bar>" by (simp add: pad_left_def digits_val_zeros)
  ultimately show ?thesis using digits by (simp add: parse_exponent_def list_all_iff)
qed

lemma hd_tl_split: "xs \<noteq> [] \<Longrightarrow> take 1 xs @ tl xs = xs"
  by (cases xs) simp_all

lemma read_exponent:
  assumes "\<forall>c \<in> set mant. is_digit c" "mant \<noteq> []"
  shows "decimal_parts ((if neg then ''-'' else []) @ take 1 mant @ (if int (length mant) > 1 then ''.'' @ tl mant else []) @ ''e'' @ exp_str e) =
    Some (neg, digits_val mant, e + 1 - int (length mant))"
proof -
  have one: "(int (length mant) > 1) = (tl mant \<noteq> [])" by (cases mant; cases "tl mant") auto
  have "\<forall>c \<in> set (take 1 mant). is_digit c" "\<forall>c \<in> set (tl mant). is_digit c" "take 1 mant \<noteq> []" using assms by (cases mant; simp)+
  then have "decimal_parts ((if neg then ''-'' else []) @ take 1 mant @ (if tl mant = [] then [] else ''.'' @ tl mant) @ CHR ''e'' # exp_str e) =
      Some (neg, digits_val (take 1 mant @ tl mant), e - int (length (tl mant)))"
    by (rule decimal_parts_text) (simp_all add: parse_exp_str)
  moreover have "int (length (tl mant)) = int (length mant) - 1" using assms(2) by (cases mant) simp_all
  ultimately have "decimal_parts ((if neg then ''-'' else []) @ take 1 mant @ (if tl mant = [] then [] else ''.'' @ tl mant) @ ''e'' @ exp_str e) =
      Some (neg, digits_val mant, e + 1 - int (length mant))" using hd_tl_split [OF assms(2)] by simp
  then show ?thesis unfolding one by (cases "tl mant = []") simp_all
qed

lemma read_digits:
  assumes "\<forall>c \<in> set (whole @ fr). is_digit c" "whole \<noteq> []"
  shows "decimal_parts ((if neg then ''-'' else []) @ whole @ (if fr = [] then [] else ''.'' @ fr)) =
    Some (neg, digits_val (whole @ fr), - int (length fr))"
  using assms decimal_parts_text [of whole fr "[]" 0 neg] by (simp add: parse_exponent_def)

text \<open>\<open>String()\<close> reads as its ten digits, whichever layout it takes.\<close>

lemma bf_String_digits:
  assumes "bf_mant x \<noteq> 0" "digits_10 x = (mant, dexp)"
  shows "\<exists>m e. decimal_parts (bf_String x) = Some (bf_neg x, m, e) \<and>
    real m * 10 powi e = real (digits_val mant) * 10 powi (dexp - int (length mant)) \<and>
    (e = 0 \<or> e = dexp - int (length mant))"
proof -
  define len where "len = int (length mant)"
  define eprec where "eprec = (if 10 > len \<and> len \<ge> dexp then len else 10)"
  note mant = digits_10_value(1,2) [OF assms]
  have zero: "is_digit (CHR ''0'')" by (simp add: is_digit_def)
  let ?sign = "if bf_neg x then ''-'' else []"
  have str: "bf_String x = ?sign @
      (if dexp - 1 < - 4 \<or> dexp - 1 \<ge> eprec
       then take 1 mant @ (if len > 1 then ''.'' @ tl mant else []) @ ''e'' @ exp_str (dexp - 1)
       else if dexp \<le> 0 then ''0.'' @ replicate (nat (- dexp)) (CHR ''0'') @ mant
       else if len \<le> dexp then mant @ replicate (nat (dexp - len)) (CHR ''0'')
       else take (nat dexp) mant @ ''.'' @ drop (nat dexp) mant)"
    using assms by (simp add: bf_String_def len_def eprec_def Let_def)
  consider (exponent) "dexp - 1 < - 4 \<or> dexp - 1 \<ge> eprec"
    | (small) "\<not> (dexp - 1 < - 4 \<or> dexp - 1 \<ge> eprec)" "dexp \<le> 0"
    | (whole) "\<not> (dexp - 1 < - 4 \<or> dexp - 1 \<ge> eprec)" "0 < dexp" "len \<le> dexp"
    | (point) "\<not> (dexp - 1 < - 4 \<or> dexp - 1 \<ge> eprec)" "0 < dexp" "dexp < len" by linarith
  then show ?thesis
  proof cases
    case exponent
    then show ?thesis using read_exponent [OF mant, of "bf_neg x" "dexp - 1"] by (simp add: str len_def)
  next
    case small
    have "\<forall>c \<in> set (''0'' @ replicate (nat (- dexp)) (CHR ''0'') @ mant). is_digit c" using mant zero by auto
    from read_digits [OF this, of "bf_neg x"] small show ?thesis
      using mant(2) digits_val_zeros [of "Suc (nat (- dexp))" mant] by (simp add: str)
  next
    case whole
    have "(10::real) ^ nat (dexp - len) = 10 powi (dexp - len)" using whole(3) by (simp add: power_int_def)
    have "\<forall>c \<in> set ((mant @ replicate (nat (dexp - len)) (CHR ''0'')) @ []). is_digit c" using mant zero by auto
    from read_digits [OF this, of "bf_neg x"] show ?thesis
      using mant(2) whole \<open>10 ^ nat (dexp - len) = 10 powi (dexp - len)\<close> by (simp add: str digits_val_zeros_end len_def)
  next
    case point
    have "\<forall>c \<in> set (take (nat dexp) mant @ drop (nat dexp) mant). is_digit c" using mant by (simp only: append_take_drop_id)
    moreover have "take (nat dexp) mant \<noteq> []" "drop (nat dexp) mant \<noteq> []" using point mant(2) by (auto simp: len_def)
    moreover have "- int (length (drop (nat dexp) mant)) = dexp - len" using point by (simp add: len_def)
    ultimately show ?thesis
      using read_digits [of "take (nat dexp) mant" "drop (nat dexp) mant" "bf_neg x"] point by (simp add: str len_def)
  qed
qed

text \<open>The text is right to one part in two thousand million.\<close>

lemma bf_String_accurate:
  assumes "bf_mant x \<noteq> 0"
  shows "\<exists>m e. decimal_parts (bf_String x) = Some (bf_neg x, m, e) \<and>
    \<bar>real m * 10 powi e - \<bar>bf_val x\<bar>\<bar> \<le> \<bar>bf_val x\<bar> / (2 * 10 ^ 9) \<and> \<bar>e\<bar> \<le> \<bar>bf_dexp x\<bar> + 10"
proof -
  obtain mant dexp where digits: "digits_10 x = (mant, dexp)" by fastforce
  obtain m e where parts: "decimal_parts (bf_String x) = Some (bf_neg x, m, e)"
    and val: "real m * 10 powi e = real (rounded_10 x) * 10 powi (bf_dexp x - 10)" and e: "e = 0 \<or> e = dexp - int (length mant)"
    using bf_String_digits [OF assms digits] digits_10_value(3) [OF assms digits] by auto
  have "\<bar>e\<bar> \<le> \<bar>bf_dexp x\<bar> + 10"
    using e digits_10_value(2,4,5) [OF assms digits] by (cases mant) auto
  define u where "u = (10::real) powi (bf_dexp x - 10)"
  have u: "0 < u" "10 powi (10 - bf_dexp x) * u = 1" by (simp_all add: u_def flip: power_int_add)
  have "10 powi (bf_dexp x - 1) = 10 ^ 9 * u" using power_int_add [of "10::real" 9 "bf_dexp x - 10"] by (simp add: u_def)
  then have big: "10 ^ 9 * u \<le> \<bar>bf_val x\<bar>" using bf_dexp_bounds(1) [OF assms] by simp
  have "\<bar>real (rounded_10 x) - \<bar>bf_val x\<bar> * 10 powi (10 - bf_dexp x)\<bar> * u \<le> 1 / 2 * u"
    using rounded_10_error u(1) by (intro mult_right_mono) simp_all
  also have "\<bar>real (rounded_10 x) - \<bar>bf_val x\<bar> * 10 powi (10 - bf_dexp x)\<bar> * u = \<bar>real (rounded_10 x) * u - \<bar>bf_val x\<bar> * (10 powi (10 - bf_dexp x) * u)\<bar>"
    using u(1) by (simp add: abs_mult flip: left_diff_distrib mult.assoc)
  finally have "\<bar>real m * 10 powi e - \<bar>bf_val x\<bar>\<bar> \<le> u / 2" by (simp only: val u_def [symmetric] u(2) mult_1_right)
  with big have "\<bar>real m * 10 powi e - \<bar>bf_val x\<bar>\<bar> \<le> \<bar>bf_val x\<bar> / (2 * 10 ^ 9)" by simp
  with parts \<open>\<bar>e\<bar> \<le> \<bar>bf_dexp x\<bar> + 10\<close> show ?thesis by blast
qed

end
