(* ===== verification/Schema.thy ===== *)
theory Schema
  imports Database FloatText "HOL-Library.AList"
begin

text \<open>
  The schema of the database: the tables and indexes that the migrations of \<open>database/migrations\<close> create under the
  names of \<open>database/vars/tables.go\<close>, and what PostgreSQL makes of such statements.  The library that runs pending
  migrations is a parameter, with what it documents as a hypothesis.
\<close>

section \<open>Tables, columns and statements\<close>

datatype sql_type = BigInt | Int4 | TextType | Varchar nat | Numeric nat nat | Boolean | Timestamp

text \<open>A column; it is filled when a statement that does not name it leaves it a value other than \<open>NULL\<close>: a default,
  or the identity sequence.\<close>

record column =
  co_name :: string
  co_type :: sql_type
  co_NotNull :: bool
  co_filled :: bool

abbreviation not_null :: "string \<Rightarrow> sql_type \<Rightarrow> column" where
  "not_null n ty \<equiv> \<lparr>co_name = n, co_type = ty, co_NotNull = True, co_filled = False\<rparr>"

abbreviation nullable :: "string \<Rightarrow> sql_type \<Rightarrow> column" where
  "nullable n ty \<equiv> \<lparr>co_name = n, co_type = ty, co_NotNull = False, co_filled = False\<rparr>"

abbreviation filled :: "string \<Rightarrow> sql_type \<Rightarrow> column" where
  "filled n ty \<equiv> \<lparr>co_name = n, co_type = ty, co_NotNull = True, co_filled = True\<rparr>"

text \<open>The statements of the migrations.  The first two are written with \<open>IF NOT EXISTS\<close>: they are skipped when their name is taken; a table comes with its unique
  constraints, an index with whether it is unique, its name, its table and its columns.\<close>

datatype ddl =
    CREATE_TABLE string "column list" "string list list"
  | CREATE_INDEX bool string string "string list"
  | ADD_COLUMN string column

record schema =
  sc_tables :: "(string \<times> column list \<times> string list list) list"
  sc_indexes :: "(string \<times> string \<times> string list \<times> bool) list"

definition empty_schema :: schema where
  "empty_schema = \<lparr>sc_tables = [], sc_indexes = []\<rparr>"

text \<open>The server cuts names to 63 bytes, and gives tables and indexes names of one space.\<close>

definition ident :: "string \<Rightarrow> string" where
  "ident name = take 63 name"

definition relations :: "schema \<Rightarrow> string list" where
  "relations sc = map fst (sc_tables sc) @ map fst (sc_indexes sc)"

text \<open>\<open>None\<close> is an error of the server.  The names of the indexes that come with keys are left out.\<close>

fun exec_ddl :: "ddl \<Rightarrow> schema \<Rightarrow> schema option" where
  "exec_ddl (CREATE_TABLE t cols uniques) sc =
     (if ident t \<in> set (relations sc) then Some sc
      else if distinct (map co_name cols) then Some (sc\<lparr>sc_tables := sc_tables sc @ [(ident t, cols, uniques)]\<rparr>) else None)"
| "exec_ddl (CREATE_INDEX unique i t cols) sc =
     (case map_of (sc_tables sc) (ident t) of
        None \<Rightarrow> None
      | Some (columns, _) \<Rightarrow>
          if \<not> list_all (\<lambda>c. c \<in> set (map co_name columns)) cols then None
          else if ident i \<in> set (relations sc) then Some sc
          else Some (sc\<lparr>sc_indexes := sc_indexes sc @ [(ident i, ident t, cols, unique)]\<rparr>))"
| "exec_ddl (ADD_COLUMN t c) sc =
     (case map_of (sc_tables sc) (ident t) of
        None \<Rightarrow> None
      | Some (columns, uniques) \<Rightarrow>
          if co_name c \<in> set (map co_name columns) then None
          else Some (sc\<lparr>sc_tables := AList.update (ident t) (columns @ [c], uniques) (sc_tables sc)\<rparr>))"

fun run_ddl :: "ddl list \<Rightarrow> schema \<Rightarrow> schema option" where
  "run_ddl [] sc = Some sc"
| "run_ddl (s # ss) sc = (case exec_ddl s sc of None \<Rightarrow> None | Some sc' \<Rightarrow> run_ddl ss sc')"

section \<open>Names\<close>

definition TableSignedBuilderBid :: "string \<Rightarrow> string" where
  "TableSignedBuilderBid tableBase = tableBase @ ''_signed_builder_bid''"

definition TableDataAPIPayloadDelivered :: "string \<Rightarrow> string" where
  "TableDataAPIPayloadDelivered tableBase = tableBase @ ''_data_api_payload_delivered''"

definition TableDataAPIBuilderBid :: "string \<Rightarrow> string" where
  "TableDataAPIBuilderBid tableBase = tableBase @ ''_data_api_builder_bid''"

definition TableBlockBuilder :: "string \<Rightarrow> string" where
  "TableBlockBuilder tableBase = tableBase @ ''_blockbuilder''"

definition TableBlockBuilderInclusionStats :: "string \<Rightarrow> string" where
  "TableBlockBuilderInclusionStats tableBase = tableBase @ ''_blockbuilder_stats_inclusion''"

lemmas table_names = TableSignedBuilderBid_def TableDataAPIPayloadDelivered_def TableDataAPIBuilderBid_def
  TableBlockBuilder_def TableBlockBuilderInclusionStats_def

section \<open>The migrations\<close>

definition signed_bid_columns :: "column list" where
  "signed_bid_columns =
     [filled ''id'' BigInt, filled ''inserted_at'' Timestamp,
      not_null ''relay'' TextType, not_null ''requested_at'' Timestamp, not_null ''received_at'' Timestamp,
      not_null ''duration_ms'' BigInt,
      not_null ''slot'' BigInt, not_null ''parent_hash'' (Varchar 66), not_null ''proposer_pubkey'' (Varchar 98),
      not_null ''pubkey'' (Varchar 98), not_null ''signature'' TextType,
      not_null ''value'' (Numeric 48 0), not_null ''fee_recipient'' (Varchar 42), not_null ''block_hash'' (Varchar 66),
      not_null ''block_number'' BigInt, not_null ''gas_limit'' BigInt, not_null ''gas_used'' BigInt,
      not_null ''extra_data'' TextType, not_null ''timestamp'' BigInt, not_null ''prev_randao'' TextType,
      not_null ''epoch'' BigInt]"

definition payload_table_columns :: "column list" where
  "payload_table_columns =
     [filled ''id'' BigInt, filled ''inserted_at'' Timestamp, not_null ''relay'' TextType,
      not_null ''epoch'' BigInt, not_null ''slot'' BigInt,
      not_null ''parent_hash'' (Varchar 66), not_null ''block_hash'' (Varchar 66), not_null ''builder_pubkey'' (Varchar 98),
      not_null ''proposer_pubkey'' (Varchar 98), not_null ''proposer_fee_recipient'' (Varchar 42),
      not_null ''gas_limit'' BigInt, not_null ''gas_used'' BigInt,
      not_null ''value_claimed_wei'' (Numeric 48 0), not_null ''value_claimed_eth'' (Numeric 16 8),
      nullable ''num_tx'' Int4, nullable ''block_number'' BigInt, not_null ''extra_data'' TextType,
      nullable ''slot_missed'' Boolean, nullable ''value_check_ok'' Boolean, nullable ''value_check_method'' TextType,
      nullable ''value_delivered_wei'' (Numeric 48 0), nullable ''value_delivered_eth'' (Numeric 16 8),
      nullable ''value_delivered_diff_wei'' (Numeric 48 0), nullable ''value_delivered_diff_eth'' (Numeric 16 8),
      nullable ''block_coinbase_addr'' (Varchar 42), nullable ''block_coinbase_is_proposer'' Boolean,
      nullable ''coinbase_diff_wei'' (Numeric 48 0), nullable ''coinbase_diff_eth'' (Numeric 16 8),
      nullable ''found_onchain'' Boolean, nullable ''notes'' TextType]"

definition bid_table_columns :: "column list" where
  "bid_table_columns =
     [filled ''id'' BigInt, filled ''inserted_at'' Timestamp, not_null ''relay'' TextType,
      not_null ''epoch'' BigInt, not_null ''slot'' BigInt,
      not_null ''parent_hash'' (Varchar 66), not_null ''block_hash'' (Varchar 66), not_null ''builder_pubkey'' (Varchar 98),
      not_null ''proposer_pubkey'' (Varchar 98), not_null ''proposer_fee_recipient'' (Varchar 42),
      not_null ''gas_limit'' BigInt, not_null ''gas_used'' BigInt, not_null ''value'' (Numeric 48 0),
      nullable ''num_tx'' Int4, nullable ''block_number'' BigInt, not_null ''timestamp'' Timestamp]"

definition builder_columns :: "column list" where
  "builder_columns =
     [filled ''id'' BigInt, filled ''inserted_at'' Timestamp, not_null ''builder_pubkey'' (Varchar 98), not_null ''description'' TextType]"

definition stats_columns :: "column list" where
  "stats_columns =
     [filled ''id'' BigInt, filled ''inserted_at'' Timestamp, not_null ''type'' TextType, not_null ''hours'' Int4,
      not_null ''time_start'' Timestamp, not_null ''time_end'' Timestamp, not_null ''builder_name'' TextType,
      not_null ''extra_data'' TextType, not_null ''builder_pubkeys'' TextType, not_null ''blocks_included'' Int4]"

definition signed_bid_schema :: "string \<Rightarrow> ddl list" where
  "signed_bid_schema t =
     [CREATE_TABLE t signed_bid_columns [[''id'']],
      CREATE_INDEX True (t @ ''_u_relay_slot_n_hashes_idx'') t [''relay'', ''slot'', ''parent_hash'', ''block_hash''],
      CREATE_INDEX False (t @ ''_insertedat_idx'') t [''inserted_at''],
      CREATE_INDEX False (t @ ''_slot_idx'') t [''slot''],
      CREATE_INDEX False (t @ ''_block_number_idx'') t [''block_number''],
      CREATE_INDEX False (t @ ''_value_idx'') t [''value'']]"

definition payload_schema :: "string \<Rightarrow> ddl list" where
  "payload_schema t =
     [CREATE_TABLE t payload_table_columns [[''id'']],
      CREATE_INDEX True (t @ ''_u_relay_slot_blockhash_idx'') t [''relay'', ''slot'', ''parent_hash'', ''block_hash''],
      CREATE_INDEX False (t @ ''_insertedat_idx'') t [''inserted_at''],
      CREATE_INDEX False (t @ ''_slot_idx'') t [''slot''],
      CREATE_INDEX False (t @ ''_builder_pubkey_idx'') t [''builder_pubkey''],
      CREATE_INDEX False (t @ ''_block_number_idx'') t [''block_number''],
      CREATE_INDEX False (t @ ''_value_wei_idx'') t [''value_claimed_wei''],
      CREATE_INDEX False (t @ ''_valuecheck_ok_idx'') t [''value_check_ok''],
      CREATE_INDEX False (t @ ''_slotmissed_idx'') t [''slot_missed''],
      CREATE_INDEX False (t @ ''_cb_diff_eth_idx'') t [''coinbase_diff_eth'']]"

definition bid_schema :: "string \<Rightarrow> ddl list" where
  "bid_schema t =
     [CREATE_TABLE t bid_table_columns [[''id'']],
      CREATE_INDEX True (t @ ''_unique_idx'') t [''relay'', ''slot'', ''builder_pubkey'', ''parent_hash'', ''block_hash''],
      CREATE_INDEX False (t @ ''_insertedat_idx'') t [''inserted_at''],
      CREATE_INDEX False (t @ ''_slot_idx'') t [''slot''],
      CREATE_INDEX False (t @ ''_builder_pubkey_idx'') t [''builder_pubkey''],
      CREATE_INDEX False (t @ ''_block_number_idx'') t [''block_number''],
      CREATE_INDEX False (t @ ''_value_idx'') t [''value'']]"

definition stats_schema :: "string \<Rightarrow> ddl list" where
  "stats_schema t =
     [CREATE_TABLE t stats_columns [[''id''], [''type'', ''hours'', ''time_start'', ''time_end'', ''builder_name'']],
      CREATE_INDEX False (t @ ''_type_hours_idx'') t [''type'', ''hours''],
      CREATE_INDEX False (t @ ''_time_start_idx'') t [''time_start''],
      CREATE_INDEX False (t @ ''_time_end_idx'') t [''time_end''],
      CREATE_INDEX False (t @ ''_builder_name_idx'') t [''builder_name''],
      CREATE_INDEX False (t @ ''_extra_data_idx'') t [''extra_data'']]"

definition initialSchema :: "string \<Rightarrow> ddl list" where
  "initialSchema tableBase =
     signed_bid_schema (TableSignedBuilderBid tableBase) @
     payload_schema (TableDataAPIPayloadDelivered tableBase) @
     bid_schema (TableDataAPIBuilderBid tableBase) @
     [CREATE_TABLE (TableBlockBuilder tableBase) builder_columns [[''id''], [''builder_pubkey'']]] @
     stats_schema (TableBlockBuilderInclusionStats tableBase)"

definition migration002SQL :: "string \<Rightarrow> ddl list" where
  "migration002SQL tableBase =
     [ADD_COLUMN (TableDataAPIPayloadDelivered tableBase) (nullable ''num_blob_txs'' Int4),
      ADD_COLUMN (TableDataAPIPayloadDelivered tableBase) (nullable ''num_blobs'' Int4)]"

definition migration003SQL :: "string \<Rightarrow> ddl list" where
  "migration003SQL tableBase =
     (let t = TableDataAPIPayloadDelivered tableBase in
     [CREATE_INDEX False (t @ ''_num_blob_txs_idx'') t [''num_blob_txs''],
      CREATE_INDEX False (t @ ''_num_blobs_idx'') t [''num_blobs'']])"

definition migration004SQL :: "string \<Rightarrow> ddl list" where
  "migration004SQL tableBase = [ADD_COLUMN (TableDataAPIPayloadDelivered tableBase) (nullable ''block_timestamp'' Timestamp)]"

text \<open>Every migration runs its statements in one transaction.\<close>

record migration =
  mg_Id :: string
  mg_Up :: "ddl list"

definition Migrations :: "string \<Rightarrow> migration list" where
  "Migrations tableBase =
     [\<lparr>mg_Id = ''001-init-database'', mg_Up = initialSchema tableBase\<rparr>,
      \<lparr>mg_Id = ''002-add-blob-count'', mg_Up = migration002SQL tableBase\<rparr>,
      \<lparr>mg_Id = ''003-add-blob-indexes'', mg_Up = migration003SQL tableBase\<rparr>,
      \<lparr>mg_Id = ''004-add-block-timestamp'', mg_Up = migration004SQL tableBase\<rparr>]"

section \<open>Running the migrations\<close>

text \<open>The database as a run of the migrations sees it: its schema and the identifiers recorded as applied.\<close>

record migrated =
  md_schema :: schema
  md_applied :: "string list"

definition fresh_database :: migrated where
  "fresh_database = \<lparr>md_schema = empty_schema, md_applied = []\<rparr>"

definition pending :: "migration list \<Rightarrow> migrated \<Rightarrow> migration list" where
  "pending ms st = filter (\<lambda>m. mg_Id m \<notin> set (md_applied st)) ms"

definition record_migration :: "migration \<Rightarrow> schema \<Rightarrow> migrated \<Rightarrow> migrated" where
  "record_migration m sc st = st\<lparr>md_schema := sc, md_applied := md_applied st @ [mg_Id m]\<rparr>"

text \<open>\<open>sql-migrate\<close>: pending migrations are applied in order, each with its record in a transaction of its own; the run
  ends with an error at the first one that fails, \<open>fault\<close> for a reason outside the model, and reports success when
  none is left.\<close>

definition migrate_documented :: "((string \<Rightarrow> bool) \<Rightarrow> migration list \<Rightarrow> migrated \<Rightarrow> migrated \<times> bool) \<Rightarrow> bool" where
  "migrate_documented exec \<longleftrightarrow> (\<forall>fault ms st.
     (pending ms st = [] \<longrightarrow> exec fault ms st = (st, True)) \<and>
     (\<forall>m rest. pending ms st = m # rest \<longrightarrow>
        (case (if fault (mg_Id m) then None else run_ddl (mg_Up m) (md_schema st)) of
           None \<Rightarrow> exec fault ms st = (st, False)
         | Some sc \<Rightarrow> exec fault ms st = exec fault ms (record_migration m sc st))))"

text \<open>\<open>NewDatabaseService\<close> applies the schema unless it is told not to.\<close>

definition apply_schema ::
    "((string \<Rightarrow> bool) \<Rightarrow> migration list \<Rightarrow> migrated \<Rightarrow> migrated \<times> bool) \<Rightarrow> string \<Rightarrow> string \<Rightarrow> (string \<Rightarrow> bool) \<Rightarrow>
     migrated \<Rightarrow> migrated \<times> bool" where
  "apply_schema exec dontApplySchema tableBase fault st =
     (if dontApplySchema = [] then exec fault (Migrations tableBase) st else (st, True))"

end
