(* ===== verification/SchemaMigration.thy ===== *)
theory SchemaMigration
  imports Schema
begin

text \<open>
  The migrations reach the schema that the program needs: from every earlier version of the database, and also after
  runs that failed in between.
\<close>

section \<open>The versions of the schema\<close>

text \<open>The tables and indexes after the first migrations, and the database of each version.\<close>

definition schema_tables :: "string \<Rightarrow> nat \<Rightarrow> (string \<times> column list \<times> string list list) list" where
  "schema_tables b k =
     [(TableSignedBuilderBid b, signed_bid_columns, [[''id'']]),
      (TableDataAPIPayloadDelivered b, payload_table_columns @
         (if 2 \<le> k then [nullable ''num_blob_txs'' Int4, nullable ''num_blobs'' Int4] else []) @
         (if 4 \<le> k then [nullable ''block_timestamp'' Timestamp] else []), [[''id'']]),
      (TableDataAPIBuilderBid b, bid_table_columns, [[''id'']]),
      (TableBlockBuilder b, builder_columns, [[''id''], [''builder_pubkey'']]),
      (TableBlockBuilderInclusionStats b, stats_columns, [[''id''], [''type'', ''hours'', ''time_start'', ''time_end'', ''builder_name'']])]"

fun indexes_of :: "ddl list \<Rightarrow> (string \<times> string \<times> string list \<times> bool) list" where
  "indexes_of [] = []"
| "indexes_of (CREATE_INDEX unique i t cols # ss) = (i, t, cols, unique) # indexes_of ss"
| "indexes_of (CREATE_TABLE t cols us # ss) = indexes_of ss"
| "indexes_of (ADD_COLUMN t c # ss) = indexes_of ss"

definition schema_version :: "string \<Rightarrow> nat \<Rightarrow> schema" where
  "schema_version b k = (if k = 0 then empty_schema else
     \<lparr>sc_tables = schema_tables b k,
      sc_indexes = indexes_of (initialSchema b) @ (if 3 \<le> k then indexes_of (migration003SQL b) else [])\<rparr>)"

definition database_version :: "string \<Rightarrow> nat \<Rightarrow> migrated" where
  "database_version b k = \<lparr>md_schema = schema_version b k, md_applied = map mg_Id (take k (Migrations b))\<rparr>"

text \<open>With a prefix of at most nine bytes the server cuts no name.\<close>

definition table_list :: "string \<Rightarrow> string list" where
  "table_list b = [TableSignedBuilderBid b, TableDataAPIPayloadDelivered b, TableDataAPIBuilderBid b, TableBlockBuilder b,
     TableBlockBuilderInclusionStats b]"

lemma names_distinct: "distinct (table_list b @ map fst (indexes_of (initialSchema b) @ indexes_of (migration003SQL b)))"
  by (simp add: table_list_def initialSchema_def migration003SQL_def signed_bid_schema_def payload_schema_def bid_schema_def stats_schema_def
      table_names Let_def)

lemma names_short:
  "length b \<le> 9 \<Longrightarrow>
   \<forall>n \<in> set (table_list b @ map fst (indexes_of (initialSchema b) @ indexes_of (migration003SQL b))). length n \<le> 63"
  by (simp add: table_list_def initialSchema_def migration003SQL_def signed_bid_schema_def payload_schema_def bid_schema_def stats_schema_def
      table_names Let_def)

lemma ident_short: "length n \<le> 63 \<Longrightarrow> ident n = n"
  by (simp add: ident_def)

lemma ident_tables:
  assumes "length b \<le> 9"
  shows "ident (TableSignedBuilderBid b) = TableSignedBuilderBid b" "ident (TableDataAPIPayloadDelivered b) = TableDataAPIPayloadDelivered b"
    "ident (TableDataAPIBuilderBid b) = TableDataAPIBuilderBid b" "ident (TableBlockBuilder b) = TableBlockBuilder b"
    "ident (TableBlockBuilderInclusionStats b) = TableBlockBuilderInclusionStats b"
  using names_short [OF assms] by (simp_all add: table_list_def ident_short)

lemma run_ddl_append: "run_ddl (ss @ ts) sc = (case run_ddl ss sc of None \<Rightarrow> None | Some sc' \<Rightarrow> run_ddl ts sc')"
  by (induction ss sc rule: run_ddl.induct) (auto split: option.splits)

text \<open>Indexes with new names over existing columns are added in order.\<close>

lemma run_indexes:
  assumes "\<forall>s \<in> set ss. \<exists>u i t cols. s = CREATE_INDEX u i t cols"
    and "\<forall>(i, t, cols, u) \<in> set (indexes_of ss). length i \<le> 63 \<and> length t \<le> 63 \<and>
      (\<exists>columns us. map_of (sc_tables sc) t = Some (columns, us) \<and> set cols \<subseteq> set (map co_name columns))"
    and "distinct (relations sc @ map fst (indexes_of ss))"
  shows "run_ddl ss sc = Some (sc\<lparr>sc_indexes := sc_indexes sc @ indexes_of ss\<rparr>)"
  using assms
proof (induction ss arbitrary: sc)
  case (Cons s ss)
  then obtain u i t cols where s: "s = CREATE_INDEX u i t cols" by auto
  obtain columns us where t: "map_of (sc_tables sc) t = Some (columns, us)" "set cols \<subseteq> set (map co_name columns)" "ident t = t" "ident i = i"
    using Cons.prems(2) by (auto simp: s ident_short)
  have "i \<notin> set (relations sc)" using Cons.prems(3) by (auto simp: s)
  then have "exec_ddl s sc = Some (sc\<lparr>sc_indexes := sc_indexes sc @ [(i, t, cols, u)]\<rparr>)"
    using t by (auto simp: s list_all_iff)
  moreover have "run_ddl ss (sc\<lparr>sc_indexes := sc_indexes sc @ [(i, t, cols, u)]\<rparr>) =
      Some (sc\<lparr>sc_indexes := (sc_indexes sc @ [(i, t, cols, u)]) @ indexes_of ss\<rparr>)"
    using Cons.prems by (subst Cons.IH) (auto simp: s relations_def)
  ultimately show ?case by (simp add: s)
qed simp

text \<open>A table and its indexes.\<close>

lemma run_table:
  assumes "distinct (map co_name columns)"
    and "\<forall>s \<in> set ss. \<exists>u i cols. s = CREATE_INDEX u i t cols \<and> set cols \<subseteq> set (map co_name columns)"
    and "distinct (t # relations sc @ map fst (indexes_of ss))" "length t \<le> 63" "\<forall>n \<in> set (map fst (indexes_of ss)). length n \<le> 63"
  shows "run_ddl (CREATE_TABLE t columns us # ss) sc =
    Some \<lparr>sc_tables = sc_tables sc @ [(t, columns, us)], sc_indexes = sc_indexes sc @ indexes_of ss\<rparr>"
proof -
  define sc' where "sc' = sc\<lparr>sc_tables := sc_tables sc @ [(t, columns, us)]\<rparr>"
  have "t \<notin> fst ` set (sc_tables sc)" using assms(3) by (auto simp: relations_def)
  then have "map_of (sc_tables sc') t = Some (columns, us)"
    by (simp add: sc'_def map_add_def map_of_eq_None_iff [THEN iffD2])
  moreover have "\<forall>(i, t', cols, u) \<in> set (indexes_of ss). t' = t \<and> set cols \<subseteq> set (map co_name columns)"
    using assms(2) by (induction ss rule: indexes_of.induct) auto
  ultimately have "\<forall>(i, t', cols, u) \<in> set (indexes_of ss). length i \<le> 63 \<and> length t' \<le> 63 \<and>
      (\<exists>columns us. map_of (sc_tables sc') t' = Some (columns, us) \<and> set cols \<subseteq> set (map co_name columns))"
    using assms(4,5) by fastforce
  moreover have "\<forall>s \<in> set ss. \<exists>u i t cols. s = CREATE_INDEX u i t cols" using assms(2) by blast
  moreover have "distinct (relations sc' @ map fst (indexes_of ss))" using assms(3) by (auto simp: sc'_def relations_def)
  ultimately have "run_ddl ss sc' = Some (sc'\<lparr>sc_indexes := sc_indexes sc' @ indexes_of ss\<rparr>)" by (intro run_indexes)
  then show ?thesis using assms(1,3,4) by (simp add: sc'_def ident_short)
qed

lemma columns_distinct:
  "distinct (map co_name signed_bid_columns)" "distinct (map co_name payload_table_columns)" "distinct (map co_name bid_table_columns)"
  "distinct (map co_name builder_columns)" "distinct (map co_name stats_columns)"
  by (simp_all add: signed_bid_columns_def payload_table_columns_def bid_table_columns_def builder_columns_def stats_columns_def)

lemma tables_apart:
  "TableSignedBuilderBid b \<noteq> TableDataAPIPayloadDelivered b" "TableSignedBuilderBid b \<noteq> TableDataAPIBuilderBid b" "TableSignedBuilderBid b \<noteq> TableBlockBuilder b" "TableSignedBuilderBid b \<noteq> TableBlockBuilderInclusionStats b"
  "TableDataAPIPayloadDelivered b \<noteq> TableSignedBuilderBid b" "TableDataAPIPayloadDelivered b \<noteq> TableDataAPIBuilderBid b" "TableDataAPIPayloadDelivered b \<noteq> TableBlockBuilder b" "TableDataAPIPayloadDelivered b \<noteq> TableBlockBuilderInclusionStats b"
  "TableDataAPIBuilderBid b \<noteq> TableSignedBuilderBid b" "TableDataAPIBuilderBid b \<noteq> TableDataAPIPayloadDelivered b" "TableDataAPIBuilderBid b \<noteq> TableBlockBuilder b" "TableDataAPIBuilderBid b \<noteq> TableBlockBuilderInclusionStats b"
  "TableBlockBuilder b \<noteq> TableSignedBuilderBid b" "TableBlockBuilder b \<noteq> TableDataAPIPayloadDelivered b" "TableBlockBuilder b \<noteq> TableDataAPIBuilderBid b" "TableBlockBuilder b \<noteq> TableBlockBuilderInclusionStats b"
  "TableBlockBuilderInclusionStats b \<noteq> TableSignedBuilderBid b" "TableBlockBuilderInclusionStats b \<noteq> TableDataAPIPayloadDelivered b" "TableBlockBuilderInclusionStats b \<noteq> TableDataAPIBuilderBid b" "TableBlockBuilderInclusionStats b \<noteq> TableBlockBuilder b"
  by (simp_all add: table_names)

text \<open>The statements of a table are its creation and indexes over its columns.\<close>

lemma table_schemas:
  "\<forall>s \<in> set (tl (signed_bid_schema t)). \<exists>u i cols. s = CREATE_INDEX u i t cols \<and> set cols \<subseteq> set (map co_name signed_bid_columns)"
  "\<forall>s \<in> set (tl (payload_schema t)). \<exists>u i cols. s = CREATE_INDEX u i t cols \<and> set cols \<subseteq> set (map co_name payload_table_columns)"
  "\<forall>s \<in> set (tl (bid_schema t)). \<exists>u i cols. s = CREATE_INDEX u i t cols \<and> set cols \<subseteq> set (map co_name bid_table_columns)"
  "\<forall>s \<in> set (tl (stats_schema t)). \<exists>u i cols. s = CREATE_INDEX u i t cols \<and> set cols \<subseteq> set (map co_name stats_columns)"
  by (simp_all add: signed_bid_schema_def signed_bid_columns_def payload_schema_def payload_table_columns_def bid_schema_def
      bid_table_columns_def stats_schema_def stats_columns_def) blast+

lemma schema_heads:
  "signed_bid_schema t = CREATE_TABLE t signed_bid_columns [[''id'']] # tl (signed_bid_schema t)"
  "payload_schema t = CREATE_TABLE t payload_table_columns [[''id'']] # tl (payload_schema t)"
  "bid_schema t = CREATE_TABLE t bid_table_columns [[''id'']] # tl (bid_schema t)"
  "stats_schema t = CREATE_TABLE t stats_columns [[''id''], [''type'', ''hours'', ''time_start'', ''time_end'', ''builder_name'']] # tl (stats_schema t)"
  by (simp_all add: signed_bid_schema_def payload_schema_def bid_schema_def stats_schema_def)

lemma indexes_of_append: "indexes_of (ss @ ts) = indexes_of ss @ indexes_of ts"
  by (induction ss rule: indexes_of.induct) simp_all

lemma run_table_schema:
  assumes "schema = CREATE_TABLE t columns us # tl schema" "distinct (map co_name columns)"
    and "\<forall>s \<in> set (tl schema). \<exists>u i cols. s = CREATE_INDEX u i t cols \<and> set cols \<subseteq> set (map co_name columns)"
    and "distinct (t # relations sc @ map fst (indexes_of schema))" "length t \<le> 63" "\<forall>n \<in> set (map fst (indexes_of schema)). length n \<le> 63"
  shows "run_ddl schema sc = Some \<lparr>sc_tables = sc_tables sc @ [(t, columns, us)], sc_indexes = sc_indexes sc @ indexes_of schema\<rparr>"
proof -
  have "indexes_of schema = indexes_of (tl schema)" by (metis assms(1) indexes_of.simps(3))
  then show ?thesis using run_table [OF assms(2,3), of sc us] assms(1,4-6) by metis
qed

lemmas run_table_schemas =
  run_table_schema [OF schema_heads(1) columns_distinct(1) table_schemas(1)]
  run_table_schema [OF schema_heads(2) columns_distinct(2) table_schemas(2)]
  run_table_schema [OF schema_heads(3) columns_distinct(3) table_schemas(3)]
  run_table_schema [OF schema_heads(4) columns_distinct(5) table_schemas(4)]

lemma run_initial:
  assumes "length b \<le> 9"
  shows "run_ddl (initialSchema b) empty_schema = Some (schema_version b 1)"
proof -
  define t1 t2 t3 t4 t5 where t: "t1 = TableSignedBuilderBid b" "t2 = TableDataAPIPayloadDelivered b" "t3 = TableDataAPIBuilderBid b"
    "t4 = TableBlockBuilder b" "t5 = TableBlockBuilderInclusionStats b"
  define i1 i2 i3 i5 where i: "i1 = indexes_of (signed_bid_schema t1)" "i2 = indexes_of (payload_schema t2)"
    "i3 = indexes_of (bid_schema t3)" "i5 = indexes_of (stats_schema t5)"
  note folds = t(1-5) [symmetric] i [symmetric]
  have idx: "indexes_of (initialSchema b) = i1 @ i2 @ i3 @ i5" by (simp add: initialSchema_def indexes_of_append folds)
  have names: "distinct ([t1, t2, t3, t4, t5] @ map fst (i1 @ i2 @ i3 @ i5))"
    and short: "\<forall>n \<in> set ([t1, t2, t3, t4, t5] @ map fst (i1 @ i2 @ i3 @ i5)). length n \<le> 63"
    using names_distinct [of b] names_short [OF assms] by (simp_all add: table_list_def folds flip: idx)
  define s1 where "s1 = \<lparr>sc_tables = [(t1, signed_bid_columns, [[''id'']])], sc_indexes = i1\<rparr>"
  define s2 where "s2 = \<lparr>sc_tables = sc_tables s1 @ [(t2, payload_table_columns, [[''id'']])], sc_indexes = i1 @ i2\<rparr>"
  define s3 where "s3 = \<lparr>sc_tables = sc_tables s2 @ [(t3, bid_table_columns, [[''id'']])], sc_indexes = i1 @ i2 @ i3\<rparr>"
  define s4 where "s4 = \<lparr>sc_tables = sc_tables s3 @ [(t4, builder_columns, [[''id''], [''builder_pubkey'']])], sc_indexes = i1 @ i2 @ i3\<rparr>"
  note states = s1_def s2_def s3_def s4_def empty_schema_def relations_def
  have "run_ddl (signed_bid_schema t1) empty_schema = Some s1"
    using run_table_schemas(1) [of t1 empty_schema] names short by (auto simp: states folds Int_Un_distrib Int_Un_distrib2)
  moreover have "run_ddl (payload_schema t2) s1 = Some s2"
    using run_table_schemas(2) [of t2 s1] names short by (auto simp: states folds Int_Un_distrib Int_Un_distrib2)
  moreover have "run_ddl (bid_schema t3) s2 = Some s3"
    using run_table_schemas(3) [of t3 s2] names short by (auto simp: states folds Int_Un_distrib Int_Un_distrib2)
  moreover have "run_ddl [CREATE_TABLE t4 builder_columns [[''id''], [''builder_pubkey'']]] s3 = Some s4"
  proof -
    have "distinct (t4 # relations s3 @ map fst (indexes_of []))" using names by (auto simp: states Int_Un_distrib Int_Un_distrib2)
    from run_table [OF columns_distinct(4) _ this] show ?thesis using short by (simp add: s4_def s3_def del: run_ddl.simps exec_ddl.simps)
  qed
  moreover have "run_ddl (stats_schema t5) s4 = Some (schema_version b 1)"
    using run_table_schemas(4) [of t5 s4] names short
    by (auto simp: states schema_version_def schema_tables_def idx folds Int_Un_distrib Int_Un_distrib2)
  ultimately show ?thesis by (simp only: initialSchema_def run_ddl_append folds option.case)
qed

text \<open>Each migration leads from its version to the next.\<close>

lemma payload_table_of:
  "1 \<le> k \<Longrightarrow> map_of (schema_tables b k) (TableDataAPIPayloadDelivered b) = Some (payload_table_columns @
     (if 2 \<le> k then [nullable ''num_blob_txs'' Int4, nullable ''num_blobs'' Int4] else []) @
     (if 4 \<le> k then [nullable ''block_timestamp'' Timestamp] else []), [[''id'']])"
  by (simp add: schema_tables_def tables_apart)

lemma version_1_2: "length b \<le> 9 \<Longrightarrow> run_ddl (migration002SQL b) (schema_version b 1) = Some (schema_version b 2)"
  by (simp add: migration002SQL_def schema_version_def schema_tables_def payload_table_columns_def tables_apart ident_tables)

lemma version_2_3: "length b \<le> 9 \<Longrightarrow> run_ddl (migration003SQL b) (schema_version b 2) = Some (schema_version b 3)"
proof -
  assume b: "length b \<le> 9"
  have tables: "map fst (schema_tables b 2) = table_list b" by (simp add: schema_tables_def table_list_def)
  have "run_ddl (migration003SQL b) (schema_version b 2) =
      Some (schema_version b 2\<lparr>sc_indexes := sc_indexes (schema_version b 2) @ indexes_of (migration003SQL b)\<rparr>)"
  proof (rule run_indexes)
    show "distinct (relations (schema_version b 2) @ map fst (indexes_of (migration003SQL b)))"
      using names_distinct [of b] by (simp add: relations_def schema_version_def tables)
    show "\<forall>(i, t, cols, u) \<in> set (indexes_of (migration003SQL b)). length i \<le> 63 \<and> length t \<le> 63 \<and>
        (\<exists>columns us. map_of (sc_tables (schema_version b 2)) t = Some (columns, us) \<and> set cols \<subseteq> set (map co_name columns))"
      using names_short [OF b] by (simp add: migration003SQL_def schema_version_def payload_table_of Let_def table_list_def)
  qed (auto simp: migration003SQL_def Let_def)
  then show ?thesis by (simp add: schema_version_def schema_tables_def)
qed

lemma version_3_4: "length b \<le> 9 \<Longrightarrow> run_ddl (migration004SQL b) (schema_version b 3) = Some (schema_version b 4)"
  by (simp add: migration004SQL_def schema_version_def schema_tables_def payload_table_columns_def tables_apart ident_tables)

lemma version_step:
  assumes "k < 4" "length b \<le> 9"
  shows "run_ddl (mg_Up (Migrations b ! k)) (schema_version b k) = Some (schema_version b (Suc k))"
proof -
  from assms(1) consider "k = 0" | "k = 1" | "k = 2" | "k = 3" by linarith
  then show ?thesis
    using run_initial [OF assms(2)] version_1_2 [OF assms(2)] version_2_3 [OF assms(2)] version_3_4 [OF assms(2)]
    by cases (simp_all add: Migrations_def schema_version_def [of _ 0] eval_nat_numeral)
qed

lemma length_Migrations: "length (Migrations b) = 4"
  by (simp add: Migrations_def)

lemma distinct_Migrations: "distinct (map mg_Id (Migrations b))"
  by (simp add: Migrations_def)

lemma pending_version: "pending (Migrations b) (database_version b k) = drop k (Migrations b)"
proof -
  have "filter (\<lambda>m. mg_Id m \<notin> mg_Id ` set (take k ms)) ms = drop k ms" if "distinct (map mg_Id ms)" for ms :: "migration list"
    using that
  proof (induction ms arbitrary: k)
    case (Cons m ms)
    then show ?case
    proof (cases k)
      case (Suc j)
      have "filter (\<lambda>n. mg_Id n \<notin> insert (mg_Id m) (mg_Id ` set (take j ms))) ms = filter (\<lambda>n. mg_Id n \<notin> mg_Id ` set (take j ms)) ms"
        using Cons.prems by (intro filter_cong) (auto simp: image_iff)
      then show ?thesis using Suc Cons by simp
    qed simp
  qed simp
  then show ?thesis using distinct_Migrations by (simp add: pending_def database_version_def)
qed

lemma migrate_documentedD:
  assumes "migrate_documented exec"
  shows "pending ms st = [] \<Longrightarrow> exec fault ms st = (st, True)"
    and "pending ms st = m # rest \<Longrightarrow> fault (mg_Id m) \<Longrightarrow> exec fault ms st = (st, False)"
    and "pending ms st = m # rest \<Longrightarrow> \<not> fault (mg_Id m) \<Longrightarrow> run_ddl (mg_Up m) (md_schema st) = Some sc \<Longrightarrow>
      exec fault ms st = exec fault ms (record_migration m sc st)"
proof -
  have step: "case (if fault (mg_Id m) then None else run_ddl (mg_Up m) (md_schema st)) of
      None \<Rightarrow> exec fault ms st = (st, False)
    | Some sc \<Rightarrow> exec fault ms st = exec fault ms (record_migration m sc st)" if "pending ms st = m # rest"
    using assms that unfolding migrate_documented_def by blast
  show "exec fault ms st = (st, True)" if "pending ms st = []" using assms that unfolding migrate_documented_def by blast
  show "exec fault ms st = (st, False)" if "pending ms st = m # rest" "fault (mg_Id m)" using step that by simp
  show "exec fault ms st = exec fault ms (record_migration m sc st)"
    if "pending ms st = m # rest" "\<not> fault (mg_Id m)" "run_ddl (mg_Up m) (md_schema st) = Some sc" using step that by simp
qed

lemma migrate_step:
  assumes "migrate_documented exec" "k < 4" "length b \<le> 9"
  shows "exec fault (Migrations b) (database_version b k) =
    (if fault (mg_Id (Migrations b ! k)) then (database_version b k, False) else exec fault (Migrations b) (database_version b (Suc k)))"
proof -
  let ?m = "Migrations b ! k"
  have pend: "pending (Migrations b) (database_version b k) = ?m # drop (Suc k) (Migrations b)"
    using assms(2) by (simp add: pending_version Cons_nth_drop_Suc length_Migrations)
  have "md_schema (database_version b k) = schema_version b k" by (simp add: database_version_def)
  moreover have "record_migration ?m (schema_version b (Suc k)) (database_version b k) = database_version b (Suc k)"
    using assms(2) by (simp add: record_migration_def database_version_def take_Suc_conv_app_nth length_Migrations)
  ultimately show ?thesis
    using migrate_documentedD(2,3) [OF assms(1) pend] version_step [OF assms(2,3)] by simp
qed

text \<open>A run ends in a version, and reports success exactly when it is the last one.\<close>

lemma migrate_run:
  assumes "migrate_documented exec" "k \<le> 4" "length b \<le> 9"
  shows "\<exists>j. k \<le> j \<and> j \<le> 4 \<and> exec fault (Migrations b) (database_version b k) = (database_version b j, j = 4) \<and>
    ((\<forall>i. \<not> fault i) \<longrightarrow> j = 4)"
  using assms(2)
proof (induction rule: inc_induct)
  case base
  have "pending (Migrations b) (database_version b 4) = []" by (simp add: pending_version length_Migrations)
  then show ?case using migrate_documentedD(1) [OF assms(1)] by (intro exI [of _ 4]) simp
next
  case (step k)
  show ?case
  proof (cases "fault (mg_Id (Migrations b ! k))")
    case True
    then show ?thesis using step.hyps migrate_step [OF assms(1) step.hyps(2) assms(3)] by (intro exI [of _ k]) auto
  next
    case False
    obtain j where "Suc k \<le> j" "j \<le> 4" "(\<forall>i. \<not> fault i) \<longrightarrow> j = 4"
        "exec fault (Migrations b) (database_version b (Suc k)) = (database_version b j, j = 4)" using step.IH by blast
    then show ?thesis using False migrate_step [OF assms(1) step.hyps(2) assms(3), of fault] by (intro exI [of _ j]) simp
  qed
qed

lemma fresh_version: "fresh_database = database_version b 0"
  by (simp add: fresh_database_def database_version_def schema_version_def)

text \<open>C21. With a table prefix of at most nine bytes, however often the processes of the program started before, and wherever their migrations failed, the database
  is at one of the five versions of its schema, and the next start without a fault brings it to the last one;
  starting again leaves it there.\<close>

theorem migrations_reach_schema:
  fixes b :: string
  assumes "migrate_documented exec" "length b \<le> 9"
  defines "start \<equiv> apply_schema exec [] b"
  shows "\<exists>k \<le> 4. fold (\<lambda>fault st. fst (start fault st)) faults fresh_database = database_version b k \<and>
    start (\<lambda>_. False) (database_version b k) = (database_version b 4, True) \<and>
    (\<forall>fault. start fault (database_version b 4) = (database_version b 4, True))"
proof -
  have start: "start = (\<lambda>fault. exec fault (Migrations b))" by (intro ext) (simp add: start_def apply_schema_def)
  have "\<exists>k \<le> 4. fold (\<lambda>fault st. fst (start fault st)) faults fresh_database = database_version b k"
  proof (induction faults rule: rev_induct)
    case (snoc fault faults)
    then obtain k where k: "k \<le> 4" "fold (\<lambda>fault st. fst (start fault st)) faults fresh_database = database_version b k" by blast
    then show ?case using migrate_run [OF assms(1) k(1) assms(2), of fault] by (auto simp: start)
  qed (auto simp: fresh_version [of b])
  moreover have "start (\<lambda>_. False) (database_version b k) = (database_version b 4, True)" if "k \<le> 4" for k
    using migrate_run [OF assms(1) that assms(2), of "\<lambda>_. False"] by (auto simp: start)
  moreover have "start fault (database_version b 4) = (database_version b 4, True)" for fault
    using migrate_run [OF assms(1) _ assms(2), of 4 fault] by (auto simp: start)
  ultimately show ?thesis by blast
qed

text \<open>A library of the documented kind.\<close>

fun run_pending :: "(string \<Rightarrow> bool) \<Rightarrow> migration list \<Rightarrow> migrated \<Rightarrow> migrated \<times> bool" where
  "run_pending fault [] st = (st, True)"
| "run_pending fault (m # ms) st =
     (if mg_Id m \<in> set (md_applied st) then run_pending fault ms st
      else case (if fault (mg_Id m) then None else run_ddl (mg_Up m) (md_schema st)) of
        None \<Rightarrow> (st, False)
      | Some sc \<Rightarrow> run_pending fault ms (record_migration m sc st))"

lemma run_pending_documented: "migrate_documented run_pending"
proof -
  have "run_pending fault ms st = (st, True)" if "pending ms st = []" for fault ms st
    using that by (induction ms) (auto simp: pending_def split: if_splits)
  moreover have "case (if fault (mg_Id m) then None else run_ddl (mg_Up m) (md_schema st)) of
      None \<Rightarrow> run_pending fault ms st = (st, False)
    | Some sc \<Rightarrow> run_pending fault ms st = run_pending fault ms (record_migration m sc st)"
    if "pending ms st = m # rest" for fault ms st m rest
    using that
  proof (induction ms)
    case (Cons n ms)
    show ?case
    proof (cases "mg_Id n \<in> set (md_applied st)")
      case True
      moreover have "mg_Id n \<in> set (md_applied (record_migration m sc st))" for sc using True by (simp add: record_migration_def)
      ultimately show ?thesis using Cons by (cases "fault (mg_Id m)") (auto simp: pending_def split: option.splits)
    next
      case False
      then have "n = m" using Cons.prems by (simp add: pending_def)
      moreover have "mg_Id m \<in> set (md_applied (record_migration m sc st))" for sc by (simp add: record_migration_def)
      ultimately show ?thesis using False by (cases "fault (mg_Id m)") (auto split: option.splits)
    qed
  qed (simp add: pending_def)
  ultimately show ?thesis unfolding migrate_documented_def by blast
qed

theorem migrations_reach_schema_witness:
  "apply_schema run_pending [] ''rsdev'' (\<lambda>_. False)
     (fst (apply_schema run_pending [] ''rsdev'' (\<lambda>i. i = ''003-add-blob-indexes'') fresh_database)) = (database_version ''rsdev'' 4, True)"
  using migrations_reach_schema [OF run_pending_documented, of "''rsdev''" "[\<lambda>i. i = ''003-add-blob-indexes'']"] by auto

end
