(* ===== verification/SchemaStatements.thy ===== *)
theory SchemaStatements
  imports SchemaMigration
begin

text \<open>
  The statements of the program against the schema: the columns each of them names, and the fields that a row is
  scanned into.
\<close>

section \<open>Statements\<close>

datatype table = Signed_Bids | Payloads_Delivered | Builder_Bids | Block_Builders | Inclusion_Stats

fun table_name :: "string \<Rightarrow> table \<Rightarrow> string" where
  "table_name b Signed_Bids = TableSignedBuilderBid b"
| "table_name b Payloads_Delivered = TableDataAPIPayloadDelivered b"
| "table_name b Builder_Bids = TableDataAPIBuilderBid b"
| "table_name b Block_Builders = TableBlockBuilder b"
| "table_name b Inclusion_Stats = TableBlockBuilderInclusionStats b"

text \<open>An insert names its columns, the target of its conflict clause and the columns that clause updates; a
  query names what it selects, the other columns it uses, and the fields of the struct it is scanned into with whether
  they can hold \<open>NULL\<close>; an update names the columns it sets and those of its condition.\<close>

datatype dml =
    INSERT "string list" "string list option" "string list"
  | SELECT "string list" "string list" "(string \<times> bool) list"
  | UPDATE "string list" "string list"

definition unique_on :: "schema \<Rightarrow> string \<Rightarrow> string list list" where
  "unique_on sc t = (case map_of (sc_tables sc) t of None \<Rightarrow> [] | Some (_, us) \<Rightarrow> us) @
     map (\<lambda>(_, _, cols, _). cols) (filter (\<lambda>(_, t', _, u). t' = t \<and> u) (sc_indexes sc))"

definition columns_of :: "schema \<Rightarrow> string \<Rightarrow> column list" where
  "columns_of sc t = (case map_of (sc_tables sc) t of None \<Rightarrow> [] | Some (cols, _) \<Rightarrow> cols)"

text \<open>A statement that the server can run whatever its arguments are, and whose rows can be scanned: over the columns of
  its table and the column lists that are unique there.\<close>

fun dml_fits :: "column list \<Rightarrow> string list list \<Rightarrow> dml \<Rightarrow> bool" where
  "dml_fits columns uniques (INSERT cols target updated) \<longleftrightarrow>
     distinct cols \<and> set (cols @ updated) \<subseteq> set (map co_name columns) \<and>
     list_all (\<lambda>c. co_NotNull c \<and> \<not> co_filled c \<longrightarrow> co_name c \<in> set cols) columns \<and>
     (case target of None \<Rightarrow> True | Some k \<Rightarrow> k \<in> set uniques)"
| "dml_fits columns uniques (SELECT selected used dest) \<longleftrightarrow>
     set (selected @ used) \<subseteq> set (map co_name columns) \<and> set selected \<subseteq> set (map fst dest) \<and>
     list_all (\<lambda>c. co_name c \<in> set selected \<and> \<not> co_NotNull c \<longrightarrow> map_of dest (co_name c) = Some True) columns"
| "dml_fits columns uniques (UPDATE assigned used) \<longleftrightarrow>
     distinct assigned \<and> set (assigned @ used) \<subseteq> set (map co_name columns)"

definition valid_dml :: "schema \<Rightarrow> string \<Rightarrow> dml \<Rightarrow> bool" where
  "valid_dml sc t d \<longleftrightarrow> ident t \<in> set (map fst (sc_tables sc)) \<and> dml_fits (columns_of sc (ident t)) (unique_on sc (ident t)) d"

section \<open>The structs that rows are scanned into\<close>

definition payload_fields :: "(string \<times> bool) list" where
  "payload_fields =
     [(''id'', False), (''inserted_at'', False), (''relay'', False), (''epoch'', False), (''slot'', False),
      (''parent_hash'', False), (''block_hash'', False), (''builder_pubkey'', False), (''proposer_pubkey'', False),
      (''proposer_fee_recipient'', False), (''gas_limit'', False), (''gas_used'', False), (''value_claimed_wei'', False),
      (''value_claimed_eth'', False), (''num_tx'', True), (''block_number'', True), (''extra_data'', False),
      (''found_onchain'', True), (''slot_missed'', True), (''value_check_ok'', True), (''value_check_method'', True),
      (''value_delivered_wei'', True), (''value_delivered_eth'', True), (''value_delivered_diff_wei'', True),
      (''value_delivered_diff_eth'', True), (''block_coinbase_addr'', True), (''block_coinbase_is_proposer'', True),
      (''coinbase_diff_wei'', True), (''coinbase_diff_eth'', True), (''notes'', True), (''num_blob_txs'', True),
      (''num_blobs'', True), (''block_timestamp'', True)]"

definition bid_fields :: "(string \<times> bool) list" where
  "bid_fields =
     [(''id'', False), (''inserted_at'', False), (''relay'', False), (''epoch'', False), (''slot'', False),
      (''parent_hash'', False), (''block_hash'', False), (''builder_pubkey'', False), (''proposer_pubkey'', False),
      (''proposer_fee_recipient'', False), (''gas_limit'', False), (''gas_used'', False), (''value'', False),
      (''num_tx'', True), (''block_number'', True), (''timestamp'', False)]"

definition signed_bid_fields :: "(string \<times> bool) list" where
  "signed_bid_fields = map (\<lambda>c. (c, False))
     [''id'', ''inserted_at'', ''relay'', ''requested_at'', ''received_at'', ''duration_ms'', ''slot'', ''parent_hash'',
      ''proposer_pubkey'', ''pubkey'', ''signature'', ''value'', ''fee_recipient'', ''block_hash'', ''block_number'',
      ''gas_limit'', ''gas_used'', ''extra_data'', ''prev_randao'', ''timestamp'', ''epoch'']"

definition stats_fields :: "(string \<times> bool) list" where
  "stats_fields = map (\<lambda>c. (c, False))
     [''id'', ''inserted_at'', ''type'', ''hours'', ''time_start'', ''time_end'', ''builder_name'', ''extra_data'',
      ''builder_pubkeys'', ''blocks_included'']"

definition recent_fields :: "(string \<times> bool) list" where
  "recent_fields = [(''slot'', False), (''extra_data'', False), (''inserted_at'', False), (''block_timestamp'', True)]"

section \<open>The statements of the program\<close>

definition payload_insert_columns :: "string list" where
  "payload_insert_columns =
     [''relay'', ''epoch'', ''slot'', ''parent_hash'', ''block_hash'', ''builder_pubkey'', ''proposer_pubkey'',
      ''proposer_fee_recipient'', ''gas_limit'', ''gas_used'', ''value_claimed_wei'', ''value_claimed_eth'', ''num_tx'',
      ''block_number'', ''extra_data'']"

definition bid_insert_columns :: "string list" where
  "bid_insert_columns =
     [''relay'', ''epoch'', ''slot'', ''parent_hash'', ''block_hash'', ''builder_pubkey'', ''proposer_pubkey'',
      ''proposer_fee_recipient'', ''gas_limit'', ''gas_used'', ''value'', ''num_tx'', ''block_number'', ''timestamp'']"

definition signed_bid_insert_columns :: "string list" where
  "signed_bid_insert_columns =
     [''relay'', ''requested_at'', ''received_at'', ''duration_ms'', ''slot'', ''parent_hash'', ''proposer_pubkey'', ''pubkey'',
      ''signature'', ''value'', ''fee_recipient'', ''block_hash'', ''block_number'', ''gas_limit'', ''gas_used'', ''extra_data'',
      ''epoch'', ''timestamp'', ''prev_randao'']"

definition stats_insert_columns :: "string list" where
  "stats_insert_columns =
     [''type'', ''hours'', ''time_start'', ''time_end'', ''builder_name'', ''extra_data'', ''builder_pubkeys'', ''blocks_included'']"

text \<open>The columns up to the block number, which most queries of payloads select.\<close>

definition claim_select :: "string list" where
  "claim_select =
     [''id'', ''inserted_at'', ''relay'', ''epoch'', ''slot'', ''parent_hash'', ''block_hash'', ''builder_pubkey'',
      ''proposer_pubkey'', ''proposer_fee_recipient'', ''gas_limit'', ''gas_used'', ''value_claimed_wei'', ''value_claimed_eth'',
      ''num_tx'', ''block_number'']"

definition save_statements :: "(string \<times> table \<times> dml) list" where
  "save_statements =
     [(''SaveSignedBuilderBid'', Signed_Bids, INSERT signed_bid_insert_columns None []),
      (''SaveBuilder'', Block_Builders, INSERT [''builder_pubkey'', ''description''] None []),
      (''SaveDataAPIPayloadDelivered'', Payloads_Delivered, INSERT payload_insert_columns None []),
      (''SaveDataAPIPayloadDeliveredBatch'', Payloads_Delivered, INSERT payload_insert_columns None []),
      (''SaveDataAPIBid'', Builder_Bids, INSERT bid_insert_columns None []),
      (''SaveDataAPIBids'', Builder_Bids, INSERT bid_insert_columns None []),
      (''SaveBuilderStats'', Inclusion_Stats, INSERT stats_insert_columns
         (Some [''type'', ''hours'', ''time_start'', ''time_end'', ''builder_name''])
         [''builder_pubkeys'', ''extra_data'', ''blocks_included''])]"

definition get_statements :: "(string \<times> table \<times> dml) list" where
  "get_statements =
     [(''GetDataAPILatestPayloadDelivered'', Payloads_Delivered, SELECT
         (claim_select @ [''extra_data'', ''slot_missed'', ''value_check_ok'', ''value_check_method'', ''value_delivered_wei'',
          ''value_delivered_eth'', ''value_delivered_diff_wei'', ''value_delivered_diff_eth'', ''block_coinbase_addr'',
          ''block_coinbase_is_proposer'', ''coinbase_diff_wei'', ''coinbase_diff_eth'', ''found_onchain'', ''notes''])
         [''relay'', ''slot''] payload_fields),
      (''GetDataAPILatestBid'', Builder_Bids, SELECT
         [''id'', ''inserted_at'', ''relay'', ''epoch'', ''slot'', ''parent_hash'', ''block_hash'', ''builder_pubkey'',
          ''proposer_pubkey'', ''proposer_fee_recipient'', ''gas_limit'', ''gas_used'', ''value'', ''num_tx'', ''block_number'',
          ''timestamp''] [''relay'', ''slot'', ''timestamp''] bid_fields),
      (''GetTopRelays'', Payloads_Delivered, SELECT [''relay''] [''value_check_ok'', ''slot''] [(''relay'', False), (''payloads'', False)]),
      (''GetTopBuilders'', Payloads_Delivered, SELECT [''extra_data''] [''slot'', ''value_check_ok'', ''relay'']
         [(''extra_data'', False), (''blocks'', False)]),
      (''GetBuilderProfits'', Payloads_Delivered, SELECT [''extra_data''] [''coinbase_diff_eth'', ''slot'', ''value_check_ok'']
         (map (\<lambda>c. (c, False)) [''extra_data'', ''blocks'', ''blocks_profit'', ''blocks_sub'', ''avg_profit_per_block'',
           ''median_profit_per_block'', ''total_profit'', ''total_subsidies''])),
      (''GetDeliveredPayloadsForSlot'', Payloads_Delivered, SELECT claim_select [''slot''] payload_fields),
      (''GetLatestDeliveredPayload'', Payloads_Delivered, SELECT claim_select [''value_check_ok'', ''slot''] payload_fields),
      (''GetDeliveredPayloadsForSlots'', Payloads_Delivered, SELECT (claim_select @ [''extra_data'']) [''slot''] payload_fields),
      (''GetSignedBuilderBidsForSlot'', Signed_Bids, SELECT (''id'' # signed_bid_insert_columns) [''slot''] signed_bid_fields),
      (''GetLastDailyBuilderStatsEntry'', Inclusion_Stats, SELECT stats_insert_columns
         [''hours'', ''type'', ''time_end''] stats_fields),
      (''GetRecentPayloadsForExtraData'', Payloads_Delivered, SELECT [''slot'', ''extra_data'', ''inserted_at'', ''block_timestamp'']
         [''extra_data'', ''slot''] recent_fields)]"

definition check_statements :: "(string \<times> table \<times> dml) list" where
  "check_statements =
     [(''RunCheckPayloadValue'', Payloads_Delivered, SELECT claim_select
         [''slot'', ''value_check_ok'', ''slot_missed''] payload_fields),
      (''saveEntry'', Payloads_Delivered, UPDATE
         [''block_number'', ''extra_data'', ''slot_missed'', ''value_check_ok'', ''value_check_method'', ''value_delivered_wei'',
          ''value_delivered_eth'', ''value_delivered_diff_wei'', ''value_delivered_diff_eth'', ''block_coinbase_addr'',
          ''block_coinbase_is_proposer'', ''coinbase_diff_wei'', ''coinbase_diff_eth'', ''found_onchain'', ''num_blob_txs'',
          ''num_blobs'', ''block_timestamp''] [''slot''])]"

definition extradata_statements :: "(string \<times> table \<times> dml) list" where
  "extradata_statements =
     [(''backfillExtradataCmd'', Payloads_Delivered, SELECT claim_select [''slot'', ''extra_data''] payload_fields),
      (''startBackfillWorker'', Payloads_Delivered, UPDATE [''extra_data''] [''id''])]"

definition program_statements :: "(string \<times> table \<times> dml) list" where
  "program_statements = save_statements @ get_statements @ check_statements @ extradata_statements"

definition invalid_statements :: "string \<Rightarrow> nat \<Rightarrow> string list" where
  "invalid_statements b k = map fst (filter (\<lambda>(_, t, d). \<not> valid_dml (schema_version b k) (table_name b t) d) program_statements)"

section \<open>The statements fit the schema\<close>

text \<open>The columns and unique keys of each table; the primary key comes first.\<close>

definition table_columns :: "nat \<Rightarrow> table \<Rightarrow> column list" where
  "table_columns k t = (case t of
       Signed_Bids \<Rightarrow> signed_bid_columns
     | Payloads_Delivered \<Rightarrow> payload_table_columns @
         (if 2 \<le> k then [nullable ''num_blob_txs'' Int4, nullable ''num_blobs'' Int4] else []) @
         (if 4 \<le> k then [nullable ''block_timestamp'' Timestamp] else [])
     | Builder_Bids \<Rightarrow> bid_table_columns
     | Block_Builders \<Rightarrow> builder_columns
     | Inclusion_Stats \<Rightarrow> stats_columns)"

definition table_uniques :: "table \<Rightarrow> string list list" where
  "table_uniques t = [''id''] # (case t of
       Signed_Bids \<Rightarrow> [[''relay'', ''slot'', ''parent_hash'', ''block_hash'']]
     | Payloads_Delivered \<Rightarrow> [[''relay'', ''slot'', ''parent_hash'', ''block_hash'']]
     | Builder_Bids \<Rightarrow> [[''relay'', ''slot'', ''builder_pubkey'', ''parent_hash'', ''block_hash'']]
     | Block_Builders \<Rightarrow> [[''builder_pubkey'']]
     | Inclusion_Stats \<Rightarrow> [[''type'', ''hours'', ''time_start'', ''time_end'', ''builder_name'']])"

lemma columns_of_version: "0 < k \<Longrightarrow> columns_of (schema_version b k) (table_name b t) = table_columns k t"
  by (cases t) (simp_all add: columns_of_def schema_version_def schema_tables_def table_columns_def tables_apart)

lemma unique_on_version: "0 < k \<Longrightarrow> unique_on (schema_version b k) (table_name b t) = table_uniques t"
  by (cases t) (simp_all add: unique_on_def schema_version_def schema_tables_def tables_apart initialSchema_def migration003SQL_def
      signed_bid_schema_def payload_schema_def bid_schema_def stats_schema_def table_uniques_def Let_def)

lemma table_present: "table_name b t \<in> set (map fst (sc_tables (schema_version b k))) \<longleftrightarrow> 0 < k"
  by (cases t) (simp_all add: schema_version_def schema_tables_def empty_schema_def)

lemma ident_table_name: "length b \<le> 9 \<Longrightarrow> ident (table_name b t) = table_name b t"
  by (cases t) (simp_all add: ident_tables)

lemma valid_dml_version:
  "length b \<le> 9 \<Longrightarrow> 0 < k \<Longrightarrow>
   valid_dml (schema_version b k) (table_name b t) d = dml_fits (table_columns k t) (table_uniques t) d"
  by (simp add: valid_dml_def ident_table_name columns_of_version unique_on_version table_present del: set_map)

definition misfits :: "nat \<Rightarrow> (string \<times> table \<times> dml) list \<Rightarrow> string list" where
  "misfits k statements = map fst (filter (\<lambda>(_, t, d). \<not> dml_fits (table_columns k t) (table_uniques t) d) statements)"

lemma invalid_statements_misfits:
  "length b \<le> 9 \<Longrightarrow> 0 < k \<Longrightarrow> invalid_statements b k =
     misfits k save_statements @ misfits k get_statements @ misfits k check_statements @ misfits k extradata_statements"
  by (simp add: invalid_statements_def misfits_def valid_dml_version program_statements_def)

lemma misfits_save: "misfits 3 save_statements = []" "misfits 4 save_statements = []"
  by code_simp+

lemma misfits_get_3: "misfits 3 get_statements = [''GetRecentPayloadsForExtraData'']"
  by code_simp

lemma misfits_get_4: "misfits 4 get_statements = []"
  by code_simp

lemma misfits_check: "misfits 3 check_statements = [''saveEntry'']" "misfits 4 check_statements = []"
  by code_simp+

lemma misfits_extradata: "misfits 3 extradata_statements = []" "misfits 4 extradata_statements = []"
  by code_simp+

lemma invalid_on_empty: "invalid_statements b 0 = map fst program_statements"
proof -
  have "\<not> valid_dml (schema_version b 0) (table_name b t) d" for t d
    by (simp add: valid_dml_def schema_version_def empty_schema_def)
  then show ?thesis by (simp add: invalid_statements_def)
qed

text \<open>C22. Every statement of the program can run on the schema that the migrations end with: its tables and columns
  exist, the columns it omits have defaults or may be empty, the target of its conflict clause is a unique key, and no
  column that may be empty is read into a field that cannot be.  None runs before the first migration, and without the
  fourth one the check of payloads cannot save its results nor can the recent payloads of a builder be read.  The prefix
  of the tables has at most nine bytes.\<close>

theorem statements_fit_schema:
  assumes "length b \<le> 9"
  shows "invalid_statements b 4 = [] \<and>
    invalid_statements b 3 = [''GetRecentPayloadsForExtraData'', ''saveEntry''] \<and>
    invalid_statements b 0 = map fst program_statements"
  using assms
  by (simp add: invalid_statements_misfits invalid_on_empty misfits_save misfits_get_3 misfits_get_4 misfits_check misfits_extradata)

theorem statements_fit_schema_witness:
  "invalid_statements ''rsdev'' 4 = [] \<and> invalid_statements ''rsdev'' 0 \<noteq> []"
  using statements_fit_schema [of "''rsdev''"] by (simp add: program_statements_def save_statements_def)

text \<open>With a prefix of 36 bytes or more the names of the indexes on the payloads are cut to the name of the table.  Then
  the name is taken, every one of them is skipped, and no key but the identity is unique.\<close>

lemma ident_append: "63 \<le> length t \<Longrightarrow> ident (t @ s) = ident t"
  by (simp add: ident_def)

lemma payload_indexes:
  "\<forall>s \<in> set (tl (payload_schema t)). \<exists>u x cols. s = CREATE_INDEX u (t @ x) t cols \<and> set cols \<subseteq> set (map co_name payload_table_columns)"
  by (simp add: payload_schema_def payload_table_columns_def) blast

lemma skipped_indexes:
  assumes "63 \<le> length t" "\<forall>s \<in> set ss. \<exists>u x cols. s = CREATE_INDEX u (t @ x) t cols \<and> set cols \<subseteq> set (map co_name columns)"
    and "map_of (sc_tables sc) (ident t) = Some (columns, us)"
  shows "run_ddl ss sc = Some sc"
  using assms(2)
proof (induction ss)
  case (Cons s ss)
  then obtain u x cols where s: "s = CREATE_INDEX u (t @ x) t cols" "set cols \<subseteq> set (map co_name columns)" by auto
  have "ident t \<in> set (relations sc)" using map_of_SomeD [OF assms(3)] by (force simp: relations_def image_iff)
  then have "exec_ddl s sc = Some sc" using s assms(1,3) by (auto simp: ident_append list_all_iff)
  with Cons show ?case by simp
qed simp

lemma long_prefix_no_unique_index:
  assumes "36 \<le> length b" "ident (TableDataAPIPayloadDelivered b) \<notin> set (relations sc)"
    and "\<forall>(_, t, _, u) \<in> set (sc_indexes sc). t = ident (TableDataAPIPayloadDelivered b) \<longrightarrow> \<not> u"
  shows "\<exists>sc'. run_ddl (payload_schema (TableDataAPIPayloadDelivered b)) sc = Some sc' \<and>
    unique_on sc' (ident (TableDataAPIPayloadDelivered b)) = [[''id'']]"
proof -
  let ?t = "TableDataAPIPayloadDelivered b"
  let ?sc = "sc\<lparr>sc_tables := sc_tables sc @ [(ident ?t, payload_table_columns, [[''id'']])]\<rparr>"
  have len: "63 \<le> length ?t" using assms(1) by (simp add: table_names)
  have "map_of (sc_tables sc) (ident ?t) = None" using assms(2) by (auto simp: relations_def map_of_eq_None_iff)
  then have table: "map_of (sc_tables ?sc) (ident ?t) = Some (payload_table_columns, [[''id'']])" by (simp add: map_add_def)
  have "exec_ddl (CREATE_TABLE ?t payload_table_columns [[''id'']]) sc = Some ?sc" using assms(2) columns_distinct(2) by simp
  then have "run_ddl (payload_schema ?t) sc = Some ?sc"
    using skipped_indexes [OF len payload_indexes table] schema_heads(2) [of ?t] by (metis run_ddl.simps(2) option.simps(5))
  moreover have "unique_on ?sc (ident ?t) = [[''id'']]"
    using table assms(3) by (auto simp: unique_on_def filter_empty_conv)
  ultimately show ?thesis by blast
qed

end
