(* ===== verification/StoredRows.thy ===== *)
theory StoredRows
  imports SchemaStatements Backfill
begin

text \<open>
  Which rows the payload table takes.  A relay's answer goes into the database as it came, so the lengths and ranges of
  the columns decide whether a page can be saved; and the amount in ether goes through the text of a float into a column
  of eight decimals.
\<close>

section \<open>Arguments and columns\<close>

text \<open>An argument of a statement: the driver refuses an unsigned integer with its high bit set.\<close>

datatype sql_arg = Arg_Uint u64 | Arg_Int i64 | Arg_Text string | Arg_Null

text \<open>Text is UTF-8 without the zero byte; its characters are the bytes that continue none.  A text that is too long is
  taken when the excess is blanks.\<close>

definition text_ok :: "string \<Rightarrow> bool" where
  "text_ok s \<longleftrightarrow> utf8_Valid (map (\<lambda>c. word_of_nat (of_char c)) s) \<and> CHR 0x00 \<notin> set s"

definition code_points :: "string \<Rightarrow> nat" where
  "code_points s = length (filter (\<lambda>c. \<not> utf8_cont (word_of_nat (of_char c))) s)"

definition rstrip :: "string \<Rightarrow> string" where
  "rstrip s = rev (dropWhile (\<lambda>c. c = CHR '' '') (rev s))"

text \<open>A decimal number in a column of \<open>s\<close> decimals is rounded, half away from zero; the stored number is an integer
  multiple of the last decimal's unit.  \<open>None\<close> is no decimal number, or one of an exponent beyond a thousand.\<close>

definition half_away :: "nat \<Rightarrow> int \<Rightarrow> nat" where
  "half_away m e = (if 0 \<le> e then m * 10 ^ nat e else (2 * m + 10 ^ nat (- e)) div (2 * 10 ^ nat (- e)))"

definition numeric_value :: "nat \<Rightarrow> string \<Rightarrow> int option" where
  "numeric_value s t =
     (case decimal_parts t of
        None \<Rightarrow> None
      | Some (neg, m, e) \<Rightarrow>
          if \<bar>e\<bar> \<le> 1000 then Some ((if neg then - 1 else 1) * int (half_away m (e + int s))) else None)"

text \<open>\<open>other\<close> is what the server makes of the remaining texts in a numeric column.\<close>

definition storable :: "(nat \<Rightarrow> nat \<Rightarrow> string \<Rightarrow> bool) \<Rightarrow> column \<Rightarrow> sql_arg \<Rightarrow> bool" where
  "storable other c a =
     (case a of
        Arg_Null \<Rightarrow> \<not> co_NotNull c
      | Arg_Uint u \<Rightarrow> u < 2 ^ 63 \<and> (co_type c = Int4 \<longrightarrow> u < 2 ^ 31)
      | Arg_Int i \<Rightarrow> co_type c = Int4 \<longrightarrow> - (2 ^ 31) \<le> sint i \<and> sint i < 2 ^ 31
      | Arg_Text t \<Rightarrow>
          (case co_type c of
             Varchar n \<Rightarrow> text_ok t \<and> code_points (rstrip t) \<le> n
           | Numeric p s \<Rightarrow> (case numeric_value s t of Some v \<Rightarrow> \<bar>v\<bar> < 10 ^ p | None \<Rightarrow> other p s t)
           | _ \<Rightarrow> text_ok t))"

definition accepts_row ::
    "(nat \<Rightarrow> nat \<Rightarrow> string \<Rightarrow> bool) \<Rightarrow> column list \<Rightarrow> string list \<Rightarrow> sql_arg list \<Rightarrow> bool" where
  "accepts_row other columns cols args = list_all (\<lambda>c.
     case map_of (zip cols args) (co_name c) of
       Some a \<Rightarrow> storable other c a
     | None \<Rightarrow> co_NotNull c \<longrightarrow> co_filled c) columns"

definition null_arg :: "i64 option \<Rightarrow> sql_arg" where
  "null_arg x = (case x of None \<Rightarrow> Arg_Null | Some i \<Rightarrow> Arg_Int i)"

text \<open>The named arguments of the payload statements, in the order of \<^const>\<open>payload_insert_columns\<close>.\<close>

definition payload_args :: "DataAPIPayloadDeliveredEntry \<Rightarrow> sql_arg list" where
  "payload_args e =
     [Arg_Text (pd_Relay e), Arg_Uint (pd_Epoch e), Arg_Uint (pd_Slot e), Arg_Text (pd_ParentHash e), Arg_Text (pd_BlockHash e),
      Arg_Text (pd_BuilderPubkey e), Arg_Text (pd_ProposerPubkey e), Arg_Text (pd_ProposerFeeRecipient e),
      Arg_Uint (pd_GasLimit e), Arg_Uint (pd_GasUsed e), Arg_Text (pd_ValueClaimedWei e), Arg_Text (pd_ValueClaimedEth e),
      null_arg (pd_NumTx e), null_arg (pd_BlockNumber e), Arg_Text (pd_ExtraData e)]"

definition payload_accepted :: "(nat \<Rightarrow> nat \<Rightarrow> string \<Rightarrow> bool) \<Rightarrow> DataAPIPayloadDeliveredEntry \<Rightarrow> bool" where
  "payload_accepted other e = accepts_row other (table_columns 4 Payloads_Delivered) payload_insert_columns (payload_args e)"

text \<open>Each column of the statement meets the argument at its place.\<close>

lemma payload_accepted_conv:
  "payload_accepted other e \<longleftrightarrow>
     storable other (not_null ''relay'' TextType) (Arg_Text (pd_Relay e)) \<and>
     storable other (not_null ''epoch'' BigInt) (Arg_Uint (pd_Epoch e)) \<and>
     storable other (not_null ''slot'' BigInt) (Arg_Uint (pd_Slot e)) \<and>
     storable other (not_null ''parent_hash'' (Varchar 66)) (Arg_Text (pd_ParentHash e)) \<and>
     storable other (not_null ''block_hash'' (Varchar 66)) (Arg_Text (pd_BlockHash e)) \<and>
     storable other (not_null ''builder_pubkey'' (Varchar 98)) (Arg_Text (pd_BuilderPubkey e)) \<and>
     storable other (not_null ''proposer_pubkey'' (Varchar 98)) (Arg_Text (pd_ProposerPubkey e)) \<and>
     storable other (not_null ''proposer_fee_recipient'' (Varchar 42)) (Arg_Text (pd_ProposerFeeRecipient e)) \<and>
     storable other (not_null ''gas_limit'' BigInt) (Arg_Uint (pd_GasLimit e)) \<and>
     storable other (not_null ''gas_used'' BigInt) (Arg_Uint (pd_GasUsed e)) \<and>
     storable other (not_null ''value_claimed_wei'' (Numeric 48 0)) (Arg_Text (pd_ValueClaimedWei e)) \<and>
     storable other (not_null ''value_claimed_eth'' (Numeric 16 8)) (Arg_Text (pd_ValueClaimedEth e)) \<and>
     storable other (nullable ''num_tx'' Int4) (null_arg (pd_NumTx e)) \<and>
     storable other (nullable ''block_number'' BigInt) (null_arg (pd_BlockNumber e)) \<and>
     storable other (not_null ''extra_data'' TextType) (Arg_Text (pd_ExtraData e))"
  by (simp add: payload_accepted_def accepts_row_def table_columns_def payload_table_columns_def payload_insert_columns_def payload_args_def)

text \<open>The key by which saving skips a payload is the unique index of the table.\<close>

lemma payload_key_unique_index:
  "payload_key e = payload_key e' \<longleftrightarrow>
     list_all (\<lambda>c. map_of (zip payload_insert_columns (payload_args e)) c = map_of (zip payload_insert_columns (payload_args e')) c)
       (table_uniques Payloads_Delivered ! 1)"
  by (auto simp: payload_key_def table_uniques_def payload_insert_columns_def payload_args_def)

section \<open>Amounts\<close>

lemma decimal_parts_nat_str: "decimal_parts (nat_str n) = Some (False, n, 0)"
  using read_digits [of "nat_str n" "[]" False] nat_str_digits by simp

lemma numeric_value_nat_str: "numeric_value 0 (nat_str n) = Some (int n)"
  by (simp add: numeric_value_def decimal_parts_nat_str half_away_def)

lemma half_away_div_error:
  assumes "0 < d"
  shows "\<bar>real ((2 * m + d) div (2 * d)) - real m / real d\<bar> \<le> 1 / 2"
proof -
  define q where "q = (2 * m + d) div (2 * d)"
  have "q * (2 * d) \<le> 2 * m + d" by (simp add: q_def)
  moreover have "2 * m + d < (q + 1) * (2 * d)" using dividend_less_times_div [of "2 * d" "2 * m + d"] assms by (simp add: q_def algebra_simps)
  ultimately have "real (q * (2 * d)) \<le> real (2 * m + d)" "real (2 * m + d) < real ((q + 1) * (2 * d))"
    by (simp_all only: of_nat_le_iff of_nat_less_iff)
  then have "real q * real d * 2 \<le> 2 * real m + real d" "2 * real m + real d < 2 * real q * real d + 2 * real d"
    by (simp_all add: algebra_simps)
  then have "\<bar>real q * real d - real m\<bar> \<le> real d / 2" unfolding abs_le_iff by linarith
  moreover have "real q - real m / real d = (real q * real d - real m) / real d" using assms by (simp add: field_simps)
  ultimately show ?thesis using assms unfolding q_def [symmetric] by (simp add: abs_divide pos_divide_le_eq)
qed

lemma half_away_error: "\<bar>real (half_away m e) - real m * 10 powi e\<bar> \<le> 1 / 2"
proof (cases "0 \<le> e")
  case False
  then have "10 powi e = 1 / real (10 ^ nat (- e))" by (simp add: power_int_def power_one_over inverse_eq_divide)
  then show ?thesis using half_away_div_error [of "10 ^ nat (- e)" m] False by (simp add: half_away_def)
qed (simp add: half_away_def power_int_def)

text \<open>A real number in a column, close to a float that is written with \<^const>\<open>bf_String\<close>.\<close>

lemma bf_dexp_small:
  assumes "bf_mant x \<noteq> 0" "1 / 10 ^ 100 \<le> \<bar>bf_val x\<bar>" "\<bar>bf_val x\<bar> \<le> 10 ^ 100"
  shows "\<bar>bf_dexp x\<bar> \<le> 101"
proof -
  have "(10::real) powi (bf_dexp x - 1) \<le> 10 powi 100" using bf_dexp_bounds(1) [OF assms(1)] assms(3) by simp
  then have "bf_dexp x - 1 \<le> 100" using power_int_le_imp_le_exp [of "10::real"] by simp
  moreover have "(10::real) powi (- 100) < 10 powi bf_dexp x"
    using bf_dexp_bounds(2) [OF assms(1)] assms(2) by (simp add: power_int_minus_left power_int_minus)
  then have "- 100 < bf_dexp x" using power_int_increasing [of "bf_dexp x" "- 100" "10::real"] by linarith
  ultimately show ?thesis by simp
qed

lemma numeric_value_bf_String:
  assumes "bf_mant x \<noteq> 0" "1 / 10 ^ 100 \<le> \<bar>bf_val x\<bar>" "\<bar>bf_val x\<bar> \<le> 10 ^ 100"
  shows "\<exists>v. numeric_value s (bf_String x) = Some v \<and>
    \<bar>real_of_int v / 10 ^ s - bf_val x\<bar> \<le> 1 / (2 * 10 ^ s) + \<bar>bf_val x\<bar> / (2 * 10 ^ 9)"
proof -
  obtain m e where parts: "decimal_parts (bf_String x) = Some (bf_neg x, m, e)" "\<bar>e\<bar> \<le> \<bar>bf_dexp x\<bar> + 10"
    and near: "\<bar>real m * 10 powi e - \<bar>bf_val x\<bar>\<bar> \<le> \<bar>bf_val x\<bar> / (2 * 10 ^ 9)"
    using bf_String_accurate [OF assms(1)] by blast
  define n where "n = half_away m (e + int s)"
  have "(10::real) powi (e + int s) = 10 powi e * 10 ^ s" by (simp add: power_int_add)
  then have "\<bar>real n - real m * 10 powi e * 10 ^ s\<bar> \<le> 1 / 2" using half_away_error [of m "e + int s"] by (simp add: n_def mult.assoc)
  moreover have "real n / 10 ^ s - real m * 10 powi e = (real n - real m * 10 powi e * 10 ^ s) / 10 ^ s" by (simp add: field_simps)
  ultimately have "\<bar>real n / 10 ^ s - real m * 10 powi e\<bar> \<le> 1 / (2 * 10 ^ s)" by (simp add: abs_divide field_simps)
  with near have n: "\<bar>real n / 10 ^ s - \<bar>bf_val x\<bar>\<bar> \<le> 1 / (2 * 10 ^ s) + \<bar>bf_val x\<bar> / (2 * 10 ^ 9)" by linarith
  have sgn: "bf_val x = (if bf_neg x then - 1 else 1) * \<bar>bf_val x\<bar>" by (simp add: bf_val_def abs_mult)
  have "\<bar>e\<bar> \<le> 1000" using parts(2) bf_dexp_small [OF assms] by simp
  then have "numeric_value s (bf_String x) = Some ((if bf_neg x then - 1 else 1) * int n)" by (simp add: numeric_value_def parts(1) n_def)
  moreover have "\<bar>real_of_int ((if bf_neg x then - 1 else 1) * int n) / 10 ^ s - bf_val x\<bar> = \<bar>real n / 10 ^ s - \<bar>bf_val x\<bar>\<bar>"
    using sgn by (cases "bf_neg x") (simp_all add: abs_minus_commute)
  ultimately show ?thesis using n by auto
qed

lemma near_trans:
  fixes v :: real
  assumes "\<bar>v - b\<bar> \<le> h + \<bar>b\<bar> / (2 * 10 ^ 9)" "\<bar>b - r\<bar> \<le> \<bar>r\<bar> / 10 ^ 10"
  shows "\<bar>v - r\<bar> \<le> h + \<bar>r\<bar> / 10 ^ 9"
proof -
  have p: "(10 :: real) ^ 9 = 1000000000" "(10 :: real) ^ 10 = 10000000000" by simp_all
  show ?thesis using assms unfolding p by linarith
qed

lemma WeiToEth_zero: "bf_String (WeiToEth 0) = ''0''"
  by (simp add: WeiToEth_def bf_SetString_int_str round_quot_def bf_quo_def bf_String_def Let_def)

lemma stored_eth:
  assumes "\<bar>wei\<bar> \<le> 99999999 * 10 ^ 18"
  shows "\<exists>v. numeric_value 8 (bf_String (WeiToEth wei)) = Some v \<and> \<bar>v\<bar> < 10 ^ 16 \<and>
    \<bar>real_of_int v / 10 ^ 8 - real_of_int wei / 10 ^ 18\<bar> \<le> 1 / (2 * 10 ^ 8) + \<bar>real_of_int wei / 10 ^ 18\<bar> / 10 ^ 9"
proof (cases "wei = 0")
  case True
  have "''0'' = nat_str 0" by (simp add: nat_str_eval)
  then have "numeric_value 8 ''0'' = Some 0" by (simp add: numeric_value_def decimal_parts_nat_str half_away_def)
  then show ?thesis using True by (simp add: WeiToEth_zero)
next
  case False
  define x where "x = WeiToEth wei"
  define r where "r = real_of_int wei / 10 ^ 18"
  have near: "\<bar>bf_val x - r\<bar> \<le> \<bar>r\<bar> * (3 / 2 ^ 64)" using WeiToEth_accurate [of wei] by (simp add: x_def r_def)
  moreover have "\<bar>r\<bar> * (3 / 2 ^ 64) \<le> \<bar>r\<bar> * (1 / 10 ^ 10)" by (rule mult_left_mono) simp_all
  ultimately have x: "\<bar>bf_val x - r\<bar> \<le> \<bar>r\<bar> / 10 ^ 10" by simp
  have "1 \<le> \<bar>real_of_int wei\<bar>" using False by linarith
  then have r: "1 / 10 ^ 18 \<le> \<bar>r\<bar>" by (simp add: r_def divide_right_mono)
  have "real_of_int \<bar>wei\<bar> \<le> real_of_int (99999999 * 10 ^ 18)" using assms by (simp only: of_int_le_iff)
  then have r': "\<bar>r\<bar> \<le> 99999999" by (simp add: r_def)
  have size: "1 / 10 ^ 100 \<le> \<bar>bf_val x\<bar>" "\<bar>bf_val x\<bar> \<le> 10 ^ 100"
  proof -
    have "\<bar>r\<bar> / 10 ^ 10 \<le> \<bar>r\<bar> / 2" by simp
    have "\<bar>r\<bar> / 2 \<le> \<bar>bf_val x\<bar>" "\<bar>bf_val x\<bar> \<le> 2 * \<bar>r\<bar>" using x \<open>\<bar>r\<bar> / 10 ^ 10 \<le> \<bar>r\<bar> / 2\<close> by linarith+
    have "1 / 10 ^ 100 \<le> 1 / (10 :: real) ^ 18 / 2" by simp
    also have "\<dots> \<le> \<bar>r\<bar> / 2" using r by (rule divide_right_mono) simp
    also note \<open>\<bar>r\<bar> / 2 \<le> \<bar>bf_val x\<bar>\<close>
    finally show "1 / 10 ^ 100 \<le> \<bar>bf_val x\<bar>" .
    show "\<bar>bf_val x\<bar> \<le> 10 ^ 100" using \<open>\<bar>bf_val x\<bar> \<le> 2 * \<bar>r\<bar>\<close> r' by simp
  qed
  have "bf_mant x \<noteq> 0"
  proof
    assume "bf_mant x = 0"
    then have "bf_val x = 0" by (simp add: bf_val_def)
    with size show False by simp
  qed
  from numeric_value_bf_String [OF this size, of 8] obtain v where v: "numeric_value 8 (bf_String x) = Some v"
    and v_near: "\<bar>real_of_int v / 10 ^ 8 - bf_val x\<bar> \<le> 1 / (2 * 10 ^ 8) + \<bar>bf_val x\<bar> / (2 * 10 ^ 9)" by blast
  note err = near_trans [OF v_near x]
  moreover have "1 / (2 * 10 ^ 8) \<le> 1 / (2 :: real)" "(10 :: real) ^ 8 = 100000000" by simp_all
  moreover have "\<bar>r\<bar> / 10 ^ 9 \<le> 1 / 10" using r' by simp
  ultimately have "\<bar>real_of_int v / 10 ^ 8\<bar> < 10 ^ 8" using r' by linarith
  then have "real_of_int \<bar>v\<bar> < real_of_int (10 ^ 16)" by simp
  then have "\<bar>v\<bar> < 10 ^ 16" by (simp only: of_int_less_iff)
  with v err show ?thesis unfolding x_def r_def by blast
qed

text \<open>C24. What the database holds as an amount in ether: the wei a relay claims, divided by ten to the eighteen, printed
  with ten significant digits and rounded to the eight decimals of the column.  Below a hundred million ether the amount
  fits its column and is right to half a unit of the last decimal and one part in a thousand million.\<close>

theorem stored_eth_accurate:
  assumes "\<bar>wei\<bar> \<le> 99999999 * 10 ^ 18"
  shows "\<exists>v. numeric_value 8 (bf_String (WeiToEth wei)) = Some v \<and> \<bar>v\<bar> < 10 ^ 16 \<and>
    \<bar>real_of_int v / 10 ^ 8 - real_of_int wei / 10 ^ 18\<bar> \<le> 1 / (2 * 10 ^ 8) + \<bar>real_of_int wei / 10 ^ 18\<bar> / 10 ^ 9"
  using assms by (rule stored_eth)

theorem stored_eth_accurate_witness:
  "\<exists>v. numeric_value 8 (bf_String (WeiToEth 1234567890123456789)) = Some v \<and> \<bar>v\<bar> < 10 ^ 16"
  using stored_eth_accurate [of 1234567890123456789] by auto

section \<open>Payloads that the table takes\<close>

text \<open>Visible characters only, as in the hashes, keys and addresses of a well-formed answer.\<close>

definition visible :: "string \<Rightarrow> bool" where
  "visible s \<longleftrightarrow> list_all (\<lambda>c. 32 < (of_char c :: nat) \<and> (of_char c :: nat) < 127) s"

lemma ascii_byte: "(of_char c :: nat) < 127 \<Longrightarrow> (word_of_nat (of_char c) :: byte) < 0x80"
  by (simp add: word_less_nat_alt unat_of_nat take_bit_nat_eq_self)

lemma visible_text:
  assumes "visible s"
  shows "text_ok s" "code_points s = length s" "rstrip s = s"
proof -
  have bytes: "\<forall>c \<in> set s. (word_of_nat (of_char c) :: byte) < 0x80" using assms ascii_byte by (auto simp: visible_def list_all_iff)
  have "CHR 0x00 \<notin> set s" using assms by (auto simp: visible_def list_all_iff)
  then show "text_ok s" using bytes by (simp add: text_ok_def utf8_Valid_ascii)
  have "\<not> utf8_cont (word_of_nat (of_char c))" if "c \<in> set s" for c
    using bytes that by (auto simp: utf8_cont_def)
  then show "code_points s = length s" by (simp add: code_points_def)
  have "CHR '' '' \<notin> set s" using assms by (auto simp: visible_def list_all_iff)
  then show "rstrip s = s" by (cases s rule: rev_cases) (auto simp: rstrip_def)
qed

lemma storable_visible: "visible s \<Longrightarrow> storable other (not_null n (Varchar k)) (Arg_Text s) \<longleftrightarrow> length s \<le> k"
  by (simp add: storable_def visible_text)

lemma text_ok_Nil: "text_ok []"
  by (simp add: text_ok_def)

lemma epoch_small: "(s :: u64) div 32 < 2 ^ 63"
proof -
  have "unat s < 2 ^ 64" using unsigned_less [of s, where ?'a = nat] by simp
  then show ?thesis by (simp add: word_less_nat_alt unat_div less_mult_imp_div_less)
qed



section \<open>A malformed answer\<close>

text \<open>A server that refuses every statement with a row that its table does not take.\<close>

definition server_checks :: "(nat \<Rightarrow> nat \<Rightarrow> string \<Rightarrow> bool) \<Rightarrow> DataAPIPayloadDeliveredEntry list \<Rightarrow> (nat \<Rightarrow> sql_error option) \<Rightarrow> bool" where
  "server_checks other entries fault \<longleftrightarrow>
     (\<forall>i. (\<exists>e \<in> set (take payload_batch (drop i entries)). \<not> payload_accepted other e) \<longrightarrow> fault i \<noteq> None)"

lemma refused_batch:
  assumes "server_checks other entries fault" "e \<in> set entries" "\<not> payload_accepted other e" "length entries \<le> payload_batch"
  shows "\<exists>x. SaveDataAPIPayloadDeliveredBatch fault now entries db = (db, 0, Some x)"
proof -
  have "take payload_batch (drop 0 entries) = entries" using assms(4) by simp
  then have "fault 0 \<noteq> None" using assms(1-3) by (metis server_checks_def)
  moreover have "entries \<noteq> []" using assms(2) by auto
  moreover have "length entries * payload_columns \<le> max_parameters"
    using assms(4) by (simp add: payload_batch_def payload_columns_def max_parameters_def)
  ultimately show ?thesis using assms(4)
    by (auto simp: SaveDataAPIPayloadDeliveredBatch_def save_payload_chunks.simps [of _ _ _ 0] exec_payload_insert_def Let_def)
qed

lemma sql_Get_ok: "\<exists>r err. sql_Get zero None rows = (r, err) \<and> (err = None \<or> err = Some ErrNoRows)"
  by (cases rows) (simp_all add: sql_Get_def)


definition example_malformed :: BidTraceV2 where
  "example_malformed = example_trace 9\<lparr>bv_BlockHash := replicate 67 (CHR ''0'')\<rparr>"


end
