(* ===== verification/DevRouter.thy ===== *)
theory DevRouter
  imports DevServer MuxRouter
begin

text \<open>
  The router of the development server (\<open>services/bidcollect/website/devserver.go\<close>) and the pages that its paths lead to.
\<close>

section \<open>Routes and handlers\<close>

datatype dev_handler = DevStatic | DevRoot | DevMonth

definition dev_getRouter :: "dev_handler route list" where
  "dev_getRouter =
     [HandleFunc (PathPrefix ''/static/'') DevStatic,
      HandleGet (FixedPath ''/'') DevRoot,
      HandleGet (FixedPath ''/index.html'') DevRoot,
      HandleGet (VarPath ''month'' path_segment ''/ethereum/mainnet/'' ''/index.html'') DevMonth]"

text \<open>The two templates as the files on disk give them, and the file server.\<close>

record dev_inputs =
  di_ParseIndexTemplate :: template
  di_ParseFilesTemplate :: template
  di_FileServer :: "string \<Rightarrow> response"

definition dev_handle :: "dev_inputs \<Rightarrow> dev_handler \<Rightarrow> (string \<rightharpoonup> string) \<Rightarrow> string \<Rightarrow> response" where
  "dev_handle inp h vars path =
     (case h of
        DevStatic \<Rightarrow> di_FileServer inp (drop (length ''/static/'') path)
      | DevRoot \<Rightarrow> handleRoot (di_ParseIndexTemplate inp) fresh_response
      | DevMonth \<Rightarrow> handleMonth (di_ParseFilesTemplate inp) (case vars ''month'' of None \<Rightarrow> [] | Some m \<Rightarrow> m) fresh_response)"

definition dev_serve ::
    "(dev_handler route list \<Rightarrow> string \<Rightarrow> string \<Rightarrow> dev_handler routed) \<Rightarrow> dev_inputs \<Rightarrow> string \<Rightarrow> string \<Rightarrow> response" where
  "dev_serve mux inp meth path =
     (case mux dev_getRouter meth path of
        Routed h vars \<Rightarrow> dev_handle inp h vars path
      | MethodNotAllowed \<Rightarrow> net_WriteHeader 405 fresh_response
      | NotFound \<Rightarrow> net_Write (PageText (''404 page not found'' @ [CHR 0x0A])) (net_WriteHeader 404 fresh_response))"

section \<open>Which page a path shows\<close>

definition dev_month_path :: "string \<Rightarrow> string" where
  "dev_month_path month = ''/ethereum/mainnet/'' @ month @ ''/index.html''"

lemma dev_month_path_inject [simp]: "dev_month_path a = dev_month_path b \<longleftrightarrow> a = b"
  by (simp add: dev_month_path_def)

lemma dev_month_path_apart: "dev_month_path a \<noteq> ''/''" "dev_month_path a \<noteq> ''/index.html''" "\<not> strings_HasPrefix (dev_month_path a) ''/static/''"
  by (simp_all add: dev_month_path_def strings_HasPrefix_def)

lemma year_month_segment: "path_segment (year_month y m)"
  using append_int_all_digits [of y 4] append_int_all_digits [of m 2]
  by (auto simp: path_segment_def year_month_def all_digits_def is_digit_def)

lemma dev_mux:
  assumes "mux_documented mux" "\<not> strings_HasPrefix path ''/static/''"
  shows "mux dev_getRouter ''GET'' path =
    (if path = ''/'' \<or> path = ''/index.html'' then Routed DevRoot Map.empty
     else if \<exists>s. path_segment s \<and> path = dev_month_path s
       then Routed DevMonth [''month'' \<mapsto> (THE s. path = dev_month_path s)] else NotFound)"
proof -
  have "\<forall>r \<in> set dev_getRouter. accepts_method r ''GET''" by (simp add: dev_getRouter_def accepts_method_def)
  note first = mux_first [OF assms(1) this, of path]
  consider (root) "path = ''/'' \<or> path = ''/index.html''"
    | (month) s where "path_segment s" "path = dev_month_path s" "path \<noteq> ''/''" "path \<noteq> ''/index.html''"
    | (none) "path \<noteq> ''/''" "path \<noteq> ''/index.html''" "\<nexists>s. path_segment s \<and> path = dev_month_path s" by blast
  then show ?thesis
  proof cases
    case root
    then show ?thesis unfolding first using assms(2) by (auto simp: dev_getRouter_def)
  next
    case (month s)
    have "path_vars (VarPath ''month'' path_segment ''/ethereum/mainnet/'' ''/index.html'') path = Some [''month'' \<mapsto> s]"
      unfolding var_path_iff using month by (auto simp: dev_month_path_def)
    then show ?thesis unfolding first using assms(2) month
      by (auto simp: dev_getRouter_def simp del: path_vars.simps(3))
  next
    case none
    have "path_vars (VarPath ''month'' path_segment ''/ethereum/mainnet/'' ''/index.html'') path = None"
      unfolding var_path_none using none(3) by (auto simp: dev_month_path_def)
    then show ?thesis unfolding first using assms(2) none
      by (auto simp: dev_getRouter_def simp del: path_vars.simps(3))
  qed
qed

text \<open>Outside the static files, a development server whose templates parse shows the index at \<open>/\<close> and
  \<open>/index.html\<close> and the file listing at the path of every month that can be printed with four and two digits; it calls
  any other name in the place of the month a bad request, and knows no other path.\<close>

theorem dev_pages:
  assumes "mux_documented mux" "\<not> strings_HasPrefix path ''/static/''"
    and "di_ParseIndexTemplate inp = Inr index" "di_ParseFilesTemplate inp = Inr files"
  shows "rs_code (dev_serve mux inp ''GET'' path) =
    (if path = ''/'' \<or> path = ''/index.html'' \<or> (\<exists>y m. y < 10000 \<and> 1 \<le> m \<and> m \<le> 12 \<and> path = dev_month_path (year_month y m)) then Some 200
     else if \<exists>s. path_segment s \<and> path = dev_month_path s then Some 400 else Some 404)"
proof -
  have code: "rs_code (handleMonth (Inr files) s fresh_response) = (case parse_YearMonth s of None \<Rightarrow> Some 400 | Some _ \<Rightarrow> Some 200)" for s
    by (simp add: handleMonth_def DevServer.RespondError_def execute_into_def net_Write_def net_WriteHeader_def fresh_response_def Let_def split: option.splits)
  have parsed: "parse_YearMonth s \<noteq> None \<longleftrightarrow> (\<exists>y m. y < 10000 \<and> 1 \<le> m \<and> m \<le> 12 \<and> s = year_month y m)" for s
    by (simp only: not_None_eq split_paired_Ex parse_YearMonth_iff)
  consider (root) "path = ''/'' \<or> path = ''/index.html''"
    | (month) s where "path_segment s" "path = dev_month_path s"
    | (none) "path \<noteq> ''/''" "path \<noteq> ''/index.html''" "\<nexists>s. path_segment s \<and> path = dev_month_path s" by blast
  then show ?thesis
  proof cases
    case root
    then show ?thesis using dev_mux [OF assms(1,2)] assms(3)
      by (auto simp: dev_serve_def dev_handle_def DevServer.handleRoot_def execute_into_def net_Write_def net_WriteHeader_def fresh_response_def Let_def)
  next
    case (month s)
    have "(THE s'. path = dev_month_path s') = s" using month(2) by auto
    then have "mux dev_getRouter ''GET'' path = Routed DevMonth [''month'' \<mapsto> s]"
      using dev_mux [OF assms(1,2)] month dev_month_path_apart by auto
    then have "rs_code (dev_serve mux inp ''GET'' path) = (case parse_YearMonth s of None \<Rightarrow> Some 400 | Some _ \<Rightarrow> Some 200)"
      by (simp add: dev_serve_def dev_handle_def assms(4) code)
    then show ?thesis using month dev_month_path_apart parsed [of s] by (cases "parse_YearMonth s") auto
  next
    case none
    then have "\<nexists>y m. path = dev_month_path (year_month y m)" using year_month_segment by blast
    with none show ?thesis using dev_mux [OF assms(1,2)]
      by (auto simp: dev_serve_def net_Write_def net_WriteHeader_def fresh_response_def Let_def)
  qed
qed

theorem dev_pages_witness:
  "rs_code (dev_serve first_match
     \<lparr>di_ParseIndexTemplate = Inr (\<lambda>_. ([], None)), di_ParseFilesTemplate = Inr (\<lambda>_. ([], None)), di_FileServer = (\<lambda>_. fresh_response)\<rparr>
     ''GET'' (dev_month_path (year_month 2023 8))) = Some 200"
proof -
  have "\<exists>y m. y < 10000 \<and> 1 \<le> m \<and> m \<le> 12 \<and> dev_month_path (year_month 2023 8) = dev_month_path (year_month y m)"
    by (intro exI [of _ 2023] exI [of _ 8]) simp
  then show ?thesis using dev_month_path_apart by (subst dev_pages [OF first_match_documented]) simp_all
qed

section \<open>The process\<close>

text \<open>\<open>fileListingDevServer\<close> of \<open>cmd/service/bidcollect.go\<close>: whether it returns; else the process ends with an error.\<close>

definition fileListingDevServer :: "(string \<Rightarrow> server_error) \<Rightarrow> string \<Rightarrow> bool" where
  "fileListingDevServer ListenAndServe devServerListenAddr =
     (case StartServer ListenAndServe (NewDevWebserver devServerListenAddr) of (_, err) \<Rightarrow> err = None)"

lemma fileListingDevServer_returns: "fileListingDevServer ListenAndServe addr \<longleftrightarrow> ListenAndServe addr = ErrServerClosed"
  by (simp add: fileListingDevServer_def StartServer_def NewDevWebserver_def split: server_error.split)

end
