(* ===== verification/SseRouter.thy ===== *)
theory SseRouter
  imports SseServer MuxRouter
begin

text \<open>
  How a subscriber reaches the stream: \<open>New\<close> of \<open>services/bidcollect/webserver/webserver.go\<close> with its one route, and what
  the answer to a request starts with.
\<close>

record HTTPServerConfig =
  hc_ListenAddr :: string
  hc_RedisAddr :: string

datatype sse_handler = HandleSSESubscription

text \<open>A server with its router and the address it listens on.\<close>

record sse_server =
  ss_cfg :: HTTPServerConfig
  ss_Server :: Server
  ss_router :: "sse_handler route list"
  ss_Addr :: string

definition sse_New :: "HTTPServerConfig \<Rightarrow> sse_server" where
  "sse_New cfg = \<lparr>ss_cfg = cfg, ss_Server = New_Server,
     ss_router = [HandleGet (FixedPath ''/v1/sse/bids'') HandleSSESubscription], ss_Addr = hc_ListenAddr cfg\<rparr>"

definition sse_headers :: "(string \<times> string) list" where
  "sse_headers =
     [(''Access-Control-Allow-Origin'', ''*''), (''Access-Control-Expose-Headers'', ''Content-Type''),
      (''Content-Type'', ''text/event-stream''), (''Cache-Control'', ''no-cache''), (''Connection'', ''keep-alive'')]"

text \<open>The start of an answer: a stream with its headers and the bytes it begins with, or a status.\<close>

datatype sse_answer = Stream "(string \<times> string) list" string | Status nat

definition sse_serve ::
    "(sse_handler route list \<Rightarrow> string \<Rightarrow> string \<Rightarrow> sse_handler routed) \<Rightarrow> string \<Rightarrow> string \<Rightarrow> string \<Rightarrow> sse_server \<Rightarrow>
     sse_server \<times> sse_answer" where
  "sse_serve mux uid meth path srv =
     (case mux (ss_router srv) meth path of
        Routed HandleSSESubscription _ \<Rightarrow> (srv\<lparr>ss_Server := addSubscriber uid (ss_Server srv)\<rparr>, Stream sse_headers helloMsg)
      | MethodNotAllowed \<Rightarrow> (srv, Status 405)
      | NotFound \<Rightarrow> (srv, Status 404))"

definition sse_requests ::
    "(sse_handler route list \<Rightarrow> string \<Rightarrow> string \<Rightarrow> sse_handler routed) \<Rightarrow> (string \<times> string \<times> string) list \<Rightarrow> sse_server \<Rightarrow> sse_server" where
  "sse_requests mux reqs srv = fold (\<lambda>(uid, meth, path) srv. fst (sse_serve mux uid meth path srv)) reqs srv"

lemma sse_mux:
  assumes "mux_documented mux"
  shows "mux [HandleGet (FixedPath ''/v1/sse/bids'') HandleSSESubscription] meth path =
    (if path \<noteq> ''/v1/sse/bids'' then NotFound else if meth = ''GET'' then Routed HandleSSESubscription Map.empty else MethodNotAllowed)"
proof -
  let ?r = "HandleGet (FixedPath ''/v1/sse/bids'') HandleSSESubscription"
  have "mux ([] @ ?r # []) meth path = Routed (rt_handler ?r) Map.empty" if "path = ''/v1/sse/bids''" "meth = ''GET''"
    using that by (intro mux_routed [OF assms]) (simp_all add: accepts_method_def)
  moreover have "mux [?r] meth path = NotFound" if "path \<noteq> ''/v1/sse/bids''"
    using assms that by (simp add: mux_documented_def)
  moreover have "mux [?r] meth path = MethodNotAllowed" if "path = ''/v1/sse/bids''" "meth \<noteq> ''GET''"
    using assms that by (simp add: mux_documented_def accepts_method_def)
  ultimately show ?thesis by simp
qed

text \<open>Whatever is requested, the subscribers are those who sent a \<open>GET\<close> for the stream; each of them has been written the
  header of the stream and waits for the bids that are published from then on.\<close>

theorem sse_subscribers:
  assumes "mux_documented mux"
  shows "sseConnectionMap (ss_Server (sse_requests mux reqs (sse_New cfg))) uid =
    (if (uid, ''GET'', ''/v1/sse/bids'') \<in> set reqs then Some \<lparr>msgC = [], written = helloMsg, since = [], delivered = []\<rparr> else None)"
proof -
  have "ss_router (sse_requests mux reqs (sse_New cfg)) = [HandleGet (FixedPath ''/v1/sse/bids'') HandleSSESubscription] \<and>
    sseConnectionMap (ss_Server (sse_requests mux reqs (sse_New cfg))) uid =
      (if (uid, ''GET'', ''/v1/sse/bids'') \<in> set reqs then Some \<lparr>msgC = [], written = helloMsg, since = [], delivered = []\<rparr> else None)"
  proof (induction reqs rule: rev_induct)
    case Nil
    then show ?case by (simp add: sse_requests_def sse_New_def New_Server_def)
  next
    case (snoc req reqs)
    obtain u meth path where req: "req = (u, meth, path)" by (metis prod_cases3)
    show ?case using snoc by (auto simp: req sse_requests_def sse_serve_def sse_mux [OF assms] addSubscriber_def)
  qed
  then show ?thesis by blast
qed

theorem sse_subscribers_witness:
  "sseConnectionMap (ss_Server (sse_requests first_match [(''a'', ''GET'', ''/v1/sse/bids''), (''b'', ''POST'', ''/v1/sse/bids'')] (sse_New cfg))) ''b'' = None"
  by (simp add: sse_subscribers [OF first_match_documented])

section \<open>The process\<close>

text \<open>\<open>MustStart\<close>: one goroutine subscribes to Redis, the main one serves requests.  Without an address or an answer of
  Redis the process ends with a fatal error; when the HTTP server ends, for whatever reason, the process returns.\<close>

datatype redis_state = Redis_Connecting | Redis_Subscribed | Redis_Closed

datatype process_end = Process_Fatal | Process_Returned

record sse_process =
  sp_srv :: sse_server
  sp_redis :: redis_state
  sp_end :: "process_end option"

definition sse_MustStart :: "HTTPServerConfig \<Rightarrow> sse_process" where
  "sse_MustStart cfg = \<lparr>sp_srv = sse_New cfg, sp_redis = Redis_Connecting, sp_end = None\<rparr>"

definition on_Server :: "(Server \<Rightarrow> Server) \<Rightarrow> sse_process \<Rightarrow> sse_process" where
  "on_Server f p = p\<lparr>sp_srv := (sp_srv p)\<lparr>ss_Server := f (ss_Server (sp_srv p))\<rparr>\<rparr>"

inductive sse_process_step ::
    "(sse_handler route list \<Rightarrow> string \<Rightarrow> string \<Rightarrow> sse_handler routed) \<Rightarrow> sse_process \<Rightarrow> sse_process \<Rightarrow> bool" for mux where
  request: "sp_end p = None \<Longrightarrow> sseConnectionMap (ss_Server (sp_srv p)) uid = None \<Longrightarrow> closed (ss_Server (sp_srv p)) uid = None \<Longrightarrow>
    sse_process_step mux p (p\<lparr>sp_srv := fst (sse_serve mux uid meth path (sp_srv p))\<rparr>)"
| subscribed: "sp_end p = None \<Longrightarrow> sp_redis p = Redis_Connecting \<Longrightarrow> hc_RedisAddr (ss_cfg (sp_srv p)) \<noteq> [] \<Longrightarrow>
    sse_process_step mux p (p\<lparr>sp_redis := Redis_Subscribed\<rparr>)"
| redis_failed: "sp_end p = None \<Longrightarrow> sp_redis p = Redis_Connecting \<Longrightarrow> sse_process_step mux p (p\<lparr>sp_end := Some Process_Fatal\<rparr>)"
| message: "sp_end p = None \<Longrightarrow> sp_redis p = Redis_Subscribed \<Longrightarrow> sse_process_step mux p (on_Server (SendToSubscribers msg) p)"
| redis_closed: "sp_end p = None \<Longrightarrow> sp_redis p = Redis_Subscribed \<Longrightarrow> sse_process_step mux p (p\<lparr>sp_redis := Redis_Closed\<rparr>)"
| written_out: "sp_end p = None \<Longrightarrow> sse_process_step mux p (on_Server (deliver uid) p)"
| request_done: "sp_end p = None \<Longrightarrow> sse_process_step mux p (on_Server (removeSubscriber uid) p)"
| http_ended: "sp_end p = None \<Longrightarrow> sse_process_step mux p (p\<lparr>sp_end := Some Process_Returned\<rparr>)"

text \<open>The process refines the steps of the subscriptions, and until it is subscribed nothing was offered to anyone.\<close>

definition nothing_offered :: "Server \<Rightarrow> bool" where
  "nothing_offered srv \<longleftrightarrow> (\<forall>sub \<in> ran (sseConnectionMap srv). since sub = [] \<and> msgC sub = [])"

lemma nothing_offered_steps:
  "nothing_offered New_Server"
  "nothing_offered srv \<Longrightarrow> nothing_offered (addSubscriber uid srv)"
  "nothing_offered srv \<Longrightarrow> nothing_offered (deliver uid srv)"
  "nothing_offered srv \<Longrightarrow> nothing_offered (removeSubscriber uid srv)"
  by (auto simp: nothing_offered_def New_Server_def addSubscriber_def deliver_def removeSubscriber_def ran_def
      split: option.splits list.splits if_splits)

lemma sse_serve_Server:
  "ss_Server (fst (sse_serve mux uid meth path srv)) \<in> {ss_Server srv, addSubscriber uid (ss_Server srv)}"
  "ss_cfg (fst (sse_serve mux uid meth path srv)) = ss_cfg srv"
  by (auto simp: sse_serve_def split: routed.split sse_handler.split)

lemma sse_process_step_inv:
  assumes "sse_process_step mux p p'"
  shows "sse_step\<^sup>*\<^sup>* (ss_Server (sp_srv p)) (ss_Server (sp_srv p'))"
    and "ss_cfg (sp_srv p') = ss_cfg (sp_srv p)"
    and "sp_redis p = Redis_Connecting \<Longrightarrow> nothing_offered (ss_Server (sp_srv p)) \<Longrightarrow> nothing_offered (ss_Server (sp_srv p'))"
    and "sp_redis p = Redis_Connecting \<Longrightarrow> hc_RedisAddr (ss_cfg (sp_srv p)) = [] \<Longrightarrow> sp_redis p' = Redis_Connecting"
  using assms
proof (induction rule: sse_process_step.induct)
  case (request p uid meth path)
  {
    case 1
    show ?case using connect [OF request(2,3)] sse_serve_Server(1) [of mux uid meth path "sp_srv p"] by auto
  next
    case 2
    show ?case by (simp add: sse_serve_Server(2))
  next
    case 3
    then show ?case using sse_serve_Server(1) [of mux uid meth path "sp_srv p"] by (auto intro: nothing_offered_steps)
  next
    case 4
    then show ?case by simp
  }
qed (auto simp: on_Server_def intro: publish consume disconnect nothing_offered_steps)

lemma sse_process_reached:
  assumes "(sse_process_step mux)\<^sup>*\<^sup>* (sse_MustStart cfg) p"
  shows "sse_step\<^sup>*\<^sup>* New_Server (ss_Server (sp_srv p)) \<and> ss_cfg (sp_srv p) = cfg \<and>
    (sp_redis p = Redis_Connecting \<longrightarrow> nothing_offered (ss_Server (sp_srv p))) \<and> (hc_RedisAddr cfg = [] \<longrightarrow> sp_redis p = Redis_Connecting)"
  using assms
proof (induction rule: rtranclp_induct)
  case base
  then show ?case by (simp add: sse_MustStart_def sse_New_def nothing_offered_steps)
next
  case (step p p')
  have "sp_redis p' = Redis_Connecting \<Longrightarrow> sp_redis p = Redis_Connecting"
    using step.hyps(2) by (cases rule: sse_process_step.cases) (auto simp: on_Server_def)
  then show ?case using step.IH sse_process_step_inv [OF step.hyps(2)] by (auto intro: rtranclp_trans)
qed

theorem sse_process_streams:
  assumes "(sse_process_step mux)\<^sup>*\<^sup>* (sse_MustStart cfg) p" and "sseConnectionMap (ss_Server (sp_srv p)) uid = Some sub"
  shows "written sub = helloMsg @ concat (map (\<lambda>m. m @ [CHR 0x0A]) (delivered sub)) \<and>
    subseq (delivered sub @ msgC sub) (since sub) \<and>
    (length (since sub) \<le> msgC_capacity \<longrightarrow> delivered sub @ msgC sub = since sub) \<and>
    (hc_RedisAddr cfg = [] \<longrightarrow> written sub = helloMsg)"
proof -
  have "sse_step\<^sup>*\<^sup>* New_Server (ss_Server (sp_srv p))" using sse_process_reached [OF assms(1)] by blast
  then have "subs_ok (ss_Server (sp_srv p))"
  proof (induction rule: rtranclp_induct)
    case base
    then show ?case by (simp add: subs_ok_def New_Server_def)
  qed (rule subs_ok_step)
  then have ok: "sub_ok sub" using assms(2) by (auto simp: subs_ok_def intro: ranI)
  have "since sub = []" if "hc_RedisAddr cfg = []"
    using sse_process_reached [OF assms(1)] that assms(2) by (auto simp: nothing_offered_def intro: ranI)
  then show ?thesis using ok by (auto simp: sub_ok_def)
qed

theorem sse_process_streams_witness:
  "\<exists>p sub. (sse_process_step first_match)\<^sup>*\<^sup>* (sse_MustStart \<lparr>hc_ListenAddr = [], hc_RedisAddr = []\<rparr>) p \<and>
    sseConnectionMap (ss_Server (sp_srv p)) ''a'' = Some sub \<and> written sub = helloMsg"
proof -
  let ?p = "sse_MustStart \<lparr>hc_ListenAddr = [], hc_RedisAddr = []\<rparr>"
  let ?p' = "?p\<lparr>sp_srv := fst (sse_serve first_match ''a'' ''GET'' ''/v1/sse/bids'' (sp_srv ?p))\<rparr>"
  have "sse_process_step first_match ?p ?p'"
    by (rule request) (simp_all add: sse_MustStart_def sse_New_def New_Server_def)
  then have run: "(sse_process_step first_match)\<^sup>*\<^sup>* ?p ?p'" by (rule r_into_rtranclp)
  moreover obtain sub where sub: "sseConnectionMap (ss_Server (sp_srv ?p')) ''a'' = Some sub"
    by (simp add: sse_MustStart_def sse_New_def sse_serve_def sse_mux [OF first_match_documented] addSubscriber_def)
  ultimately show ?thesis using sse_process_streams [OF run sub] by auto
qed

end
