(* ===== verification/CommandLine.thy ===== *)
theory CommandLine
  imports Commands BidcollectCmd UpdateExtradata
begin

text \<open>
  The command line: the tree of commands (\<open>cmd/root.go\<close>, \<open>core.go\<close>, \<open>service.go\<close>, \<open>util.go\<close>), the flags that the \<open>init\<close>
  functions register, and the options that the commands read from them.  A flag is bound to a variable of its package,
  which several commands see; registering a flag assigns the default to the variable, whichever command runs in the end.
  The library (\<open>cobra\<close>) is a parameter, with what it documents as a hypothesis; how it splits words into names and values
  is left to it.
\<close>

section \<open>Flags\<close>

datatype flag_value = FBool bool | FString string | FUint64 u64 | FInt64 i64 | FDuration duration

record flag =
  fl_var :: string
  fl_name :: string
  fl_default :: flag_value

abbreviation BoolVar :: "string \<Rightarrow> string \<Rightarrow> bool \<Rightarrow> flag" where
  "BoolVar v n d \<equiv> \<lparr>fl_var = v, fl_name = n, fl_default = FBool d\<rparr>"

abbreviation StringVar :: "string \<Rightarrow> string \<Rightarrow> string \<Rightarrow> flag" where
  "StringVar v n d \<equiv> \<lparr>fl_var = v, fl_name = n, fl_default = FString d\<rparr>"

abbreviation Uint64Var :: "string \<Rightarrow> string \<Rightarrow> u64 \<Rightarrow> flag" where
  "Uint64Var v n d \<equiv> \<lparr>fl_var = v, fl_name = n, fl_default = FUint64 d\<rparr>"

abbreviation Int64Var :: "string \<Rightarrow> string \<Rightarrow> i64 \<Rightarrow> flag" where
  "Int64Var v n d \<equiv> \<lparr>fl_var = v, fl_name = n, fl_default = FInt64 d\<rparr>"

abbreviation DurationVar :: "string \<Rightarrow> string \<Rightarrow> duration \<Rightarrow> flag" where
  "DurationVar v n d \<equiv> \<lparr>fl_var = v, fl_name = n, fl_default = FDuration d\<rparr>"

text \<open>What \<open>vars/vars.go\<close> and \<open>cmd/service/website.go\<close> take from the environment of the process.\<close>

record environment =
  DefaultBeaconURI :: string
  DefaultEthNodeURI :: string
  DefaultEthBackupNodeURI :: string
  DefaultBackfillRunnerInterval :: i64
  DefaultBackfillRunnerNumThreads :: i64
  websiteDefaultListenAddr :: string
  env_DEV :: string

definition minute :: duration where
  "minute = 60000000000"

definition check_payload_flags :: "environment \<Rightarrow> flag list" where
  "check_payload_flags env =
     [Uint64Var ''core.slot'' ''slot'' 0, Uint64Var ''core.slotMax'' ''slot-max'' 0, Uint64Var ''core.slotMin'' ''slot-min'' 0,
      Uint64Var ''core.limit'' ''limit'' 1000, Uint64Var ''core.numThreads'' ''threads'' 10,
      StringVar ''core.ethNodeURI'' ''eth-node'' (DefaultEthNodeURI env),
      StringVar ''core.ethNodeBackupURI'' ''eth-node-backup'' (DefaultEthBackupNodeURI env),
      BoolVar ''core.checkIncorrectOnly'' ''check-incorrect'' False, BoolVar ''core.checkMissedOnly'' ''check-missed'' False,
      BoolVar ''core.checkTx'' ''check-tx'' False, BoolVar ''core.checkAll'' ''check-all'' False]"

definition backfill_flags :: "flag list" where
  "backfill_flags =
     [StringVar ''core.cliRelay'' ''relay'' [], Uint64Var ''core.initCursor'' ''cursor'' 0, Int64Var ''core.minSlot'' ''min-slot'' 0]"

definition builder_stats_flags :: "flag list" where
  "builder_stats_flags =
     [StringVar ''core.builderStatsDateStart'' ''start'' [], StringVar ''core.builderStatsDateEnd'' ''end'' [],
      BoolVar ''core.builderStatsSaveDaily'' ''daily'' True, BoolVar ''core.builderStatsVerbose'' ''verbose'' False,
      BoolVar ''core.builderStatsBackfill'' ''backfill'' False]"

definition extradata_flags :: "environment \<Rightarrow> flag list" where
  "extradata_flags env =
     [StringVar ''util.ethNodeURI'' ''eth-node'' (DefaultEthNodeURI env),
      StringVar ''util.ethNodeBackupURI'' ''eth-node-backup'' (DefaultEthBackupNodeURI env)]"

definition runner_flags :: "environment \<Rightarrow> flag list" where
  "runner_flags env =
     [DurationVar ''service.runnerInterval'' ''interval'' (DefaultBackfillRunnerInterval env * minute),
      StringVar ''service.runnerEthNodeURI'' ''eth-node'' (DefaultEthNodeURI env),
      StringVar ''service.runnerEthBackupURI'' ''eth-node-backup'' (DefaultEthBackupNodeURI env),
      Uint64Var ''service.runnerLimit'' ''limit'' 1000,
      Uint64Var ''service.runnerNumThreads'' ''threads'' (DefaultBackfillRunnerNumThreads env),
      BoolVar ''service.runnerRunOnce'' ''once'' False, BoolVar ''service.runnerSkipBackfill'' ''skip-backfill'' False,
      BoolVar ''service.runnerSkipCheckValue'' ''skip-check-value'' False, StringVar ''service.runnerRelay'' ''relay'' [],
      Int64Var ''service.runnerMinSlot'' ''min-slot'' 0]"

definition bidcollect_cmd_flags :: "environment \<Rightarrow> flag list" where
  "bidcollect_cmd_flags env =
     [BoolVar ''service.collectUltrasoundStream'' ''ultrasound-stream'' False, BoolVar ''service.collectGetHeader'' ''get-header'' False,
      BoolVar ''service.collectDataAPI'' ''data-api'' False, BoolVar ''service.useAllRelays'' ''all-relays'' False,
      StringVar ''service.beaconNodeURI'' ''beacon-uri'' (DefaultBeaconURI env),
      StringVar ''service.outDir'' ''out'' ''csv'', BoolVar ''service.outputTSV'' ''out-tsv'' False,
      StringVar ''service.uid'' ''uid'' [], BoolVar ''service.useRedis'' ''redis'' False,
      StringVar ''service.redisAddr'' ''redis-addr'' ''localhost:6379'',
      BoolVar ''service.runWebserverOnly'' ''webserver'' False, StringVar ''service.WebserverListenAddr'' ''webserver-addr'' ''localhost:8080'',
      BoolVar ''service.runDevServerOnly'' ''devserver'' False, StringVar ''service.devServerListenAddr'' ''devserver-addr'' ''localhost:8095'',
      BoolVar ''service.buildWebsite'' ''build-website'' False, BoolVar ''service.buildWebsiteUpload'' ''build-website-upload'' False,
      StringVar ''service.buildWebsiteOutDir'' ''build-website-out'' ''build'']"

definition website_flags :: "environment \<Rightarrow> flag list" where
  "website_flags env =
     [StringVar ''service.websiteListenAddr'' ''listen-addr'' (websiteDefaultListenAddr env),
      BoolVar ''service.websiteDev'' ''dev'' (env_DEV env = ''1'')]"

section \<open>Commands\<close>

datatype command = Command (cmd_Use: string) (cmd_flags: "flag list") (cmd_commands: "command list")

definition CoreCmd :: "environment \<Rightarrow> command" where
  "CoreCmd env = Command ''core'' []
     [Command ''check-payload-value'' (check_payload_flags env) [], Command ''data-api-backfill'' backfill_flags [],
      Command ''update-builder-stats'' builder_stats_flags []]"

definition UtilCmd :: "environment \<Rightarrow> command" where
  "UtilCmd env = Command ''util'' [] [Command ''backfill-extradata'' (extradata_flags env) []]"

definition ServiceCmd :: "environment \<Rightarrow> command" where
  "ServiceCmd env = Command ''service'' []
     [Command ''website'' (website_flags env) [], Command ''bidcollect'' (bidcollect_cmd_flags env) [],
      Command ''backfill-runner'' (runner_flags env) []]"

definition versionCmd :: command where
  "versionCmd = Command ''version'' [] []"

definition rootCmd :: "environment \<Rightarrow> command" where
  "rootCmd env = Command [] [] [versionCmd, CoreCmd env, UtilCmd env, ServiceCmd env]"

text \<open>The command that a path of words names.\<close>

fun find_command :: "command \<Rightarrow> string list \<Rightarrow> command option" where
  "find_command c [] = Some c"
| "find_command c (w # ws) = (case find (\<lambda>d. cmd_Use d = w) (cmd_commands c) of None \<Rightarrow> None | Some d \<Rightarrow> find_command d ws)"

text \<open>The \<open>init\<close> functions run in the order of their packages and files.\<close>

definition registrations :: "environment \<Rightarrow> flag list" where
  "registrations env = check_payload_flags env @ backfill_flags @ builder_stats_flags @ runner_flags env @
     bidcollect_cmd_flags env @ website_flags env @ extradata_flags env"

section \<open>The command line library\<close>

type_synonym variables = "string \<rightharpoonup> flag_value"

text \<open>Finding the command of a path, registering a flag, and parsing the flags of a command line in their order.  The result
  of parsing is \<open>None\<close> when the command is not run: after an unknown flag, a value of another type, or \<open>--help\<close>.\<close>

record cobra =
  cb_Find :: "command \<Rightarrow> string list \<Rightarrow> command option"
  cb_Var :: "flag \<Rightarrow> variables \<Rightarrow> variables"
  cb_Parse :: "flag list \<Rightarrow> (string \<times> flag_value) list \<Rightarrow> variables \<Rightarrow> variables option"

fun same_kind :: "flag_value \<Rightarrow> flag_value \<Rightarrow> bool" where
  "same_kind (FBool _) v = (case v of FBool _ \<Rightarrow> True | _ \<Rightarrow> False)"
| "same_kind (FString _) v = (case v of FString _ \<Rightarrow> True | _ \<Rightarrow> False)"
| "same_kind (FUint64 _) v = (case v of FUint64 _ \<Rightarrow> True | _ \<Rightarrow> False)"
| "same_kind (FInt64 _) v = (case v of FInt64 _ \<Rightarrow> True | _ \<Rightarrow> False)"
| "same_kind (FDuration _) v = (case v of FDuration _ \<Rightarrow> True | _ \<Rightarrow> False)"

definition cobra_documented :: "cobra \<Rightarrow> bool" where
  "cobra_documented lib \<longleftrightarrow>
     (\<forall>c. cb_Find lib c [] = Some c) \<and>
     (\<forall>c w ws d. find (\<lambda>d. cmd_Use d = w) (cmd_commands c) = Some d \<longrightarrow> cb_Find lib c (w # ws) = cb_Find lib d ws) \<and>
     (\<forall>f vars. cb_Var lib f vars = vars(fl_var f \<mapsto> fl_default f)) \<and>
     (\<forall>fs vars. cb_Parse lib fs [] vars = Some vars) \<and>
     (\<forall>fs n v given vars. cb_Parse lib fs ((n, v) # given) vars =
        (case find (\<lambda>f. fl_name f = n) fs of
           None \<Rightarrow> None
         | Some f \<Rightarrow> if same_kind (fl_default f) v then cb_Parse lib fs given (vars(fl_var f \<mapsto> v)) else None))"

text \<open>A command that runs, with the variables as it finds them.\<close>

definition invoke :: "cobra \<Rightarrow> environment \<Rightarrow> string list \<Rightarrow> (string \<times> flag_value) list \<Rightarrow> (command \<times> variables) option" where
  "invoke lib env path given =
     (case cb_Find lib (rootCmd env) path of
        None \<Rightarrow> None
      | Some cmd \<Rightarrow>
          map_option (\<lambda>vars. (cmd, vars)) (cb_Parse lib (cmd_flags cmd) given (fold (cb_Var lib) (registrations env) Map.empty)))"

text \<open>A library that behaves so.\<close>

definition register :: "flag \<Rightarrow> variables \<Rightarrow> variables" where
  "register f vars = vars(fl_var f \<mapsto> fl_default f)"

fun parse_flags :: "flag list \<Rightarrow> (string \<times> flag_value) list \<Rightarrow> variables \<Rightarrow> variables option" where
  "parse_flags fs [] vars = Some vars"
| "parse_flags fs ((n, v) # given) vars =
     (case find (\<lambda>f. fl_name f = n) fs of
        None \<Rightarrow> None
      | Some f \<Rightarrow> if same_kind (fl_default f) v then parse_flags fs given (vars(fl_var f \<mapsto> v)) else None)"

definition plain_cobra :: cobra where
  "plain_cobra = \<lparr>cb_Find = find_command, cb_Var = register, cb_Parse = parse_flags\<rparr>"

lemma plain_cobra_documented: "cobra_documented plain_cobra"
  by (simp add: cobra_documented_def plain_cobra_def register_def split: option.split)

lemma cobra_finds: "cobra_documented lib \<Longrightarrow> find_command c path = Some d \<Longrightarrow> cb_Find lib c path = Some d"
  by (induction c path rule: find_command.induct) (auto simp: cobra_documented_def split: option.splits)

lemma cobra_registers: "cobra_documented lib \<Longrightarrow> cb_Var lib = register"
  by (simp add: cobra_documented_def register_def fun_eq_iff)

lemma cobra_parses: "cobra_documented lib \<Longrightarrow> cb_Parse lib fs given vars = parse_flags fs given vars"
  by (induction fs given vars rule: parse_flags.induct) (auto simp: cobra_documented_def split: option.splits)

lemma invoke_found:
  assumes "cobra_documented lib" "find_command (rootCmd env) path = Some cmd"
  shows "invoke lib env path given =
    map_option (\<lambda>vars. (cmd, vars)) (parse_flags (cmd_flags cmd) given (fold register (registrations env) Map.empty))"
  using cobra_finds [OF assms] by (simp add: invoke_def cobra_registers [OF assms(1)] cobra_parses [OF assms(1)])

section \<open>The options of the commands\<close>

definition bool_of :: "variables \<Rightarrow> string \<Rightarrow> bool" where
  "bool_of vars v = (case vars v of Some (FBool b) \<Rightarrow> b | _ \<Rightarrow> False)"

definition string_of :: "variables \<Rightarrow> string \<Rightarrow> string" where
  "string_of vars v = (case vars v of Some (FString s) \<Rightarrow> s | _ \<Rightarrow> [])"

definition uint64_of :: "variables \<Rightarrow> string \<Rightarrow> u64" where
  "uint64_of vars v = (case vars v of Some (FUint64 u) \<Rightarrow> u | _ \<Rightarrow> 0)"

definition int64_of :: "variables \<Rightarrow> string \<Rightarrow> i64" where
  "int64_of vars v = (case vars v of Some (FInt64 i) \<Rightarrow> i | _ \<Rightarrow> 0)"

definition duration_of :: "variables \<Rightarrow> string \<Rightarrow> duration" where
  "duration_of vars v = (case vars v of Some (FDuration d) \<Rightarrow> d | _ \<Rightarrow> 0)"

definition check_payload_options :: "variables \<Rightarrow> CheckPayloadValueOpts" where
  "check_payload_options vars =
     \<lparr>cp_Limit = uint64_of vars ''core.limit'', cp_Slot = uint64_of vars ''core.slot'', cp_SlotMax = uint64_of vars ''core.slotMax'',
      cp_SlotMin = uint64_of vars ''core.slotMin'', cp_NumThreads = uint64_of vars ''core.numThreads'',
      cp_CheckIncorrectOnly = bool_of vars ''core.checkIncorrectOnly'', cp_CheckMissedOnly = bool_of vars ''core.checkMissedOnly'',
      cp_CheckTx = bool_of vars ''core.checkTx'', cp_CheckAll = bool_of vars ''core.checkAll''\<rparr>"

definition runner_options :: "variables \<Rightarrow> runner_opts" where
  "runner_options vars =
     \<lparr>ro_interval = duration_of vars ''service.runnerInterval'', ro_EthNodeURI = string_of vars ''service.runnerEthNodeURI'',
      ro_EthBackupURI = string_of vars ''service.runnerEthBackupURI'', ro_Limit = uint64_of vars ''service.runnerLimit'',
      ro_NumThreads = uint64_of vars ''service.runnerNumThreads'', ro_RunOnce = bool_of vars ''service.runnerRunOnce'',
      ro_SkipBackfill = bool_of vars ''service.runnerSkipBackfill'', ro_SkipCheckValue = bool_of vars ''service.runnerSkipCheckValue'',
      ro_Relay = string_of vars ''service.runnerRelay'', ro_MinSlot = int64_of vars ''service.runnerMinSlot''\<rparr>"

definition bidcollect_options :: "variables \<Rightarrow> bidcollect_flags" where
  "bidcollect_options vars =
     \<lparr>collectUltrasoundStream = bool_of vars ''service.collectUltrasoundStream'', collectGetHeader = bool_of vars ''service.collectGetHeader'',
      collectDataAPI = bool_of vars ''service.collectDataAPI'', useAllRelays = bool_of vars ''service.useAllRelays'',
      beaconNodeURI = string_of vars ''service.beaconNodeURI'', outDir = string_of vars ''service.outDir'',
      outputTSV = bool_of vars ''service.outputTSV'', uid = string_of vars ''service.uid'', useRedis = bool_of vars ''service.useRedis'',
      redisAddr = string_of vars ''service.redisAddr'', runWebserverOnly = bool_of vars ''service.runWebserverOnly'',
      WebserverListenAddr = string_of vars ''service.WebserverListenAddr'', runDevServerOnly = bool_of vars ''service.runDevServerOnly'',
      devServerListenAddr = string_of vars ''service.devServerListenAddr'', buildWebsite = bool_of vars ''service.buildWebsite'',
      buildWebsiteUpload = bool_of vars ''service.buildWebsiteUpload'', buildWebsiteOutDir = string_of vars ''service.buildWebsiteOutDir''\<rparr>"

section \<open>What a command finds in its variables\<close>

text \<open>No two flags share a variable, so no registration undoes another.\<close>

lemma registered_variables_distinct: "distinct (map fl_var (registrations env))"
  by (simp add: registrations_def check_payload_flags_def backfill_flags_def builder_stats_flags_def runner_flags_def
      bidcollect_cmd_flags_def website_flags_def extradata_flags_def)

lemma registered_default:
  "distinct (map fl_var fs) \<Longrightarrow> f \<in> set fs \<Longrightarrow> fold register fs vars (fl_var f) = Some (fl_default f)"
proof (induction fs rule: rev_induct)
  case (snoc g fs)
  then have "fl_var g \<notin> fl_var ` set fs" by simp
  then have "f \<in> set fs \<Longrightarrow> fl_var f \<noteq> fl_var g" by (metis imageI)
  with snoc show ?case by (cases "f = g") (auto simp: register_def)
qed simp

lemma find_flag: "distinct (map fl_name fs) \<Longrightarrow> find (\<lambda>f. fl_name f = n) fs = Some f \<longleftrightarrow> f \<in> set fs \<and> fl_name f = n"
  by (induction fs) auto

lemma parse_flags_value:
  assumes "parse_flags fs given vars = Some vars'" "distinct (map fl_name fs)" "inj_on fl_var (set fs)" "f \<in> set fs"
  shows "vars' (fl_var f) = (case map_of (rev given) (fl_name f) of Some v \<Rightarrow> Some v | None \<Rightarrow> vars (fl_var f))"
  using assms
proof (induction fs given vars rule: parse_flags.induct)
  case (2 fs n v given vars)
  then obtain g where g: "find (\<lambda>f. fl_name f = n) fs = Some g" "same_kind (fl_default g) v"
    and rest: "parse_flags fs given (vars(fl_var g \<mapsto> v)) = Some vars'" by (auto split: option.splits if_splits)
  have "g \<in> set fs" "fl_name g = n" using g(1) find_flag [OF 2(3)] by blast+
  then have "fl_var f = fl_var g \<longleftrightarrow> f = g" "fl_name f = n \<longleftrightarrow> f = g"
    using 2(3-5) by (auto simp: inj_on_eq_iff distinct_map)
  then show ?case using "2.IH" [OF g(1) g(2) rest 2(3-5)] by (auto simp: map_add_def split: option.splits)
qed simp

fun subcommands :: "command \<Rightarrow> command list" where
  "subcommands (Command u fs cs) = Command u fs cs # concat (map subcommands cs)"

lemma find_command_subcommands: "find_command c path = Some d \<Longrightarrow> d \<in> set (subcommands c)"
proof (induction c path rule: find_command.induct)
  case (1 c)
  then have "d = c" by simp
  then show ?case by (cases c) simp
next
  case (2 c w ws)
  then obtain d' where "find (\<lambda>d. cmd_Use d = w) (cmd_commands c) = Some d'" "find_command d' ws = Some d" by (auto split: option.splits)
  moreover from this have "d' \<in> set (cmd_commands c)" by (auto simp: find_Some_iff)
  ultimately show ?case using 2 by (cases c) auto
qed

lemma command_flags_ok:
  assumes "find_command (rootCmd env) path = Some cmd"
  shows "distinct (map fl_name (cmd_flags cmd))" "set (cmd_flags cmd) \<subseteq> set (registrations env)"
proof -
  have "\<forall>c \<in> set (subcommands (rootCmd env)). distinct (map fl_name (cmd_flags c))"
    by (simp add: rootCmd_def CoreCmd_def UtilCmd_def ServiceCmd_def versionCmd_def check_payload_flags_def backfill_flags_def
        builder_stats_flags_def runner_flags_def bidcollect_cmd_flags_def website_flags_def extradata_flags_def)
  moreover have "\<forall>c \<in> set (subcommands (rootCmd env)). set (cmd_flags c) \<subseteq> set (registrations env)"
    by (auto simp: rootCmd_def CoreCmd_def UtilCmd_def ServiceCmd_def versionCmd_def registrations_def)
  ultimately show "distinct (map fl_name (cmd_flags cmd))" "set (cmd_flags cmd) \<subseteq> set (registrations env)"
    using find_command_subcommands [OF assms] by blast+
qed

lemma invoke_values:
  assumes "cobra_documented lib" "find_command (rootCmd env) path = Some cmd"
    and "invoke lib env path given = Some (cmd', vars)" "f \<in> set (cmd_flags cmd)"
  shows "cmd' = cmd \<and> vars (fl_var f) = Some (case map_of (rev given) (fl_name f) of Some v \<Rightarrow> v | None \<Rightarrow> fl_default f)"
proof -
  have cmd: "cmd' = cmd" and parse: "parse_flags (cmd_flags cmd) given (fold register (registrations env) Map.empty) = Some vars"
    using assms(3) by (auto simp: invoke_found [OF assms(1,2)])
  have "inj_on fl_var (set (registrations env))" using registered_variables_distinct [of env] by (simp add: distinct_map)
  then have "inj_on fl_var (set (cmd_flags cmd))" using command_flags_ok(2) [OF assms(2)] by (rule inj_on_subset)
  from parse_flags_value [OF parse command_flags_ok(1) [OF assms(2)] this assms(4)]
  show ?thesis using registered_default [OF registered_variables_distinct, of f env Map.empty] command_flags_ok(2) [OF assms(2)] assms(4) cmd
    by (auto split: option.splits)
qed

text \<open>C40. A command that runs finds in its variables, for each of its flags, the last value that was given for it, and else
  its default: no flag of this or another command of the program stands in the way.\<close>

theorem command_variables:
  assumes "cobra_documented lib" "find_command (rootCmd env) path = Some cmd" "invoke lib env path given = Some (cmd', vars)"
  shows "\<forall>f \<in> set (cmd_flags cmd). vars (fl_var f) = Some (case map_of (rev given) (fl_name f) of Some v \<Rightarrow> v | None \<Rightarrow> fl_default f)"
  using invoke_values [OF assms] by blast

lemma find_root:
  "find_command (rootCmd env) [''core'', ''check-payload-value''] = Some (Command ''check-payload-value'' (check_payload_flags env) [])"
  "find_command (rootCmd env) [''service'', ''bidcollect''] = Some (Command ''bidcollect'' (bidcollect_cmd_flags env) [])"
  "find_command (rootCmd env) [''service'', ''backfill-runner''] = Some (Command ''backfill-runner'' (runner_flags env) [])"
  by (simp_all add: rootCmd_def CoreCmd_def UtilCmd_def ServiceCmd_def versionCmd_def)

definition example_environment :: environment where
  "example_environment =
     \<lparr>DefaultBeaconURI = ''http://localhost:3500'', DefaultEthNodeURI = [], DefaultEthBackupNodeURI = [], DefaultBackfillRunnerInterval = 5,
      DefaultBackfillRunnerNumThreads = 10, websiteDefaultListenAddr = ''localhost:9060'', env_DEV = []\<rparr>"

theorem command_variables_witness:
  "\<exists>cmd vars. invoke plain_cobra example_environment [''core'', ''check-payload-value'']
       [(''limit'', FUint64 5), (''check-all'', FBool True), (''limit'', FUint64 7)] =
     Some (cmd, vars) \<and> vars ''core.limit'' = Some (FUint64 7) \<and> vars ''core.slot'' = Some (FUint64 0)"
proof -
  obtain vars where run: "invoke plain_cobra example_environment [''core'', ''check-payload-value'']
      [(''limit'', FUint64 5), (''check-all'', FBool True), (''limit'', FUint64 7)] =
      Some (Command ''check-payload-value'' (check_payload_flags example_environment) [], vars)"
    by (simp add: invoke_found [OF plain_cobra_documented find_root(1)] check_payload_flags_def)
  from command_variables [OF plain_cobra_documented find_root(1) this]
  show ?thesis by (auto simp: run check_payload_flags_def)
qed

text \<open>Without flags the collector's options are its defaults, the check takes the newest thousand payloads that are not
  checked, and the runner does the same every few minutes.\<close>

lemma no_flags:
  assumes "cobra_documented lib" "find_command (rootCmd env) path = Some cmd" "invoke lib env path [] = Some (cmd', vars)"
  shows "\<forall>f \<in> set (cmd_flags cmd). vars (fl_var f) = Some (fl_default f)"
  using invoke_values [OF assms] by simp

lemma no_flags_bidcollect:
  assumes "cobra_documented lib" "invoke lib env [''service'', ''bidcollect''] [] = Some (cmd, vars)"
  shows "bidcollect_options vars = default_flags (DefaultBeaconURI env)"
  using no_flags [OF assms(1) find_root(2) assms(2)]
  by (simp add: bidcollect_cmd_flags_def bidcollect_options_def default_flags_def bool_of_def string_of_def)

lemma no_flags_check:
  assumes "cobra_documented lib" "invoke lib env [''core'', ''check-payload-value''] [] = Some (cmd, vars)"
  shows "todo_entries (check_payload_options vars) (select_entries (check_payload_options vars) plan db) =
    map claim_columns (take 1000 (order_desc plan pd_Slot (filter (\<lambda>r. pd_ValueCheckOk r = None) (payloads db))))"
proof -
  have "check_payload_options vars = \<lparr>cp_Limit = 1000, cp_Slot = 0, cp_SlotMax = 0, cp_SlotMin = 0, cp_NumThreads = 10,
      cp_CheckIncorrectOnly = False, cp_CheckMissedOnly = False, cp_CheckTx = False, cp_CheckAll = False\<rparr>"
    using no_flags [OF assms(1) find_root(1) assms(2)]
    by (simp add: check_payload_flags_def check_payload_options_def bool_of_def uint64_of_def)
  then show ?thesis by (simp add: select_entries_def todo_entries_def take_map)
qed

lemma no_flags_runner:
  assumes "cobra_documented lib" "invoke lib env [''service'', ''backfill-runner''] [] = Some (cmd, vars)"
  shows "runner_options vars = \<lparr>ro_interval = DefaultBackfillRunnerInterval env * minute, ro_EthNodeURI = DefaultEthNodeURI env,
    ro_EthBackupURI = DefaultEthBackupNodeURI env, ro_Limit = 1000, ro_NumThreads = DefaultBackfillRunnerNumThreads env, ro_RunOnce = False,
    ro_SkipBackfill = False, ro_SkipCheckValue = False, ro_Relay = [], ro_MinSlot = 0\<rparr>"
  using no_flags [OF assms(1) find_root(3) assms(2)]
  by (simp add: runner_flags_def runner_options_def bool_of_def string_of_def uint64_of_def int64_of_def duration_of_def)

section \<open>The update of the extra data\<close>

text \<open>\<open>backfillExtradataCmd\<close> makes a second client only when it has an address for it.\<close>

definition backfillExtradataCmd :: "(string \<Rightarrow> rpc_client) \<Rightarrow> variables \<Rightarrow> connection \<Rightarrow> extra_env \<Rightarrow> cmd_outcome" where
  "backfillExtradataCmd flashbotsrpc_New vars conn env =
     (let client = flashbotsrpc_New (string_of vars ''util.ethNodeURI'');
          client2 = (if string_of vars ''util.ethNodeBackupURI'' \<noteq> [] then Some (flashbotsrpc_New (string_of vars ''util.ethNodeBackupURI''))
                     else None)
      in with_db conn (\<lambda>db. case backfill_extradata (env\<lparr>xe_client := client, xe_client2 := client2\<rparr>) db of
           (db', RunDone) \<Rightarrow> CmdDone db'
         | _ \<Rightarrow> CmdFatal))"

lemma extradata_without_backup:
  assumes "find_command (rootCmd env) [''util'', ''backfill-extradata''] = Some cmd" "cobra_documented lib"
    and "invoke lib env [''util'', ''backfill-extradata''] [] = Some (cmd', vars)" "DefaultEthBackupNodeURI env = []"
    and "xe_select_fault e = None" "xe_sched e (map claim_columns (xe_plan e (filter lacks_extra (payloads db)))) = entry # entries"
    and "map claim_columns (xe_plan e (filter lacks_extra (payloads db))) \<noteq> []"
    and "\<And>b. flashbotsrpc_New (DefaultEthNodeURI env) (pd_BlockHash entry) True \<noteq> Inr (Some b)"
  shows "backfillExtradataCmd flashbotsrpc_New vars (Connected db) e = CmdFatal"
proof -
  have "cmd = Command ''backfill-extradata'' (extradata_flags env) []"
    using assms(1) by (simp add: rootCmd_def CoreCmd_def UtilCmd_def ServiceCmd_def versionCmd_def)
  then have vars: "string_of vars ''util.ethNodeURI'' = DefaultEthNodeURI env" "string_of vars ''util.ethNodeBackupURI'' = []"
    using no_flags [OF assms(2,1,3)] assms(4) by (simp_all add: extradata_flags_def string_of_def)
  have "flashbotsrpc_New (DefaultEthNodeURI env) (pd_BlockHash entry) True = Inr None \<or>
      (\<exists>x. flashbotsrpc_New (DefaultEthNodeURI env) (pd_BlockHash entry) True = Inl x)"
    using assms(8) by (metis not_None_eq sum.exhaust)
  then have "extra_step (e\<lparr>xe_client := flashbotsrpc_New (DefaultEthNodeURI env), xe_client2 := None\<rparr>) entry = ExtraPanic"
    by (auto simp: extra_step_def rpc_getBlockByHash_def)
  then show ?thesis using assms(5-7) by (simp add: backfillExtradataCmd_def vars with_db_def backfill_extradata_def Let_def)
qed

end
