(* ===== verification/Spec2Isabelle.thy ===== *)
theory Spec2Isabelle
  imports BidStream BidcollectCmd EthNode Commands UpdateExtradata DevServer BuilderStats DecimalSums DailyStats SiteRouter
    StoredRows DevRouter SseRouter CommandLine
begin

text \<open>
  Verification library of relayscan, a monitor of MEV-Boost relays written in Go.  File names are relative to the
  root of the repository.

  \<^bold>\<open>The program.\<close>  Three groups of processes share a few packages.

  \<^item> \<^emph>\<open>Bid collection\<close> (\<open>cmd/service/bidcollect.go\<close>, \<open>services/bidcollect\<close>).  Three sources (polling of the
    relays' data API, polling of \<open>getHeader\<close>, the Ultrasound top-bid web socket) put messages on bounded
    channels; one loop takes them off and hands their bids to the bid processor, which deduplicates them, keeps
    the top bid of each slot, appends to the CSV files of the hour and publishes on Redis.  A separate server
    subscribes to Redis and streams the bids to its clients, and a generator builds the site that lists the
    archived files.
  \<^item> \<^emph>\<open>Payloads\<close> (\<open>cmd/core\<close>, \<open>cmd/service/backfill_runner.go\<close>, \<open>cmd/util\<close>, \<open>database\<close>).  The backfill pages
    through the payloads each relay says it delivered and saves them; the check compares the claimed value with the
    blocks of an Ethereum node; the runner repeats both; the statistics count payloads per builder.
  \<^item> \<^emph>\<open>The website\<close> (\<open>services/website\<close>) reads the database in update loops, renders pages into a cache and
    answers requests from it.

  \<^bold>\<open>Conventions.\<close>  A struct is a record and a Go function the HOL function of the same name.  State is passed
  explicitly.  \<open>uint64\<close> and \<open>int64\<close> are words of 64 bits (signed operations are spelled out in \<open>Prelude\<close>), big
  integers are \<open>int\<close>, byte strings are \<open>string\<close>.  An error is a value (an option, a sum, or an outcome type); a panic
  and a fatal error, which end the process, are outcomes of their own.  What is not in the repository is a parameter:
  records of functions stand for the HTTP transport and JSON, the Ethereum nodes, the relays' key decoding, the server
  of the database (its faults, its clock and the order of rows a statement leaves open), the file system, Redis, the
  templates and shell scripts.  Concurrent goroutines are step relations (\<open>collector_step\<close>, \<open>sse_step\<close>, \<open>sse_process_step\<close>, \<open>bp_step\<close>,
  \<open>site_step\<close>, \<open>runner_step\<close>) or an arbitrary order of the work (\<open>row_order\<close>), and theorems hold for every
  interleaving or order.

  \<^bold>\<open>Foundations.\<close>
  \<^item> \<open>Prelude\<close>: words, first occurrences and running maxima, and the interfaces \<open>first_store\<close> and \<open>best_store\<close> of the
    stores that let only new keys or only better values through.
  \<^item> \<open>GoStrings\<close>, \<open>GoTime\<close>, \<open>GoPath\<close>, \<open>GoURL\<close>, \<open>GoFloat\<close>: what the source uses of Go's standard library (printing and
    parsing of numbers, instants, durations and the calendar, paths, URLs and queries, \<open>big.Float\<close>), each with the facts
    the components need (parse after print, printing is injective, rounding error).  \<open>FloatText\<close>: what the text of a
    \<open>big.Float\<close> says when it is read as a decimal number, and how far it is from the value.
  \<^item> \<open>MuxRouter\<close>: routes and path templates of the web servers, and the router as a parameter (\<open>mux_documented\<close>).
  \<^item> \<open>CommonUtils\<close>: slots and small helpers of \<open>common/utils.go\<close>.  \<open>EthValues\<close>: its conversions between wei and ether,
    with the relative error of the result.

  \<^bold>\<open>Bid collection.\<close>
  \<^item> \<open>BidTypes\<close> (\<open>types/types.go\<close>, \<open>consts.go\<close>): the common bid, its key (injective) and its CSV line (splits back).
  \<^item> \<open>BidProcessor\<close> (\<open>bid-processor.go\<close>): the caches interpret the two store interfaces; from that follow the contents of
    the two files of every hour, for batches of any size: the first occurrences of all bids, and the strict running maxima
    of each slot.  Paths of different hours and kinds differ; housekeeping evicts and closes exactly what it should;
    the cache and handle invariants hold in every reachable state.
  \<^item> \<open>Ultrasound\<close> (\<open>common/ultrasoundbid*.go\<close>): the SSZ encoding, with both round trips.
  \<^item> \<open>Relays\<close>, \<open>HttpRequest\<close>, \<open>EthNode\<close> (\<open>common/relayentry.go\<close>, \<open>vars/relays.go\<close>, \<open>common/request.go\<close>, \<open>common/eth_node.go\<close>):
    relay entries and request URLs, every branch of a request, and the fallback over several nodes.
  \<^item> \<open>BidSources\<close> (\<open>data-api-poller.go\<close>, \<open>getheader-poller.go\<close>, \<open>ultrasound-stream.go\<close>): when each source polls which slot,
    the duties cache, and the reconnecting stream with its bounded delay.
  \<^item> \<open>BidCollector\<close> (\<open>bidcollector.go\<close>): channels, main loop and housekeeping in any interleaving; it refines the
    steps of the processor, and each channel is first in, first out.
  \<^item> \<open>SseServer\<close> (\<open>webserver/*.go\<close>): what every subscriber has been sent.  \<open>BidStream\<close> composes collector, Redis and
    server: every bid handled arrives at the subscriber as a CSV line.  \<open>SseRouter\<close>: the route to the stream, and who is
    subscribed after any requests; its process, with Redis and HTTP in any interleaving, refines the steps of \<open>SseServer\<close>.
  \<^item> \<open>BidcollectCmd\<close> (\<open>cmd/service/bidcollect.go\<close>): flags, the choice of the process, its relays and sources.
  \<^item> \<open>SiteGenerator\<close>, \<open>DevServer\<close> (\<open>services/bidcollect/website\<close>): the parser of the storage listing (reads back every
    well-formed listing; what it returns is well-formed whatever it reads), the pages written and uploaded and their order,
    the development server and its logging middleware.  \<open>DevRouter\<close>: which of its pages a path shows.

  \<^bold>\<open>Payloads.\<close>
  \<^item> \<open>DbTypes\<close>, \<open>Database\<close> (\<open>database/*.go\<close>): rows, the conversions into them and every statement of the service.  A table
    is a list of rows with a unique key; \<open>unique_table\<close> is the interface of an insert that skips taken keys, interpreted for
    four tables, and the upsert of the statistics refines the update of a finite map.
  \<^item> \<open>Backfill\<close> (\<open>cmd/core/data-api-backfill.go\<close>): the paging loop is a total function (every turn but the last receives
    a new slot, and there are at most \<open>2 ^ 64\<close> of them), it saves every slot it receives, and it stops at a newer payload.
  \<^item> \<open>CheckPayload\<close> (\<open>check-payload-value.go\<close>): the check of an entry on every branch, the selection and the run of the
    workers in any order; what marks a payload as paid, and what a run leaves in the rows of a slot.
  \<^item> \<open>BackfillRunner\<close> (\<open>backfill_runner.go\<close>): the service refines the composition of its cycles.  \<open>history_writer\<close> is the
    interface of everything that writes the table of payloads, interpreted for a saved entry, an insert, a whole cycle and
    (in \<open>UpdateExtradata\<close>) an update of the extra data: no delivered payload is ever lost or altered.
  \<^item> \<open>UpdateExtradata\<close> (\<open>cmd/util/update-extradata.go\<close>): concurrent workers equal one pass over the table.
  \<^item> \<open>Schema\<close> (\<open>database/migrations\<close>, \<open>database/vars/tables.go\<close>): the tables, columns, keys and indexes of the migrations as
    statements on a schema.  \<open>SchemaMigration\<close>: whatever failed before, the database is at one of five versions, and a start
    without a fault reaches the last; the bound on the prefix (nine bytes) is the longest for which no name is cut.
    \<open>SchemaStatements\<close>: every statement of the program names columns, keys and fields that fit the last version, and what an
    older version lacks; with a long prefix the payloads lose their unique index.
  \<^item> \<open>StoredRows\<close>: the values that the columns of the payload table take; which payloads of a relay it accepts, how accurate
    the stored amounts are, and how one malformed entry ends a backfill.
  \<^item> \<open>Commands\<close>: how the commands connect and start.  \<open>CommandLine\<close> (\<open>cmd/*.go\<close>, the \<open>init\<close> functions): the tree of commands, their
    flags with variables and defaults, and what a command finds in its variables; \<open>cobra\<close> is a parameter
    (\<open>cobra_documented\<close>).
  \<^item> \<open>BuilderGroups\<close>, \<open>BuilderStats\<close> (\<open>vars/builder_aliases.go\<close>, \<open>update-builder-stats.go\<close>): names of builders, and the
    statistics of a day as exact counts.

  \<^bold>\<open>The website.\<close>
  \<^item> \<open>WebsiteUtils\<close>, \<open>DecimalSums\<close> (\<open>services/website/utils.go\<close>): tables and percentages, and the consolidation of the entries
    of builders by group; the interface \<open>consolidation\<close> is interpreted for block counts and for profits.  Counts are
    conserved; sums of decimal amounts are exact although they go through strings and floats, for amounts whose digits fit
    the mantissa.  Printed percentages are right to the last digit they show.
  \<^item> \<open>WebsiteData\<close>, \<open>WebHandlers\<close> (\<open>webserver_data.go\<close>, \<open>html.go\<close>, \<open>webserver.go\<close>): the update loops as a step relation
    and every handler; \<open>WebProperties\<close>, \<open>DailyStats\<close>: which pages are served in every reachable state, and the statistics of
    a day from the rows of the database to the document.
  \<^item> \<open>SiteRouter\<close> (\<open>webserver.go\<close>, \<open>cmd/service/website.go\<close>): the table of routes and what a request is answered with, from
    the state of the running server; the matching of routes is the hypothesis of \<open>MuxRouter\<close>.

  \<^bold>\<open>Bounds and fuel.\<close>  No definition uses fuel: loops recurse on their input or have a measure.  Loops that never end in
  the program are relations on states, one step each.  Hypotheses on time keep instants within the range in which 64-bit
  arithmetic is exact (\<open>clock_ok\<close>, \<open>time_sane\<close>, \<open>slot_in_range\<close>); the behaviour outside is stated where it matters (a
  negative minimum slot, a payload ahead of the clock).

  \<^bold>\<open>Not modelled.\<close>  How the command line library splits words and prints help, the static files of the HTTP servers and
  their time limits, HTML templates, profiling, and the JSON encoding of documents: they configure libraries, or are text
  those libraries interpret.  \<open>cmd/util/inspect-block.go\<close> is commented out as a whole.  Of PostgreSQL the model has what the
  statements of the program use; its plans, locks and transactions beyond one statement or one migration are left out.
  Crashes of the operating system, and signals before a handler for them is installed, are outside the model.
\<close>

end
